(* ===== verification/Colorful_Prelude.thy ===== *)
theory Colorful_Prelude
  imports Complex_Main
begin

text \<open>
  Shared vocabulary of the colorful.js development: JavaScript strings as
  character lists (one \<open>char\<close> per UTF-16 code unit below 256), the character
  classes the source's regular expressions use (\<open>\s\<close>, \<open>\d\<close>, hex digits),
  decimal and hexadecimal digit strings with their values, integer logarithms,
  and the Latin-1 case mapping of \<open>String.prototype.toLowerCase\<close>.  Digit values
  are integers, not naturals, so that the kernel evaluates them (by \<open>code_simp\<close>)
  in binary.  The lemmas here are the digit-string facts that the number
  formatting and parsing proofs share.
\<close>

named_theorems digit_simps "facts on digit strings used by the formatting proofs"

type_synonym js_string = string

section \<open>Character classes\<close>

text \<open>JavaScript's \<open>\s\<close> (WhiteSpace and LineTerminator) restricted to code units
  below 256: TAB, LF, VT, FF, CR, SPACE and NO-BREAK SPACE.  The same set is
  StrWhiteSpaceChar, which \<open>Number(string)\<close> trims.\<close>

definition is_js_space :: "char \<Rightarrow> bool" where
  "is_js_space c \<longleftrightarrow> (of_char c :: int) \<in> {9, 10, 11, 12, 13, 32, 160}"

definition is_digit :: "char \<Rightarrow> bool" where
  "is_digit c \<longleftrightarrow> 48 \<le> (of_char c :: int) \<and> (of_char c :: int) \<le> 57"

definition is_hex_lc :: "char \<Rightarrow> bool" where
  \<comment> \<open>the class \<open>[a-f\d]\<close>\<close>
  "is_hex_lc c \<longleftrightarrow> is_digit c \<or> (97 \<le> (of_char c :: int) \<and> (of_char c :: int) \<le> 102)"

definition is_hex_uc :: "char \<Rightarrow> bool" where
  \<comment> \<open>the class \<open>[A-F\d]\<close>\<close>
  "is_hex_uc c \<longleftrightarrow> is_digit c \<or> (65 \<le> (of_char c :: int) \<and> (of_char c :: int) \<le> 70)"

section \<open>Digit values\<close>

definition digit_val :: "char \<Rightarrow> int" where
  "digit_val c = of_char c - 48"

definition hex_val :: "char \<Rightarrow> int" where
  "hex_val c = (if is_digit c then digit_val c
                else if 97 \<le> (of_char c :: int) then of_char c - 87 else of_char c - 55)"

definition digit_char :: "int \<Rightarrow> char" where
  "digit_char d = char_of (48 + d)"

definition hex_char :: "int \<Rightarrow> char" where
  \<comment> \<open>lower-case digits, as \<open>Number.prototype.toString(16)\<close> prints them\<close>
  "hex_char d = (if d < 10 then char_of (48 + d) else char_of (87 + d))"

text \<open>The value of a string of decimal (hexadecimal) digits, most significant first.\<close>

definition int_of_digits :: "string \<Rightarrow> int" where
  "int_of_digits ds = foldl (\<lambda>n c. 10 * n + digit_val c) 0 ds"

definition int_of_hex :: "string \<Rightarrow> int" where
  "int_of_hex ds = foldl (\<lambda>n c. 16 * n + hex_val c) 0 ds"

text \<open>Decimal and hexadecimal numerals of a non-negative integer, without leading zeros.\<close>

function digits_of_int :: "int \<Rightarrow> string" where
  "digits_of_int n =
     (if n < 10 then [digit_char n] else digits_of_int (n div 10) @ [digit_char (n mod 10)])"
  by pat_completeness auto
termination
  by (relation "measure (\<lambda>n. nat n)") auto

function hex_of_int :: "int \<Rightarrow> string" where
  "hex_of_int n =
     (if n < 16 then [hex_char n] else hex_of_int (n div 16) @ [hex_char (n mod 16)])"
  by pat_completeness auto
termination
  by (relation "measure (\<lambda>n. nat n)") auto

declare digits_of_int.simps [simp del] hex_of_int.simps [simp del]

definition all_digits :: "string \<Rightarrow> bool" where
  "all_digits ds \<longleftrightarrow> list_all is_digit ds"

text \<open>\<open>ilog b n\<close> is \<open>\<lfloor>log\<^sub>b n\<rfloor>\<close> for \<open>n \<ge> 1\<close> (and 0 below).\<close>

function ilog :: "int \<Rightarrow> int \<Rightarrow> int" where
  "ilog b n = (if 1 < b \<and> b \<le> n then ilog b (n div b) + 1 else 0)"
  by pat_completeness auto
termination
  by (relation "measure (\<lambda>(b, n). nat n)") (auto intro: int_div_less_self)

declare ilog.simps [simp del]

section \<open>Case mapping\<close>

text \<open>\<open>toLowerCase\<close> on Latin-1: A--Z and the upper-case letters 192--222 other than
  the multiplication sign 215 move up by 32; no other code unit below 256 changes.\<close>

definition js_lower_char :: "char \<Rightarrow> char" where
  "js_lower_char c =
     (let n = (of_char c :: int)
      in if (65 \<le> n \<and> n \<le> 90) \<or> (192 \<le> n \<and> n \<le> 222 \<and> n \<noteq> 215) then char_of (n + 32) else c)"

definition js_to_lower :: "string \<Rightarrow> string" where
  "js_to_lower s = map js_lower_char s"

text \<open>\<open>toUpperCase\<close> on the ASCII strings it is applied to in the source (hexadecimal
  numerals and the texts \<open>nan\<close> and \<open>infinity\<close>).\<close>

definition ascii_upper_char :: "char \<Rightarrow> char" where
  "ascii_upper_char c =
     (let n = (of_char c :: int) in if 97 \<le> n \<and> n \<le> 122 then char_of (n - 32) else c)"

definition ascii_to_upper :: "string \<Rightarrow> string" where
  "ascii_to_upper s = map ascii_upper_char s"

section \<open>Lemmas on digit strings\<close>

lemma digit_char_is_digit [digit_simps]: "0 \<le> d \<Longrightarrow> d < 10 \<Longrightarrow> is_digit (digit_char d)"
  by (simp add: digit_char_def is_digit_def)

lemma digit_val_digit_char [digit_simps]: "0 \<le> d \<Longrightarrow> d < 10 \<Longrightarrow> digit_val (digit_char d) = d"
  by (simp add: digit_char_def digit_val_def)

lemma digit_val_range [digit_simps]: "is_digit c \<Longrightarrow> 0 \<le> digit_val c \<and> digit_val c < 10"
  unfolding is_digit_def digit_val_def by linarith

lemma digit_char_digit_val [digit_simps]: "is_digit c \<Longrightarrow> digit_char (digit_val c) = c"
  by (simp add: is_digit_def digit_val_def digit_char_def)

lemma int_of_digits_Nil [simp]: "int_of_digits [] = 0"
  by (simp add: int_of_digits_def)

lemma int_of_digits_snoc [simp]:
  "int_of_digits (xs @ [c]) = 10 * int_of_digits xs + digit_val c"
  by (simp add: int_of_digits_def)

lemma int_of_digits_append [digit_simps]:
  "int_of_digits (xs @ ys) = int_of_digits xs * 10 ^ length ys + int_of_digits ys"
proof (induction ys rule: rev_induct)
  case Nil
  then show ?case by simp
next
  case (snoc y ys)
  then show ?case by (simp add: algebra_simps flip: append_assoc)
qed

lemma int_of_digits_Cons:
  "int_of_digits (c # xs) = digit_val c * 10 ^ length xs + int_of_digits xs"
  using int_of_digits_append [of "[c]" xs] by (simp add: int_of_digits_def)

lemma all_digits_Nil [simp]: "all_digits []"
  by (simp add: all_digits_def)

lemma int_of_digits_bounds:
  "all_digits ds \<Longrightarrow> 0 \<le> int_of_digits ds \<and> int_of_digits ds < 10 ^ length ds"
proof (induction ds rule: rev_induct)
  case Nil
  then show ?case by simp
next
  case (snoc c ds)
  then have "0 \<le> int_of_digits ds" "int_of_digits ds < 10 ^ length ds"
    and "0 \<le> digit_val c" "digit_val c < 10"
    by (auto simp: all_digits_def digit_val_range)
  then show ?case by simp
qed

lemma int_of_digits_replicate_zero [simp]: "int_of_digits (replicate n (CHR ''0'')) = 0"
  by (induction n) (simp_all add: int_of_digits_Cons digit_val_def)

lemma int_of_digits_zeros_append [digit_simps]:
  "int_of_digits (replicate n (CHR ''0'') @ ds) = int_of_digits ds"
  by (simp add: int_of_digits_append)

lemma digits_of_int_nonempty [simp]: "digits_of_int n \<noteq> []"
  by (subst digits_of_int.simps) simp

lemma digits_of_int_all_digits [digit_simps]: "0 \<le> n \<Longrightarrow> all_digits (digits_of_int n)"
proof (induction n rule: digits_of_int.induct)
  case (1 n)
  then show ?case
    by (subst digits_of_int.simps) (auto simp: all_digits_def digit_char_is_digit)
qed

lemma int_of_digits_of_int [simp]: "0 \<le> n \<Longrightarrow> int_of_digits (digits_of_int n) = n"
proof (induction n rule: digits_of_int.induct)
  case (1 n)
  show ?case
  proof (cases "n < 10")
    case True
    with "1.prems" show ?thesis
      by (subst digits_of_int.simps) (simp add: int_of_digits_def digit_val_digit_char)
  next
    case False
    with "1" have "int_of_digits (digits_of_int (n div 10)) = n div 10" by simp
    with False show ?thesis
      by (subst digits_of_int.simps) (simp add: digit_val_digit_char)
  qed
qed

lemma digits_of_int_hd: "0 < n \<Longrightarrow> hd (digits_of_int n) \<noteq> CHR ''0''"
proof (induction n rule: digits_of_int.induct)
  case (1 n)
  show ?case
  proof (cases "n < 10")
    case True
    have "digit_char n \<noteq> CHR ''0''"
    proof
      assume "digit_char n = CHR ''0''"
      then have "digit_val (digit_char n) = 0" by (simp add: digit_val_def)
      with True "1.prems" show False by (simp add: digit_val_digit_char)
    qed
    with True show ?thesis
      by (subst digits_of_int.simps) simp
  next
    case False
    then have "0 < n div 10" by simp
    with "1.IH" False show ?thesis
      by (subst digits_of_int.simps) simp
  qed
qed

lemma ilog_nonneg: "0 \<le> ilog b n"
  by (induction b n rule: ilog.induct) (subst ilog.simps, simp)

lemma ilog_bounds:
  "1 < b \<Longrightarrow> 0 < n \<Longrightarrow> b ^ nat (ilog b n) \<le> n \<and> n < b ^ (nat (ilog b n) + 1)"
proof (induction b n rule: ilog.induct)
  case (1 b n)
  show ?case
  proof (cases "b \<le> n")
    case False
    then have "ilog b n = 0" by (subst ilog.simps) simp
    with False "1.prems" show ?thesis by simp
  next
    case True
    with "1.prems" have pos: "0 < n div b" by (simp add: pos_imp_zdiv_pos_iff)
    with "1.IH" True "1.prems"
    have IH: "b ^ nat (ilog b (n div b)) \<le> n div b \<and> n div b < b ^ (nat (ilog b (n div b)) + 1)"
      by simp
    have eq: "nat (ilog b n) = nat (ilog b (n div b)) + 1"
      using True "1.prems" ilog_nonneg [of b "n div b"] by (subst ilog.simps) simp
    have lo: "b ^ (nat (ilog b (n div b)) + 1) \<le> n"
    proof -
      have "b * b ^ nat (ilog b (n div b)) \<le> b * (n div b)"
        using IH "1.prems" by simp
      also have "\<dots> = n - n mod b"
        by (simp add: minus_mod_eq_mult_div)
      also have "\<dots> \<le> n"
        using "1.prems" by (simp add: pos_mod_sign)
      finally show ?thesis by (simp add: mult.commute)
    qed
    have hi: "n < b ^ (nat (ilog b (n div b)) + 1 + 1)"
    proof -
      have "n div b + 1 \<le> b ^ (nat (ilog b (n div b)) + 1)"
        using IH by simp
      then have "b * (n div b + 1) \<le> b * b ^ (nat (ilog b (n div b)) + 1)"
        using "1.prems" by simp
      moreover have "n < b * (n div b + 1)"
      proof -
        have "b * (n div b) + n mod b = n" by (rule mult_div_mod_eq)
        moreover have "n mod b < b" using "1.prems" by simp
        ultimately have "n < b * (n div b) + b" by linarith
        then show ?thesis by (simp add: distrib_left)
      qed
      ultimately show ?thesis by simp
    qed
    from lo hi eq show ?thesis by simp
  qed
qed

lemma length_digits_of_int: "0 \<le> n \<Longrightarrow> length (digits_of_int n) = nat (ilog 10 n) + 1"
proof (induction n rule: digits_of_int.induct)
  case (1 n)
  show ?case
  proof (cases "n < 10")
    case True
    then show ?thesis
      by (subst digits_of_int.simps, subst ilog.simps) simp
  next
    case False
    with "1" have "length (digits_of_int (n div 10)) = nat (ilog 10 (n div 10)) + 1"
      by simp
    moreover have "nat (ilog 10 n) = nat (ilog 10 (n div 10)) + 1"
      using False ilog_nonneg [of 10 "n div 10"] by (subst ilog.simps) simp
    ultimately show ?thesis using False
      by (subst digits_of_int.simps) simp
  qed
qed

section \<open>Hexadecimal digits and trimming\<close>

lemma hex_val_range [digit_simps]:
  "is_hex_lc c \<or> is_hex_uc c \<Longrightarrow> 0 \<le> hex_val c \<and> hex_val c < 16"
  by (auto simp: hex_val_def is_hex_lc_def is_hex_uc_def is_digit_def digit_val_def)

lemma int_of_hex_snoc [simp]: "int_of_hex (xs @ [c]) = 16 * int_of_hex xs + hex_val c"
  by (simp add: int_of_hex_def)

lemma int_of_hex_bounds:
  "list_all (\<lambda>c. is_hex_lc c \<or> is_hex_uc c) ds \<Longrightarrow> 0 \<le> int_of_hex ds \<and> int_of_hex ds < 16 ^ length ds"
proof (induction ds rule: rev_induct)
  case Nil
  then show ?case by (simp add: int_of_hex_def)
next
  case (snoc c ds)
  then have "0 \<le> int_of_hex ds" "int_of_hex ds < 16 ^ length ds" "0 \<le> hex_val c" "hex_val c < 16"
    using hex_val_range [of c] by auto
  then show ?case by simp
qed

lemma dropWhile_none: "\<forall>c\<in>set w. \<not> P c \<Longrightarrow> dropWhile P w = w"
  by (induction w) auto

lemma takeWhile_none: "w \<noteq> [] \<Longrightarrow> \<not> P (hd w) \<Longrightarrow> takeWhile P w = []"
  by (cases w) auto

lemma hex_char_is_hex_lc: "0 \<le> d \<Longrightarrow> d < 16 \<Longrightarrow> is_hex_lc (hex_char d)"
  by (auto simp: hex_char_def is_hex_lc_def is_digit_def)

lemma hex_val_hex_char: "0 \<le> d \<Longrightarrow> d < 16 \<Longrightarrow> hex_val (hex_char d) = d"
  by (auto simp: hex_char_def hex_val_def is_digit_def digit_val_def)

lemma hex_of_int_is_hex_lc: "0 \<le> n \<Longrightarrow> list_all is_hex_lc (hex_of_int n)"
proof (induction n rule: hex_of_int.induct)
  case (1 n)
  then show ?case
    by (subst hex_of_int.simps) (auto simp: hex_char_is_hex_lc)
qed

lemma int_of_hex_of_int: "0 \<le> n \<Longrightarrow> int_of_hex (hex_of_int n) = n"
proof (induction n rule: hex_of_int.induct)
  case (1 n)
  show ?case
  proof (cases "n < 16")
    case True
    with "1.prems" show ?thesis
      by (subst hex_of_int.simps) (simp add: int_of_hex_def hex_val_hex_char)
  next
    case False
    with "1" have "int_of_hex (hex_of_int (n div 16)) = n div 16" by simp
    with False show ?thesis
      by (subst hex_of_int.simps) (simp add: hex_val_hex_char)
  qed
qed

lemma hex_of_int_small: "m < 16 \<Longrightarrow> hex_of_int m = [hex_char m]"
  by (subst hex_of_int.simps) simp

lemma length_hex_of_int: "0 \<le> n \<Longrightarrow> n < 256 \<Longrightarrow> 1 \<le> length (hex_of_int n) \<and> length (hex_of_int n) \<le> 2"
proof (cases "n < 16")
  case False
  assume "n < 256"
  then have "n div 16 < 16" by simp
  have "hex_of_int n = hex_of_int (n div 16) @ [hex_char (n mod 16)]"
    by (subst hex_of_int.simps) (simp add: False)
  with \<open>n div 16 < 16\<close> show ?thesis by (simp add: hex_of_int_small)
qed (simp add: hex_of_int_small)

lemma int_of_hex_append:
  "int_of_hex (xs @ ys) = int_of_hex xs * 16 ^ length ys + int_of_hex ys"
proof (induction ys rule: rev_induct)
  case Nil
  then show ?case by (simp add: int_of_hex_def)
next
  case (snoc y ys)
  then show ?case by (simp add: algebra_simps flip: append_assoc)
qed

lemma int_of_hex_Cons_zero: "int_of_hex (CHR ''0'' # h) = int_of_hex h"
  using int_of_hex_append [of "[CHR ''0'']" h]
  by (simp add: int_of_hex_def hex_val_def is_digit_def digit_val_def)

lemma js_lower_char_hex_lc: "is_hex_lc c \<Longrightarrow> js_lower_char c = c"
  unfolding js_lower_char_def is_hex_lc_def is_digit_def Let_def by auto

lemma js_to_lower_hex_lc: "list_all is_hex_lc h \<Longrightarrow> js_to_lower h = h"
  unfolding js_to_lower_def by (induction h) (simp_all add: js_lower_char_hex_lc)


text \<open>Two lower-case hexadecimal digits are determined by their value.\<close>

lemma hex_char_hex_val: "is_hex_lc c \<Longrightarrow> hex_char (hex_val c) = c"
  by (auto simp: hex_char_def hex_val_def is_hex_lc_def is_digit_def digit_val_def)

lemma hex_pair_inj:
  assumes "list_all is_hex_lc [x1, x2]" "list_all is_hex_lc [y1, y2]"
    and "int_of_hex [x1, x2] = int_of_hex [y1, y2]"
  shows "[x1, x2] = [y1, y2]"
proof -
  have r: "0 \<le> hex_val z \<and> hex_val z < 16" if "is_hex_lc z" for z
    using hex_val_range that by blast
  from assms have "16 * hex_val x1 + hex_val x2 = 16 * hex_val y1 + hex_val y2"
    by (simp add: int_of_hex_def)
  moreover have "0 \<le> hex_val x1 \<and> hex_val x1 < 16" "0 \<le> hex_val x2 \<and> hex_val x2 < 16"
    "0 \<le> hex_val y1 \<and> hex_val y1 < 16" "0 \<le> hex_val y2 \<and> hex_val y2 < 16"
    using r assms(1,2) by simp_all
  moreover have dm: "(16 * p + q) div 16 = p" "(16 * p + q) mod 16 = q" if "0 \<le> q" "q < 16" for p q :: int
    using that by simp_all
  ultimately have "hex_val x1 = hex_val y1 \<and> hex_val x2 = hex_val y2" by metis
  then have "hex_char (hex_val x1) = hex_char (hex_val y1)" "hex_char (hex_val x2) = hex_char (hex_val y2)"
    by simp_all
  with assms(1,2) show ?thesis by (simp add: hex_char_hex_val)
qed


text \<open>On ASCII text, \<open>toUpperCase\<close> after \<open>toLowerCase\<close> is \<open>toUpperCase\<close>.\<close>

lemma is_hex_lc_ascii: "is_hex_lc c \<Longrightarrow> (of_char c :: int) < 128"
  by (auto simp: is_hex_lc_def is_digit_def)

lemma ascii_upper_js_lower: "(of_char c :: int) < 128 \<Longrightarrow> ascii_upper_char (js_lower_char c) = ascii_upper_char c"
  by (auto simp: ascii_upper_char_def js_lower_char_def Let_def of_char_of)

lemma ascii_to_upper_js_to_lower:
  "list_all (\<lambda>c. (of_char c :: int) < 128) s \<Longrightarrow> ascii_to_upper (js_to_lower s) = ascii_to_upper s"
  by (induction s) (simp_all add: ascii_to_upper_def js_to_lower_def ascii_upper_js_lower)

lemma ascii_to_upper_append [simp]: "ascii_to_upper (xs @ ys) = ascii_to_upper xs @ ascii_to_upper ys"
  by (simp add: ascii_to_upper_def)

lemma ascii_to_upper_concat: "ascii_to_upper (concat xss) = concat (map ascii_to_upper xss)"
  by (induction xss) (simp_all add: ascii_to_upper_def)

end
