(* ===== verification/Regex.thy ===== *)
theory Regex
  imports Colorful_Prelude
begin

text \<open>
  The regular expressions of colorful.js are built as strings and compiled with
  \<open>new RegExp\<close>; the library then calls \<open>String.prototype.match\<close> and
  \<open>String.prototype.replace\<close> on them.  This theory models that part of the
  platform: an abstract syntax for the constructs the library uses (character
  classes and literal characters, concatenation, disjunction, greedy quantifiers
  \<open>{min,max}\<close>, capturing groups, the anchors \<open>^\<close> and \<open>$\<close>) and the backtracking
  semantics of ECMA-262 (22.2.2, RegExpBuiltinExec).  The matcher returns all
  ways of matching a prefix, in the order the backtracking search of the standard
  tries them, so that the first one is the match the standard selects.
  Groups are numbered by the position of their opening parenthesis, which is the
  order of a left-to-right traversal of the syntax: the matcher carries the
  number of groups opened before the current node.
\<close>

datatype rx =
    RChar "char \<Rightarrow> bool"          \<comment> \<open>a character class or a literal character\<close>
  | RSeq rx rx                    \<comment> \<open>concatenation\<close>
  | RAlt rx rx                    \<comment> \<open>disjunction \<open>a|b\<close>\<close>
  | RRep rx nat "nat option"      \<comment> \<open>greedy quantifier \<open>{min,max}\<close>; \<open>None\<close> is no maximum\<close>
  | RCap rx                       \<comment> \<open>capturing group \<open>( ... )\<close>\<close>
  | REmpty                        \<comment> \<open>the empty pattern\<close>
  | RBol                          \<comment> \<open>\<open>^\<close>\<close>
  | REol                          \<comment> \<open>\<open>$\<close>\<close>

type_synonym caps = "nat \<Rightarrow> string option"

fun ngroups :: "rx \<Rightarrow> nat" where
  "ngroups (RSeq r1 r2) = ngroups r1 + ngroups r2"
| "ngroups (RAlt r1 r2) = ngroups r1 + ngroups r2"
| "ngroups (RRep r _ _) = ngroups r"
| "ngroups (RCap r) = Suc (ngroups r)"
| "ngroups _ = 0"

fun rx_size :: "rx \<Rightarrow> nat" where
  "rx_size (RSeq r1 r2) = Suc (rx_size r1 + rx_size r2)"
| "rx_size (RAlt r1 r2) = Suc (rx_size r1 + rx_size r2)"
| "rx_size (RRep r _ _) = Suc (rx_size r)"
| "rx_size (RCap r) = Suc (rx_size r)"
| "rx_size _ = 0"

fun rep_min :: "rx \<Rightarrow> nat" where
  "rep_min (RRep _ n _) = n"
| "rep_min _ = 0"

text \<open>A quantifier \<open>{n,m}\<close> with \<open>m < n\<close> is a SyntaxError of the pattern
  (ECMA-262 22.2.1.1); the patterns the library compiles are well formed.\<close>

fun rx_wf :: "rx \<Rightarrow> bool" where
  "rx_wf (RSeq r1 r2) = (rx_wf r1 \<and> rx_wf r2)"
| "rx_wf (RAlt r1 r2) = (rx_wf r1 \<and> rx_wf r2)"
| "rx_wf (RRep r mn mx) = (rx_wf r \<and> (case mx of None \<Rightarrow> True | Some k \<Rightarrow> mn \<le> k))"
| "rx_wf (RCap r) = rx_wf r"
| "rx_wf _ = True"

text \<open>RepeatMatcher step 4: the groups inside a quantified atom are reset to
  \<open>undefined\<close> before each iteration.\<close>

definition clear_caps :: "nat \<Rightarrow> nat \<Rightarrow> caps \<Rightarrow> caps" where
  "clear_caps g n c = (\<lambda>k. if g < k \<and> k \<le> g + n then None else c k)"

text \<open>\<open>mt r g i s c\<close>: the ways of matching \<open>r\<close> against a prefix of \<open>s\<close>, where \<open>i\<close>
  is the index of \<open>s\<close> in the whole input, \<open>g\<close> the number of groups opened
  before \<open>r\<close> and \<open>c\<close> the captures so far; each result is the index after the
  match, the rest of the input and the captures.  A quantifier follows
  RepeatMatcher: with a maximum of 0 it matches the empty string; otherwise it
  tries one more iteration first (greedy), rejects an iteration that matched the
  empty string once the minimum is reached, and falls back to stopping only when
  the minimum is reached.  The results are suffixes of the input (\<open>mt_suffix\<close>),
  so the length test in the iteration only records that for the termination
  proof.\<close>

function mt :: "rx \<Rightarrow> nat \<Rightarrow> nat \<Rightarrow> string \<Rightarrow> caps \<Rightarrow> (nat \<times> string \<times> caps) list" where
  "mt (RChar P) g i s c = (case s of [] \<Rightarrow> [] | x # xs \<Rightarrow> if P x then [(Suc i, xs, c)] else [])"
| "mt (RSeq r1 r2) g i s c =
     concat (map (\<lambda>(j, t, d). mt r2 (g + ngroups r1) j t d) (mt r1 g i s c))"
| "mt (RAlt r1 r2) g i s c = mt r1 g i s c @ mt r2 (g + ngroups r1) i s c"
| "mt (RRep r mn mx) g i s c =
     (if mx = Some 0 then [(i, s, c)]
      else concat (map (\<lambda>(j, t, d).
                if (mn = 0 \<and> length t = length s) \<or> length s < length t then []
                else mt (RRep r (mn - 1) (map_option (\<lambda>k. k - 1) mx)) g j t d)
             (mt r g i s (clear_caps g (ngroups r) c)))
           @ (if mn = 0 then [(i, s, c)] else []))"
| "mt (RCap r) g i s c =
     map (\<lambda>(j, t, d). (j, t, d(Suc g := Some (take (length s - length t) s)))) (mt r (Suc g) i s c)"
| "mt REmpty g i s c = [(i, s, c)]"
| "mt RBol g i s c = (if i = 0 then [(i, s, c)] else [])"
| "mt REol g i s c = (if s = [] then [(i, s, c)] else [])"
  by pat_completeness auto
termination
  by (relation "measures [\<lambda>(r, g, i, s, c). rx_size r, \<lambda>(r, g, i, s, c). length s,
                          \<lambda>(r, g, i, s, c). rep_min r]") auto

text \<open>The quantifier equation unfolds into itself; it is used by explicit
  substitution.\<close>

declare mt.simps(4) [simp del]

text \<open>RegExpBuiltinExec for a pattern without the global and sticky flags: try
  the matcher at index 0, 1, \dots, up to the length of the input; the first
  success gives the match (its start, the matched text \<open>matches[0]\<close> and the
  captures).\<close>

fun exec_at :: "rx \<Rightarrow> nat \<Rightarrow> string \<Rightarrow> (nat \<times> string \<times> caps) option" where
  "exec_at r i s =
     (case mt r 0 i s (\<lambda>_. None) of
        (j, t, c) # _ \<Rightarrow> Some (i, take (j - i) s, c)
      | [] \<Rightarrow> (case s of [] \<Rightarrow> None | _ # s' \<Rightarrow> exec_at r (Suc i) s'))"

definition rx_exec :: "rx \<Rightarrow> string \<Rightarrow> (nat \<times> string \<times> caps) option" where
  "rx_exec r s = exec_at r 0 s"

section \<open>Building patterns\<close>

definition rx_chr :: "char \<Rightarrow> rx" where
  "rx_chr c = RChar (\<lambda>x. x = c)"

fun rx_str :: "string \<Rightarrow> rx" where
  "rx_str [] = REmpty"
| "rx_str [c] = rx_chr c"
| "rx_str (c # cs) = RSeq (rx_chr c) (rx_str cs)"

fun rx_seq :: "rx list \<Rightarrow> rx" where
  "rx_seq [] = REmpty"
| "rx_seq [r] = r"
| "rx_seq (r # rs) = RSeq r (rx_seq rs)"

text \<open>\<open>Array.prototype.join\<close> on pattern strings: the parts with the separator
  between consecutive ones.\<close>

fun rx_join :: "rx \<Rightarrow> rx list \<Rightarrow> rx" where
  "rx_join sep [] = REmpty"
| "rx_join sep [r] = r"
| "rx_join sep (r # rs) = RSeq r (RSeq sep (rx_join sep rs))"

fun rx_alts :: "rx list \<Rightarrow> rx" where
  "rx_alts [] = REmpty"
| "rx_alts [r] = r"
| "rx_alts (r # rs) = RAlt r (rx_alts rs)"

abbreviation rx_star :: "rx \<Rightarrow> rx" where "rx_star r \<equiv> RRep r 0 None"
abbreviation rx_plus :: "rx \<Rightarrow> rx" where "rx_plus r \<equiv> RRep r 1 None"
abbreviation rx_opt :: "rx \<Rightarrow> rx" where "rx_opt r \<equiv> RRep r 0 (Some 1)"

text \<open>A bracketed range \<open>[lo-hi]\<close>.\<close>

definition rx_range :: "char \<Rightarrow> char \<Rightarrow> rx" where
  "rx_range lo hi = RChar (\<lambda>c. (of_char lo :: int) \<le> of_char c \<and> (of_char c :: int) \<le> of_char hi)"

definition rx_space :: rx where
  "rx_space = RChar is_js_space"

definition rx_digit :: rx where
  "rx_digit = RChar is_digit"

section \<open>Languages\<close>

text \<open>The strings a pattern can match, ignoring the anchors (which match the empty
  string where they match at all).\<close>

fun lang :: "rx \<Rightarrow> string set" where
  "lang (RChar P) = {[x] | x. P x}"
| "lang (RSeq r1 r2) = {u @ v | u v. u \<in> lang r1 \<and> v \<in> lang r2}"
| "lang (RAlt r1 r2) = lang r1 \<union> lang r2"
| "lang (RRep r mn mx) =
     {concat ws | ws. mn \<le> length ws \<and> (case mx of None \<Rightarrow> True | Some k \<Rightarrow> length ws \<le> k)
                     \<and> set ws \<subseteq> lang r}"
| "lang (RCap r) = lang r"
| "lang REmpty = {[]}"
| "lang RBol = {[]}"
| "lang REol = {[]}"

text \<open>The body of group number \<open>n\<close> in \<open>r\<close>, whose groups are numbered after \<open>g\<close>.\<close>

fun cap_body :: "rx \<Rightarrow> nat \<Rightarrow> nat \<Rightarrow> rx option" where
  "cap_body (RCap r) g n = (if n = Suc g then Some r else cap_body r (Suc g) n)"
| "cap_body (RSeq r1 r2) g n =
     (case cap_body r1 g n of Some b \<Rightarrow> Some b | None \<Rightarrow> cap_body r2 (g + ngroups r1) n)"
| "cap_body (RAlt r1 r2) g n =
     (case cap_body r1 g n of Some b \<Rightarrow> Some b | None \<Rightarrow> cap_body r2 (g + ngroups r1) n)"
| "cap_body (RRep r _ _) g n = cap_body r g n"
| "cap_body _ g n = None"

text \<open>Group \<open>n\<close> is set by every match of \<open>r\<close>: it lies on a path of
  concatenations only.\<close>

fun must_cap :: "rx \<Rightarrow> nat \<Rightarrow> nat \<Rightarrow> bool" where
  "must_cap (RCap r) g n = (n = Suc g \<or> must_cap r (Suc g) n)"
| "must_cap (RSeq r1 r2) g n = (must_cap r1 g n \<or> must_cap r2 (g + ngroups r1) n)"
| "must_cap _ g n = False"

text \<open>No \<open>^\<close> or \<open>$\<close> inside: the anchors match by position, which \<open>lang\<close>
  does not record.\<close>

fun no_anchor :: "rx \<Rightarrow> bool" where
  "no_anchor (RSeq r1 r2) = (no_anchor r1 \<and> no_anchor r2)"
| "no_anchor (RAlt r1 r2) = (no_anchor r1 \<and> no_anchor r2)"
| "no_anchor (RRep r _ _) = no_anchor r"
| "no_anchor (RCap r) = no_anchor r"
| "no_anchor RBol = False"
| "no_anchor REol = False"
| "no_anchor _ = True"

section \<open>Soundness of the matcher\<close>

lemma rep_langI:
  assumes "w = concat ws" "mn \<le> length ws"
    "case mx of None \<Rightarrow> True | Some k \<Rightarrow> length ws \<le> k" "set ws \<subseteq> lang r"
  shows "w \<in> lang (RRep r mn mx)"
  using assms by (simp only: lang.simps) blast

lemma nil_in_lang_rep: "mn = 0 \<Longrightarrow> [] \<in> lang (RRep r mn mx)"
  by (rule rep_langI [of _ "[]"]) (simp_all split: option.split)

lemma mt_suffix:
  "(j, t, d) \<in> set (mt r g i s c) \<Longrightarrow> rx_wf r \<Longrightarrow>
   \<exists>u. s = u @ t \<and> j = i + length u \<and> u \<in> lang r"
proof (induction r g i s c arbitrary: j t d rule: mt.induct)
  case (1 P g i s c)
  then show ?case by (auto split: list.splits if_splits)
next
  case (2 r1 r2 g i s c)
  then obtain j1 t1 d1 where m1: "(j1, t1, d1) \<in> set (mt r1 g i s c)"
    and m2: "(j, t, d) \<in> set (mt r2 (g + ngroups r1) j1 t1 d1)"
    by auto
  have wf: "rx_wf r1" "rx_wf r2" using "2.prems"(2) by simp_all
  from "2.IH"(1) [OF m1 wf(1)] obtain u1 where
    u1: "s = u1 @ t1" "j1 = i + length u1" "u1 \<in> lang r1"
    by blast
  from "2.IH"(2) [OF m1 refl refl m2 wf(2)] obtain u2 where
    u2: "t1 = u2 @ t" "j = j1 + length u2" "u2 \<in> lang r2"
    by blast
  have "u1 @ u2 \<in> lang (RSeq r1 r2)" using u1(3) u2(3) by auto
  with u1 u2 show ?case by (intro exI [of _ "u1 @ u2"]) simp
next
  case (3 r1 r2 g i s c)
  have wf: "rx_wf r1" "rx_wf r2" using "3.prems"(2) by simp_all
  from "3.prems"(1) consider "(j, t, d) \<in> set (mt r1 g i s c)"
    | "(j, t, d) \<in> set (mt r2 (g + ngroups r1) i s c)"
    by auto
  then show ?case
  proof cases
    case 1
    from "3.IH"(1) [OF this wf(1)] show ?thesis by auto
  next
    case 2
    from "3.IH"(2) [OF this wf(2)] show ?thesis by auto
  qed
next
  case (4 r mn mx g i s c)
  have wf: "rx_wf r" "case mx of None \<Rightarrow> True | Some k \<Rightarrow> mn \<le> k"
    using "4.prems"(2) by simp_all
  show ?case
  proof (cases "mx = Some 0")
    case True
    with wf(2) have "mn = 0" by simp
    with True "4.prems"(1) nil_in_lang_rep [of mn r mx] show ?thesis
      by (intro exI [of _ "[]"]) (simp add: mt.simps(4) del: lang.simps)
  next
    case False
    from "4.prems"(1) False consider
        (stop) "mn = 0" "j = i" "t = s" "d = c"
      | (step) j1 t1 d1 where "(j1, t1, d1) \<in> set (mt r g i s (clear_caps g (ngroups r) c))"
          "\<not> ((mn = 0 \<and> length t1 = length s) \<or> length s < length t1)"
          "(j, t, d) \<in> set (mt (RRep r (mn - 1) (map_option (\<lambda>k. k - 1) mx)) g j1 t1 d1)"
      by (subst (asm) mt.simps(4)) (auto split: if_splits)
    then show ?thesis
    proof cases
      case stop
      with nil_in_lang_rep [of mn r mx] show ?thesis
        by (intro exI [of _ "[]"]) (simp del: lang.simps)
    next
      case step
      have wf': "rx_wf (RRep r (mn - 1) (map_option (\<lambda>k. k - 1) mx))"
        using wf by (cases mx) auto
      from "4.IH"(1) [OF False step(1) wf(1)] obtain u1 where
        u1: "s = u1 @ t1" "j1 = i + length u1" "u1 \<in> lang r"
        by blast
      from "4.IH"(2) [OF False step(1) refl refl step(2) step(3) wf'] obtain u2 where
        u2: "t1 = u2 @ t" "j = j1 + length u2"
            "u2 \<in> lang (RRep r (mn - 1) (map_option (\<lambda>k. k - 1) mx))"
        by blast
      then obtain ws where ws: "u2 = concat ws" "mn - 1 \<le> length ws"
        "case map_option (\<lambda>k. k - 1) mx of None \<Rightarrow> True | Some k \<Rightarrow> length ws \<le> k"
        "set ws \<subseteq> lang r"
        by auto
      have "u1 @ u2 \<in> lang (RRep r mn mx)"
      proof (rule rep_langI [of _ "u1 # ws"])
        show "mn \<le> length (u1 # ws)" using ws(2) by simp
        show "case mx of None \<Rightarrow> True | Some k \<Rightarrow> length (u1 # ws) \<le> k"
          using ws(3) False by (cases mx) auto
        show "set (u1 # ws) \<subseteq> lang r" using ws(4) u1(3) by simp
      qed (simp add: ws(1))
      with u1 u2 show ?thesis by (intro exI [of _ "u1 @ u2"]) simp
    qed
  qed
next
  case (5 r g i s c)
  then obtain d' where "(j, t, d') \<in> set (mt r (Suc g) i s c)" by auto
  from "5.IH" [OF this] "5.prems"(2) show ?case by simp
next
  case (6 g i s c)
  then show ?case by simp
next
  case (7 g i s c)
  then show ?case by (simp split: if_splits)
next
  case (8 g i s c)
  then show ?case by (simp split: if_splits)
qed

lemma cap_body_outside:
  "n \<le> g \<or> g + ngroups r < n \<Longrightarrow> cap_body r g n = None"
  by (induction r g n rule: cap_body.induct) (auto split: option.split)

lemma must_cap_range:
  "must_cap r g n \<Longrightarrow> g < n \<and> n \<le> g + ngroups r"
  by (induction r g n rule: must_cap.induct) auto

lemma cap_body_no_groups [simp]: "ngroups r = 0 \<Longrightarrow> cap_body r g n = None"
  using cap_body_outside [of n g r] by linarith

lemma must_cap_no_groups [simp]: "ngroups r = 0 \<Longrightarrow> \<not> must_cap r g n"
  using must_cap_range [of r g n] by linarith

text \<open>A match changes only the groups of the pattern.\<close>

lemma mt_frame:
  "(j, t, d) \<in> set (mt r g i s c) \<Longrightarrow> n \<le> g \<or> g + ngroups r < n \<Longrightarrow> d n = c n"
proof (induction r g i s c arbitrary: j t d rule: mt.induct)
  case (2 r1 r2 g i s c)
  then obtain j1 t1 d1 where m1: "(j1, t1, d1) \<in> set (mt r1 g i s c)"
    and m2: "(j, t, d) \<in> set (mt r2 (g + ngroups r1) j1 t1 d1)"
    by auto
  show ?case
    using "2.IH"(1) [OF m1] "2.IH"(2) [OF m1 refl refl m2] "2.prems"(2) by auto
next
  case (4 r mn mx g i s c)
  show ?case
  proof (cases "mx = Some 0")
    case True
    with "4.prems"(1) show ?thesis by (simp add: mt.simps(4))
  next
    case False
    from "4.prems"(1) False consider
        "d = c"
      | j1 t1 d1 where "(j1, t1, d1) \<in> set (mt r g i s (clear_caps g (ngroups r) c))"
          "\<not> ((mn = 0 \<and> length t1 = length s) \<or> length s < length t1)"
          "(j, t, d) \<in> set (mt (RRep r (mn - 1) (map_option (\<lambda>k. k - 1) mx)) g j1 t1 d1)"
      by (subst (asm) mt.simps(4)) (auto split: if_splits)
    then show ?thesis
    proof cases
      case (2 j1 t1 d1)
      from "4.IH"(1) [OF False 2(1)] "4.IH"(2) [OF False 2(1) refl refl 2(2) 2(3)] "4.prems"(2)
      show ?thesis by (auto simp: clear_caps_def)
    qed simp
  qed
qed (auto split: list.splits if_splits)

text \<open>A group a match sets holds a string of the language of its body.\<close>

lemma mt_cap_lang:
  "(j, t, d) \<in> set (mt r g i s c) \<Longrightarrow> rx_wf r \<Longrightarrow> d n = Some w \<Longrightarrow> d n \<noteq> c n \<Longrightarrow>
   \<exists>b. cap_body r g n = Some b \<and> w \<in> lang b"
proof (induction r g i s c arbitrary: j t d rule: mt.induct)
  case (2 r1 r2 g i s c)
  then obtain j1 t1 d1 where m1: "(j1, t1, d1) \<in> set (mt r1 g i s c)"
    and m2: "(j, t, d) \<in> set (mt r2 (g + ngroups r1) j1 t1 d1)"
    by auto
  have wf: "rx_wf r1" "rx_wf r2" using "2.prems"(2) by simp_all
  show ?case
  proof (cases "d n = d1 n")
    case True
    from "2.IH"(1) [OF m1 wf(1)] True "2.prems"(3,4) show ?thesis by auto
  next
    case False
    from "2.IH"(2) [OF m1 refl refl m2 wf(2) "2.prems"(3) False] obtain b where
      "cap_body r2 (g + ngroups r1) n = Some b" "w \<in> lang b"
      by blast
    moreover have "cap_body r1 g n = None"
      using mt_frame [OF m2, of n] False by (auto intro: cap_body_outside)
    ultimately show ?thesis by simp
  qed
next
  case (3 r1 r2 g i s c)
  have wf: "rx_wf r1" "rx_wf r2" using "3.prems"(2) by simp_all
  from "3.prems"(1) consider "(j, t, d) \<in> set (mt r1 g i s c)"
    | "(j, t, d) \<in> set (mt r2 (g + ngroups r1) i s c)"
    by auto
  then show ?case
  proof cases
    case 1
    from "3.IH"(1) [OF this wf(1) "3.prems"(3,4)] show ?thesis by auto
  next
    case 2
    from "3.IH"(2) [OF this wf(2) "3.prems"(3,4)] obtain b where
      "cap_body r2 (g + ngroups r1) n = Some b" "w \<in> lang b"
      by blast
    moreover have "cap_body r1 g n = None"
      using mt_frame [OF 2, of n] "3.prems"(4) by (auto intro: cap_body_outside)
    ultimately show ?thesis by simp
  qed
next
  case (4 r mn mx g i s c)
  have wf: "rx_wf r" "case mx of None \<Rightarrow> True | Some k \<Rightarrow> mn \<le> k"
    using "4.prems"(2) by simp_all
  show ?case
  proof (cases "mx = Some 0")
    case True
    with "4.prems"(1,4) show ?thesis by (simp add: mt.simps(4))
  next
    case False
    from "4.prems"(1,4) False obtain j1 t1 d1 where
      step: "(j1, t1, d1) \<in> set (mt r g i s (clear_caps g (ngroups r) c))"
        "\<not> ((mn = 0 \<and> length t1 = length s) \<or> length s < length t1)"
        "(j, t, d) \<in> set (mt (RRep r (mn - 1) (map_option (\<lambda>k. k - 1) mx)) g j1 t1 d1)"
      by (subst (asm) mt.simps(4)) (auto split: if_splits)
    have wf': "rx_wf (RRep r (mn - 1) (map_option (\<lambda>k. k - 1) mx))"
      using wf by (cases mx) auto
    show ?thesis
    proof (cases "d n = d1 n")
      case True
      have d1: "d1 n = Some w" using True "4.prems"(3) by simp
      have "d1 n \<noteq> clear_caps g (ngroups r) c n"
        using d1 True "4.prems"(4) by (simp add: clear_caps_def)
      from "4.IH"(1) [OF False step(1) wf(1) d1 this] show ?thesis by simp
    next
      case False': False
      from "4.IH"(2) [OF False step(1) refl refl step(2) step(3) wf' "4.prems"(3) False']
      show ?thesis by simp
    qed
  qed
next
  case (5 r g i s c)
  then obtain d' where m: "(j, t, d') \<in> set (mt r (Suc g) i s c)"
    and d: "d = d'(Suc g := Some (take (length s - length t) s))"
    by auto
  show ?case
  proof (cases "n = Suc g")
    case True
    from mt_suffix [OF m] "5.prems"(2) obtain u where "s = u @ t" "u \<in> lang r" by auto
    with True d "5.prems"(3) show ?thesis by simp
  next
    case False
    with "5.IH" [OF m] d "5.prems"(2-4) show ?thesis by simp
  qed
qed (auto split: list.splits if_splits)

text \<open>A group on a path of concatenations is set by every match.\<close>

lemma mt_must_cap:
  "(j, t, d) \<in> set (mt r g i s c) \<Longrightarrow> must_cap r g n \<Longrightarrow> d n \<noteq> None"
proof (induction r g i s c arbitrary: j t d rule: mt.induct)
  case (2 r1 r2 g i s c)
  then obtain j1 t1 d1 where m1: "(j1, t1, d1) \<in> set (mt r1 g i s c)"
    and m2: "(j, t, d) \<in> set (mt r2 (g + ngroups r1) j1 t1 d1)"
    by auto
  from "2.prems"(2) consider "must_cap r1 g n" | "must_cap r2 (g + ngroups r1) n" by auto
  then show ?case
  proof cases
    case 1
    with "2.IH"(1) [OF m1] mt_frame [OF m2, of n] must_cap_range [OF 1] show ?thesis by auto
  next
    case 2
    from "2.IH"(2) [OF m1 refl refl m2 2] show ?thesis .
  qed
next
  case (5 r g i s c)
  then obtain d' where m: "(j, t, d') \<in> set (mt r (Suc g) i s c)"
    and d: "d = d'(Suc g := Some (take (length s - length t) s))"
    by auto
  from "5.IH" [OF m] d "5.prems"(2) show ?case by auto
qed (auto split: list.splits if_splits)

text \<open>The match \<open>exec\<close> returns is a match of the pattern at its start index
  with no group set before.\<close>

lemma exec_at_mt:
  "exec_at r i s = Some (k, m, d) \<Longrightarrow>
   \<exists>j t. i \<le> k \<and> (j, t, d) \<in> set (mt r 0 k (drop (k - i) s) (\<lambda>_. None))"
proof (induction r i s rule: exec_at.induct)
  case (1 r i s)
  show ?case
  proof (cases "mt r 0 i s (\<lambda>_. None)")
    case Nil
    with "1.prems" obtain x s' where s: "s = x # s'" and e: "exec_at r (Suc i) s' = Some (k, m, d)"
      by (auto split: list.splits)
    from "1.IH" [OF Nil s e] obtain j t where "Suc i \<le> k" "(j, t, d) \<in> set (mt r 0 k (drop (k - Suc i) s') (\<lambda>_. None))"
      by blast
    moreover have "k - i = Suc (k - Suc i)"
      using \<open>Suc i \<le> k\<close> by simp
    then have "drop (k - i) s = drop (k - Suc i) s'"
      using s by simp
    ultimately show ?thesis by auto
  next
    case (Cons a rest)
    with "1.prems" show ?thesis by (cases a) auto
  qed
qed

section \<open>Languages of the pattern builders\<close>

lemma lang_chr [simp]: "lang (rx_chr c) = {[c]}"
  by (simp add: rx_chr_def)

lemma lang_str [simp]: "lang (rx_str s) = {s}"
  by (induction s rule: rx_str.induct) auto

lemma concat_singletons:
  "set ws \<subseteq> {[x] | x. P x} \<Longrightarrow> length (concat ws) = length ws \<and> list_all P (concat ws)"
  by (induction ws) auto

text \<open>A quantified character class matches strings of that class whose length
  is within the bounds.\<close>

lemma lang_rep_char:
  assumes "w \<in> lang (RRep (RChar P) mn mx)"
  shows "list_all P w \<and> mn \<le> length w \<and> (case mx of None \<Rightarrow> True | Some k \<Rightarrow> length w \<le> k)"
proof -
  from assms obtain ws where ws: "w = concat ws" "mn \<le> length ws"
    "case mx of None \<Rightarrow> True | Some k \<Rightarrow> length ws \<le> k" "set ws \<subseteq> {[x] | x. P x}"
    by auto
  from concat_singletons [OF ws(4)] ws(1-3) show ?thesis by (simp split: option.splits)
qed

lemma lang_opt: "w \<in> lang (RRep r 0 (Some 1)) \<Longrightarrow> w = [] \<or> w \<in> lang r"
proof -
  assume "w \<in> lang (RRep r 0 (Some 1))"
  then obtain ws where "w = concat ws" "length ws \<le> 1" "set ws \<subseteq> lang r" by auto
  then show ?thesis by (cases ws) auto
qed

lemmas lang_opt_Suc = lang_opt [unfolded One_nat_def]

section \<open>What a match captures\<close>

text \<open>The captures of the match \<open>exec\<close> returns: a group the pattern sets on
  every match is defined and holds a string of its body's language; any group
  that is defined holds such a string.\<close>

lemma rx_exec_cap_some:
  assumes "rx_exec r s = Some (k, m, caps)" "rx_wf r" "caps n = Some w"
  shows "\<exists>b. cap_body r 0 n = Some b \<and> w \<in> lang b"
proof -
  from exec_at_mt [of r 0 s k m caps] assms(1) obtain j t where
    "(j, t, caps) \<in> set (mt r 0 k (drop k s) (\<lambda>_. None))"
    by (auto simp: rx_exec_def)
  from mt_cap_lang [OF this assms(2) assms(3)] assms(3) show ?thesis by simp
qed

lemma rx_exec_cap_must:
  assumes "rx_exec r s = Some (k, m, caps)" "rx_wf r" "must_cap r 0 n" "cap_body r 0 n = Some b"
  shows "\<exists>w. caps n = Some w \<and> w \<in> lang b"
proof -
  from exec_at_mt [of r 0 s k m caps] assms(1) obtain j t where
    m: "(j, t, caps) \<in> set (mt r 0 k (drop k s) (\<lambda>_. None))"
    by (auto simp: rx_exec_def)
  from mt_must_cap [OF m assms(3)] obtain w where w: "caps n = Some w" by auto
  from rx_exec_cap_some [OF assms(1,2) w] assms(4) w show ?thesis by auto
qed

section \<open>Anchored patterns\<close>

lemma mt_seqE:
  assumes "(j, t, d) \<in> set (mt (RSeq r1 r2) g i s c)"
  obtains j1 t1 d1 where "(j1, t1, d1) \<in> set (mt r1 g i s c)"
    "(j, t, d) \<in> set (mt r2 (g + ngroups r1) j1 t1 d1)"
  using assms by auto

lemma mt_bol_first: "(j, t, d) \<in> set (mt (RSeq RBol r) g i s c) \<Longrightarrow> i = 0"
  by (auto split: if_splits)

lemma mt_eol_last:
  "rs \<noteq> [] \<Longrightarrow> last rs = REol \<Longrightarrow> (j, t, d) \<in> set (mt (rx_seq rs) g i s c) \<Longrightarrow> t = []"
proof (induction rs arbitrary: g i s c j t d rule: rx_seq.induct)
  case (3 r r' rs)
  from "3.prems"(3) obtain j1 t1 d1 where
    "(j, t, d) \<in> set (mt (rx_seq (r' # rs)) (g + ngroups r) j1 t1 d1)"
    by (auto elim: mt_seqE)
  with "3.IH" "3.prems"(2) show ?case by simp
qed (auto split: if_splits)

text \<open>The match \<open>exec\<close> returns is a prefix of the input from its start index,
  in the language of the pattern.\<close>

lemma exec_at_match:
  "exec_at r i s = Some (k, m, d) \<Longrightarrow> rx_wf r \<Longrightarrow>
   i \<le> k \<and> m \<in> lang r \<and> (\<exists>j t. (j, t, d) \<in> set (mt r 0 k (drop (k - i) s) (\<lambda>_. None))
                                  \<and> drop (k - i) s = m @ t)"
proof (induction r i s rule: exec_at.induct)
  case (1 r i s)
  show ?case
  proof (cases "mt r 0 i s (\<lambda>_. None)")
    case Nil
    with "1.prems" obtain x s' where s: "s = x # s'" and e: "exec_at r (Suc i) s' = Some (k, m, d)"
      by (auto split: list.splits)
    from "1.IH" [OF Nil s e "1.prems"(2)] have ih: "Suc i \<le> k" "m \<in> lang r"
      "\<exists>j t. (j, t, d) \<in> set (mt r 0 k (drop (k - Suc i) s') (\<lambda>_. None)) \<and> drop (k - Suc i) s' = m @ t"
      by blast+
    moreover have "k - i = Suc (k - Suc i)" using ih(1) by simp
    then have "drop (k - i) s = drop (k - Suc i) s'" using s by simp
    ultimately show ?thesis by auto
  next
    case (Cons a rest)
    obtain j t c where a: "a = (j, t, c)" by (cases a)
    with Cons "1.prems"(1) have k: "k = i" "m = take (j - i) s" "d = c" by auto
    have mem: "(j, t, c) \<in> set (mt r 0 i s (\<lambda>_. None))" using Cons a by simp
    from mt_suffix [OF mem "1.prems"(2)] obtain u where "s = u @ t" "j = i + length u" "u \<in> lang r"
      by blast
    with k mem show ?thesis by auto
  qed
qed


section \<open>Repetitions of a character class\<close>

text \<open>Closed forms of the matcher on the quantified character classes of the
  colour patterns: \<open>{n}\<close> consumes exactly \<open>n\<close> characters of the class, and a
  star yields the suffixes after every prefix of the longest run of the class,
  longest first.\<close>

lemma clear_caps_0 [simp]: "clear_caps g 0 c = c"
  by (auto simp: clear_caps_def fun_eq_iff)

lemma mt_rep_char_exact:
  "mt (RRep (RChar P) n (Some n)) g i s c =
     (if n \<le> length s \<and> list_all P (take n s) then [(i + n, drop n s, c)] else [])"
proof (induction n arbitrary: i s)
  case 0
  then show ?case by (subst mt.simps(4)) simp
next
  case (Suc n)
  then show ?case
    by (subst mt.simps(4)) (cases s; simp)
qed

lemma mt_star_char_Nil: "mt (RRep (RChar P) 0 None) g i [] c = [(i, [], c)]"
  by (subst mt.simps(4)) simp

lemma mt_star_char_Cons:
  "mt (RRep (RChar P) 0 None) g i (x # xs) c =
     (if P x then mt (RRep (RChar P) 0 None) g (Suc i) xs c else []) @ [(i, x # xs, c)]"
  by (subst mt.simps(4)) simp


section \<open>Completeness of the matcher\<close>

text \<open>For a pattern without anchors, every string of its language is matched:
  the matcher has a result that consumes exactly that string, whatever follows.
  With the soundness lemmas this makes the matcher a decision procedure for
  the language.\<close>

lemma mt_seqI:
  "(j1, t1, d1) \<in> set (mt r1 g i s c) \<Longrightarrow> (j, t, d) \<in> set (mt r2 (g + ngroups r1) j1 t1 d1) \<Longrightarrow>
   (j, t, d) \<in> set (mt (RSeq r1 r2) g i s c)"
  by force

lemma in_concat_map: "p \<in> set L \<Longrightarrow> x \<in> set (f p) \<Longrightarrow> x \<in> set (concat (map f L))"
  by auto

text \<open>Iterations of a quantifier, the empty ones among the first \<open>mn\<close>.\<close>

lemma mt_rep_complete:
  assumes IH: "\<And>w g i t c. w \<in> lang r \<Longrightarrow> \<exists>d. (i + length w, t, d) \<in> set (mt r g i (w @ t) c)"
  shows "mn \<le> length ws \<Longrightarrow> (case mx of None \<Rightarrow> True | Some k \<Rightarrow> length ws \<le> k) \<Longrightarrow> set ws \<subseteq> lang r \<Longrightarrow>
         (\<forall>k < length ws. ws ! k = [] \<longrightarrow> k < mn) \<Longrightarrow>
         \<exists>d. (i + length (concat ws), t, d) \<in> set (mt (RRep r mn mx) g i (concat ws @ t) c)"
proof (induction ws arbitrary: mn mx i c)
  case Nil
  then show ?case by (subst mt.simps(4)) auto
next
  case (Cons w ws)
  have mx: "mx \<noteq> Some 0" using Cons.prems(2) by (cases mx) auto
  from IH [where w = w and g = g and i = i and t = "concat ws @ t" and c = "clear_caps g (ngroups r) c"]
    Cons.prems(3)
  obtain d1 where d1: "(i + length w, concat ws @ t, d1)
                         \<in> set (mt r g i (w @ concat ws @ t) (clear_caps g (ngroups r) c))"
    by auto
  have ok: "\<not> ((mn = 0 \<and> length (concat ws @ t) = length (w @ concat ws @ t))
               \<or> length (w @ concat ws @ t) < length (concat ws @ t))"
    using Cons.prems(4) by (cases w) (auto elim: allE [of _ 0])
  have "\<forall>k < length ws. ws ! k = [] \<longrightarrow> k < mn - 1"
  proof (intro allI impI)
    fix k assume "k < length ws" "ws ! k = []"
    moreover from Cons.prems(4) have "Suc k < length (w # ws) \<longrightarrow> (w # ws) ! Suc k = [] \<longrightarrow> Suc k < mn"
      by blast
    ultimately show "k < mn - 1" by simp
  qed
  moreover have "mn - 1 \<le> length ws" using Cons.prems(1) by simp
  moreover have "case map_option (\<lambda>k. k - 1) mx of None \<Rightarrow> True | Some k \<Rightarrow> length ws \<le> k"
    using Cons.prems(2) by (cases mx) auto
  moreover have "set ws \<subseteq> lang r" using Cons.prems(3) by simp
  ultimately obtain d where "(i + length w + length (concat ws), t, d)
                  \<in> set (mt (RRep r (mn - 1) (map_option (\<lambda>k. k - 1) mx)) g (i + length w) (concat ws @ t) d1)"
    using Cons.IH [of "mn - 1" "map_option (\<lambda>k. k - 1) mx" "i + length w" d1] by blast
  then have "(i + length w + length (concat ws), t, d) \<in> set (concat (map
     (\<lambda>(j, t', d'). if (mn = 0 \<and> length t' = length (w @ concat ws @ t)) \<or> length (w @ concat ws @ t) < length t'
                    then [] else mt (RRep r (mn - 1) (map_option (\<lambda>k. k - 1) mx)) g j t' d')
     (mt r g i (w @ concat ws @ t) (clear_caps g (ngroups r) c))))"
    by (intro in_concat_map [OF d1]) (use ok in simp)
  then have "(i + length w + length (concat ws), t, d) \<in> set (mt (RRep r mn mx) g i (w @ concat ws @ t) c)"
    by (subst mt.simps(4), simp only: if_not_P [OF mx] set_append, rule UnI1)
  then show ?case by (intro exI [of _ d]) (simp add: add.assoc)
qed


text \<open>Any iteration list of a quantifier can be replaced by one with the same
  concatenation whose empty iterations all come within the minimum.\<close>

lemma rep_normalize:
  assumes "u \<in> lang (RRep r mn mx)"
  obtains ws where "u = concat ws" "mn \<le> length ws" "case mx of None \<Rightarrow> True | Some k \<Rightarrow> length ws \<le> k"
    "set ws \<subseteq> lang r" "\<forall>k < length ws. ws ! k = [] \<longrightarrow> k < mn"
proof -
  from assms obtain ws0 where ws0: "u = concat ws0" "mn \<le> length ws0"
    "case mx of None \<Rightarrow> True | Some k \<Rightarrow> length ws0 \<le> k" "set ws0 \<subseteq> lang r"
    by auto
  let ?ne = "filter (\<lambda>w. w \<noteq> []) ws0"
  have "concat (filter (\<lambda>w. w \<noteq> []) xs) = concat xs" for xs :: "string list"
    by (induction xs) auto
  then have cne: "concat ?ne = u" using ws0(1) by simp
  have lne: "length ?ne \<le> length ws0" by (rule length_filter_le)
  have nz: "?ne ! k \<noteq> []" if "k < length ?ne" for k
    using nth_mem [OF that] by auto
  show ?thesis
  proof (cases "mn \<le> length ?ne")
    case True
    show ?thesis
    proof (rule that [of ?ne])
      show "case mx of None \<Rightarrow> True | Some k \<Rightarrow> length ?ne \<le> k"
      proof (cases mx)
        case (Some a)
        with ws0(3) have "length ws0 \<le> a" by simp
        then have "length ?ne \<le> a" by (rule order_trans [OF length_filter_le])
        with Some show ?thesis by simp
      qed simp
    qed (use cne True ws0(4) nz in auto)
  next
    case False
    then have "length ?ne < length ws0" using ws0(2) by simp
    then have "[] \<in> set ws0"
    proof (rule contrapos_pp)
      assume "[] \<notin> set ws0"
      then have "?ne = ws0" by (auto simp: filter_id_conv)
      then show "\<not> length ?ne < length ws0" by simp
    qed
    with ws0(4) have nil: "[] \<in> lang r" by auto
    let ?ws = "replicate (mn - length ?ne) [] @ ?ne"
    show ?thesis
    proof (rule that [of ?ws])
      show "u = concat ?ws" using cne by simp
      show "mn \<le> length ?ws" using False by simp
      show "case mx of None \<Rightarrow> True | Some k \<Rightarrow> length ?ws \<le> k"
        using ws0(2,3) False by (cases mx) auto
      show "set ?ws \<subseteq> lang r" using nil ws0(4) by auto
      show "\<forall>k < length ?ws. ?ws ! k = [] \<longrightarrow> k < mn"
      proof (intro allI impI)
        fix k assume k: "k < length ?ws" "?ws ! k = []"
        show "k < mn"
        proof (rule ccontr)
          assume "\<not> k < mn"
          then have "?ws ! k = ?ne ! (k - (mn - length ?ne))" "k - (mn - length ?ne) < length ?ne"
            using False k(1) by (simp_all add: nth_append)
          with nz k(2) show False by simp
        qed
      qed
    qed
  qed
qed

theorem mt_complete:
  "no_anchor r \<Longrightarrow> rx_wf r \<Longrightarrow> u \<in> lang r \<Longrightarrow> \<exists>d. (i + length u, t, d) \<in> set (mt r g i (u @ t) c)"
proof (induction r arbitrary: g i u t c)
  case (RChar P)
  then show ?case by auto
next
  case (RSeq r1 r2)
  from RSeq.prems(3) obtain u1 u2 where u: "u = u1 @ u2" "u1 \<in> lang r1" "u2 \<in> lang r2" by auto
  from RSeq.IH(1) [of u1 i "u2 @ t" g c] RSeq.prems u obtain d1 where
    d1: "(i + length u1, u2 @ t, d1) \<in> set (mt r1 g i (u1 @ u2 @ t) c)" by auto
  from RSeq.IH(2) [of u2 "i + length u1" t "g + ngroups r1" d1] RSeq.prems u obtain d where
    "(i + length u1 + length u2, t, d) \<in> set (mt r2 (g + ngroups r1) (i + length u1) (u2 @ t) d1)" by auto
  from mt_seqI [OF d1 this]
  have "(i + length u1 + length u2, t, d) \<in> set (mt (RSeq r1 r2) g i (u1 @ u2 @ t) c)" .
  then show ?case unfolding u
    by (intro exI [of _ d]) (simp only: length_append add.assoc append_assoc)
next
  case (RAlt r1 r2)
  then show ?case by (fastforce simp del: mt.simps(4))
next
  case (RRep r mn mx)
  have IH: "\<And>w g i t c. w \<in> lang r \<Longrightarrow> \<exists>d. (i + length w, t, d) \<in> set (mt r g i (w @ t) c)"
    using RRep.IH RRep.prems(1,2) by simp
  from rep_normalize [OF RRep.prems(3)] obtain ws where
    "u = concat ws" "mn \<le> length ws" "case mx of None \<Rightarrow> True | Some k \<Rightarrow> length ws \<le> k"
    "set ws \<subseteq> lang r" "\<forall>k < length ws. ws ! k = [] \<longrightarrow> k < mn" .
  with mt_rep_complete [OF IH] show ?case by blast
next
  case (RCap r)
  from RCap.IH [of u i t "Suc g" c] RCap.prems obtain d where
    "(i + length u, t, d) \<in> set (mt r (Suc g) i (u @ t) c)" by auto
  then show ?case by force
qed simp_all

lemma rx_seq_Cons_ne: "xs \<noteq> [] \<Longrightarrow> rx_seq (x # xs) = RSeq x (rx_seq xs)"
  by (cases xs) simp_all

lemma mt_complete_eol:
  "list_all no_anchor rs \<Longrightarrow> list_all rx_wf rs \<Longrightarrow> u \<in> lang (rx_seq (rs @ [REol])) \<Longrightarrow>
   \<exists>d. (i + length u, [], d) \<in> set (mt (rx_seq (rs @ [REol])) g i u c)"
proof (induction rs arbitrary: g i u c)
  case Nil
  then show ?case by simp
next
  case (Cons r rs)
  have eq: "rx_seq (r # rs @ [REol]) = RSeq r (rx_seq (rs @ [REol]))" by (simp add: rx_seq_Cons_ne)
  from Cons.prems(3) obtain u1 u2 where u: "u = u1 @ u2" "u1 \<in> lang r" "u2 \<in> lang (rx_seq (rs @ [REol]))"
    by (auto simp: eq)
  from mt_complete [of r u1 i u2 g c] Cons.prems u obtain d1 where
    d1: "(i + length u1, u2, d1) \<in> set (mt r g i (u1 @ u2) c)" by auto
  from Cons.IH [of u2 "i + length u1" "g + ngroups r" d1] Cons.prems u obtain d where
    "(i + length u1 + length u2, [], d) \<in> set (mt (rx_seq (rs @ [REol])) (g + ngroups r) (i + length u1) u2 d1)"
    by auto
  from mt_seqI [OF d1 this] u show ?case
    by (intro exI) (simp only: append_Cons eq length_append add.assoc)
qed

end
