(* ===== verification/Js_Double.thy ===== *)
theory Js_Double
  imports Colorful_Prelude
begin

text \<open>
  JavaScript numbers as IEEE 754 binary64 values.  A finite number is the exact
  rational it denotes (\<open>Num q\<close>); every arithmetic operation computes the exact
  result and rounds it to the nearest double, ties to an even significand, as the
  standard requires.  Overflow gives an infinity, \<open>0/0\<close> and friends give \<open>NaN\<close>.
  Negative zero is identified with zero: no value of the colour library can be
  negative, and no code path distinguishes the two.

  This is the number model of the whole development: the colour library stores
  channels as doubles and every conversion it makes (\<open>value * 255 / 100\<close>,
  \<open>rawChannel * 100 / 255\<close>, \<open>Math.round\<close>) is one of these operations.
\<close>

datatype jsnum = Num rat | PosInf | NegInf | NaN

section \<open>Binary exponents and rounding to a double\<close>

text \<open>\<open>flog b q\<close> is \<open>\<lfloor>log\<^sub>b q\<rfloor>\<close> for a positive rational, computed from the digit
  lengths of numerator and denominator.\<close>

definition flog :: "int \<Rightarrow> rat \<Rightarrow> int" where
  "flog b q =
     (let (n, d) = quotient_of q; e = ilog b n - ilog b d
      in if of_int b powi e \<le> q then e else e - 1)"

definition round_half_even :: "rat \<Rightarrow> int" where
  "round_half_even x =
     (let f = \<lfloor>x\<rfloor>; d = x - of_int f
      in if d < 1/2 then f else if 1/2 < d then f + 1 else if even f then f else f + 1)"

text \<open>The largest finite double, \<open>(2\<^sup>5\<^sup>3 - 1) \<cdot> 2\<^sup>9\<^sup>7\<^sup>1\<close>.\<close>

definition dbl_max :: rat where
  "dbl_max = (2 ^ 53 - 1) * 2 ^ 971"

text \<open>Rounding a positive rational: the spacing of doubles in its binade is
  \<open>2\<^sup>e\<^sup>-\<^sup>5\<^sup>2\<close>, with the exponent held at \<open>-1022\<close> for subnormals.\<close>

definition dbl_ulp :: "rat \<Rightarrow> rat" where
  "dbl_ulp q = 2 powi (max (flog 2 q) (-1022) - 52)"

definition round_pos :: "rat \<Rightarrow> rat" where
  "round_pos q = of_int (round_half_even (q / dbl_ulp q)) * dbl_ulp q"

definition round_dbl :: "rat \<Rightarrow> jsnum" where
  "round_dbl q =
     (if q = 0 then Num 0
      else let v = round_pos \<bar>q\<bar>
           in if dbl_max < v then (if 0 < q then PosInf else NegInf)
              else Num (if 0 < q then v else - v))"

definition is_double :: "rat \<Rightarrow> bool" where
  "is_double q \<longleftrightarrow> round_dbl q = Num q"

section \<open>Operations\<close>

definition js_neg :: "jsnum \<Rightarrow> jsnum" where
  "js_neg x = (case x of Num q \<Rightarrow> Num (- q) | PosInf \<Rightarrow> NegInf | NegInf \<Rightarrow> PosInf | NaN \<Rightarrow> NaN)"

definition is_nan :: "jsnum \<Rightarrow> bool" where
  "is_nan x \<longleftrightarrow> x = NaN"

fun js_add :: "jsnum \<Rightarrow> jsnum \<Rightarrow> jsnum" where
  "js_add (Num a) (Num b) = round_dbl (a + b)"
| "js_add NaN y = NaN"
| "js_add x NaN = NaN"
| "js_add PosInf NegInf = NaN"
| "js_add NegInf PosInf = NaN"
| "js_add PosInf y = PosInf"
| "js_add NegInf y = NegInf"
| "js_add x PosInf = PosInf"
| "js_add x NegInf = NegInf"

definition js_sub :: "jsnum \<Rightarrow> jsnum \<Rightarrow> jsnum" where
  "js_sub x y = js_add x (js_neg y)"

fun js_mul :: "jsnum \<Rightarrow> jsnum \<Rightarrow> jsnum" where
  "js_mul (Num a) (Num b) = round_dbl (a * b)"
| "js_mul NaN y = NaN"
| "js_mul x NaN = NaN"
| "js_mul (Num a) y = (if a = 0 then NaN else if 0 < a then y else js_neg y)"
| "js_mul x (Num b) = (if b = 0 then NaN else if 0 < b then x else js_neg x)"
| "js_mul PosInf y = y"
| "js_mul NegInf y = js_neg y"

fun js_div :: "jsnum \<Rightarrow> jsnum \<Rightarrow> jsnum" where
  "js_div (Num a) (Num b) =
     (if b = 0 then (if a = 0 then NaN else if 0 < a then PosInf else NegInf)
      else round_dbl (a / b))"
| "js_div NaN y = NaN"
| "js_div x NaN = NaN"
| "js_div (Num a) y = Num 0"
| "js_div x (Num b) = (if 0 \<le> b then x else js_neg x)"
| "js_div x y = NaN"

text \<open>\<open>n % d\<close>: the remainder of truncating division, exact in IEEE arithmetic.\<close>

fun js_mod :: "jsnum \<Rightarrow> jsnum \<Rightarrow> jsnum" where
  "js_mod (Num n) (Num d) =
     (if d = 0 then NaN
      else Num (n - d * (sgn (n / d) * of_int \<lfloor>\<bar>n / d\<bar>\<rfloor>)))"
| "js_mod (Num n) y = (if y = NaN then NaN else Num n)"
| "js_mod x y = NaN"

text \<open>Relational operators: every comparison with \<open>NaN\<close> is false.\<close>

fun js_less :: "jsnum \<Rightarrow> jsnum \<Rightarrow> bool" where
  "js_less (Num a) (Num b) = (a < b)"
| "js_less NaN y = False"
| "js_less x NaN = False"
| "js_less NegInf y = (y \<noteq> NegInf)"
| "js_less x PosInf = (x \<noteq> PosInf)"
| "js_less x y = False"

definition js_le :: "jsnum \<Rightarrow> jsnum \<Rightarrow> bool" where
  "js_le x y \<longleftrightarrow> \<not> is_nan x \<and> \<not> is_nan y \<and> \<not> js_less y x"

text \<open>\<open>===\<close> on numbers.\<close>

definition js_strict_eq :: "jsnum \<Rightarrow> jsnum \<Rightarrow> bool" where
  "js_strict_eq x y \<longleftrightarrow> x \<noteq> NaN \<and> x = y"

text \<open>ToBoolean of a number, used by \<open>||\<close>.\<close>

definition js_truthy :: "jsnum \<Rightarrow> bool" where
  "js_truthy x = (case x of Num q \<Rightarrow> q \<noteq> 0 | NaN \<Rightarrow> False | _ \<Rightarrow> True)"

text \<open>A finite number between two bounds; the range facts of the parser are
  stated with it.\<close>

definition in_range :: "rat \<Rightarrow> rat \<Rightarrow> jsnum \<Rightarrow> bool" where
  "in_range lo hi v = (case v of Num q \<Rightarrow> lo \<le> q \<and> q \<le> hi | _ \<Rightarrow> False)"

text \<open>\<open>Math.round\<close>, \<open>Math.floor\<close> and \<open>Math.ceil\<close>.  \<open>Math.round\<close> takes the integer
  closest to its argument and, of two equally close, the one towards \<open>+\<infinity>\<close>.\<close>

definition js_math_round :: "jsnum \<Rightarrow> jsnum" where
  "js_math_round x = (case x of Num q \<Rightarrow> Num (of_int \<lfloor>q + 1/2\<rfloor>) | _ \<Rightarrow> x)"

definition js_math_floor :: "jsnum \<Rightarrow> jsnum" where
  "js_math_floor x = (case x of Num q \<Rightarrow> Num (of_int \<lfloor>q\<rfloor>) | _ \<Rightarrow> x)"

definition js_math_ceil :: "jsnum \<Rightarrow> jsnum" where
  "js_math_ceil x = (case x of Num q \<Rightarrow> Num (of_int \<lceil>q\<rceil>) | _ \<Rightarrow> x)"

section \<open>Rounding lemmas\<close>

lemma round_half_even_dist: "\<bar>x - of_int (round_half_even x)\<bar> \<le> 1/2"
proof -
  have lo: "of_int \<lfloor>x\<rfloor> \<le> x" and hi: "x < of_int \<lfloor>x\<rfloor> + 1"
    using floor_correct [of x] by simp_all
  show ?thesis
    unfolding round_half_even_def Let_def using lo hi by (auto simp: abs_if; linarith)
qed

lemma round_half_even_of_int [simp]: "round_half_even (of_int n) = n"
  by (simp add: round_half_even_def)

lemma round_half_even_le_ceiling: "round_half_even x \<le> \<lceil>x\<rceil>"
proof -
  have "\<lfloor>x\<rfloor> \<le> \<lceil>x\<rceil>" by (rule floor_le_ceiling)
  moreover have "x - of_int \<lfloor>x\<rfloor> \<noteq> 0 \<Longrightarrow> \<lfloor>x\<rfloor> + 1 \<le> \<lceil>x\<rceil>"
    by (metis ceiling_altdef diff_zero eq_iff_diff_eq_0 floor_of_int order_refl)
  ultimately show ?thesis
    unfolding round_half_even_def Let_def by auto
qed

lemma round_half_even_ge_floor: "\<lfloor>x\<rfloor> \<le> round_half_even x"
  unfolding round_half_even_def Let_def by auto

lemma flog_bounds:
  fixes q :: rat
  assumes "0 < q" and "1 < b"
  shows "of_int b powi flog b q \<le> q \<and> q < of_int b powi (flog b q + 1)"
proof -
  obtain n d where qd: "quotient_of q = (n, d)" by (cases "quotient_of q")
  then have q: "q = of_int n / of_int d" and d: "0 < d"
    by (simp_all add: quotient_of_div quotient_of_denom_pos)
  with assms have n: "0 < n" by (simp add: zero_less_divide_iff)
  define ln where "ln = ilog b n"
  define ld where "ld = ilog b d"
  let ?B = "of_int b :: rat"
  have Bpos: "0 < ?B" using assms(2) by simp
  have ln0: "0 \<le> ln" and ld0: "0 \<le> ld"
    by (simp_all add: ln_def ld_def ilog_nonneg)
  have pw1: "?B powi k = of_int (b ^ nat k)" and pw2: "?B powi (k + 1) = of_int (b ^ (nat k + 1))"
    if "0 \<le> k" for k
    using that by (simp_all add: power_int_def nat_add_distrib)
  have bn: "?B powi ln \<le> of_int n \<and> of_int n < ?B powi (ln + 1)"
    using ilog_bounds [OF assms(2) n] ln0 pw1 [of ln] pw2 [of ln]
    by (simp only: ln_def of_int_le_iff of_int_less_iff)
  have bd: "?B powi ld \<le> of_int d \<and> of_int d < ?B powi (ld + 1)"
    using ilog_bounds [OF assms(2) d] ld0 pw1 [of ld] pw2 [of ld]
    by (simp only: ld_def of_int_le_iff of_int_less_iff)
  define e where "e = ln - ld"
  have lower: "?B powi (e - 1) < q"
  proof -
    have "e - 1 = ln - (ld + 1)" by (simp add: e_def)
    then have "?B powi (e - 1) = ?B powi ln / ?B powi (ld + 1)"
      using Bpos by (simp add: power_int_diff power_int_add_1)
    also have "\<dots> < of_int n / of_int d"
      using bn bd d Bpos
      by (intro frac_less2) (auto intro: order_less_le_trans)
    finally show ?thesis by (simp add: q)
  qed
  have upper: "q < ?B powi (e + 1)"
  proof -
    have "of_int n / of_int d < ?B powi (ln + 1) / ?B powi ld"
      using bn bd d n Bpos by (intro frac_less) auto
    also have "\<dots> = ?B powi (ln + 1 - ld)"
      using Bpos by (simp add: power_int_diff)
    also have "ln + 1 - ld = e + 1"
      by (simp add: e_def)
    finally show ?thesis by (simp add: q)
  qed
  have fl: "flog b q = (if ?B powi e \<le> q then e else e - 1)"
    by (simp add: flog_def qd e_def ln_def ld_def)
  show ?thesis
  proof (cases "?B powi e \<le> q")
    case True
    with fl upper show ?thesis by simp
  next
    case False
    with fl lower show ?thesis by simp
  qed
qed


section \<open>Evaluating the rounding\<close>

text \<open>Overflow is decided by the binary exponent: the rounded value exceeds the
  largest double exactly when the exponent passes 1023, or equals 1023 and the
  significand rounds up to \<open>2\<^sup>5\<^sup>3\<close>.  \<open>round_dbl_code\<close> computes \<open>round_dbl\<close> that
  way, without the comparison against a 1024-bit constant; it is the equation the
  kernel evaluates.\<close>

lemma round_half_even_mono: "x \<le> y \<Longrightarrow> round_half_even x \<le> round_half_even y"
proof (rule ccontr)
  assume xy: "x \<le> y" and "\<not> round_half_even x \<le> round_half_even y"
  then have lt: "round_half_even y + 1 \<le> round_half_even x" by simp
  have ax: "\<bar>x - of_int (round_half_even x)\<bar> \<le> 1/2" and ay: "\<bar>y - of_int (round_half_even y)\<bar> \<le> 1/2"
    by (rule round_half_even_dist)+
  from lt have "of_int (round_half_even y) + 1 \<le> (of_int (round_half_even x) :: rat)"
    by (metis of_int_add of_int_le_iff of_int_1)
  with ax ay xy have eq: "x = y" and "of_int (round_half_even y) + 1 = (of_int (round_half_even x) :: rat)"
    by (auto simp: abs_if split: if_splits)
  with lt show False by simp
qed

lemma round_half_even_upper: "x \<le> of_int k \<Longrightarrow> round_half_even x \<le> k"
  using round_half_even_mono [of x "of_int k"] by simp

lemma round_half_even_lower: "of_int k \<le> x \<Longrightarrow> k \<le> round_half_even x"
  using round_half_even_mono [of "of_int k" x] by simp

lemma powi_two_shift: "(2::rat) powi (k + int n) = 2 ^ n * 2 powi k"
  by (simp add: power_int_add power_int_of_nat)

lemma round_pos_overflow_iff:
  assumes a: "0 < a"
  defines "E \<equiv> max (flog 2 a) (-1022)"
  defines "m \<equiv> round_half_even (a / 2 powi (E - 52))"
  shows "dbl_max < round_pos a \<longleftrightarrow> 1023 < E \<or> (E = 1023 \<and> m = 2 ^ 53)"
proof -
  let ?u = "(2::rat) powi (E - 52)"
  have fb: "2 powi flog 2 a \<le> a" "a < 2 powi (flog 2 a + 1)"
    using flog_bounds [OF a, of 2] by simp_all
  have u_pos: "0 < ?u" by simp
  have rp: "round_pos a = of_int m * ?u"
    by (simp add: round_pos_def dbl_ulp_def m_def E_def)
  have "a < 2 powi (E + 1)"
    using fb(2) power_int_increasing [of "flog 2 a + 1" "E + 1" "2::rat"] by (simp add: E_def)
  also have "2 powi (E + 1) = of_int (2 ^ 53) * ?u"
    using powi_two_shift [of "E - 52" 53] by (simp add: add.commute)
  finally have "a / ?u \<le> of_int (2 ^ 53)"
    using u_pos by (simp add: divide_le_eq)
  then have m_le: "m \<le> 2 ^ 53"
    unfolding m_def by (rule round_half_even_upper)
  show ?thesis
  proof (cases "E \<le> 1022")
    case True
    have "of_int m * ?u \<le> of_int (2 ^ 53) * ?u"
      using m_le u_pos by (simp del: of_int_power)
    also have "\<dots> = 2 powi (E + 1)"
      using powi_two_shift [of "E - 52" 53] by (simp add: add.commute)
    also have "\<dots> \<le> 2 powi 1023"
      using True by (intro power_int_increasing) auto
    also have "\<dots> < dbl_max"
      by (simp add: dbl_max_def)
    finally show ?thesis using True by (simp add: rp)
  next
    case False
    then have E: "E = flog 2 a" by (simp add: E_def)
    have "of_int (2 ^ 52) * ?u = 2 powi E"
      using powi_two_shift [of "E - 52" 52] by (simp add: add.commute)
    also have "\<dots> \<le> a" using fb(1) E by simp
    finally have "of_int (2 ^ 52) \<le> a / ?u"
      using u_pos by (simp add: le_divide_eq)
    then have m_ge: "2 ^ 52 \<le> m"
      unfolding m_def by (rule round_half_even_lower)
    show ?thesis
    proof (cases "E = 1023")
      case True
      then have u: "?u = 2 ^ 971" by simp
      have "dbl_max < of_int m * 2 ^ 971 \<longleftrightarrow> 2 ^ 53 - 1 < m"
        by (simp add: dbl_max_def)
      with m_le True show ?thesis by (auto simp: rp u)
    next
      case False2: False
      with False have E1024: "1024 \<le> E" by simp
      have "dbl_max < 2 powi 1024"
        by (simp add: dbl_max_def)
      also have "(2::rat) powi 1024 \<le> 2 powi E"
        using E1024 by (intro power_int_increasing) auto
      also have "\<dots> = of_int (2 ^ 52) * ?u"
        using powi_two_shift [of "E - 52" 52] by (simp add: add.commute)
      also have "\<dots> \<le> of_int m * ?u"
        using m_ge u_pos by (simp del: of_int_power)
      finally show ?thesis using E1024 by (simp add: rp)
    qed
  qed
qed

lemma round_dbl_code [code]:
  "round_dbl q =
     (if q = 0 then Num 0
      else let a = \<bar>q\<bar>; E = max (flog 2 a) (-1022); u = 2 powi (E - 52);
               m = round_half_even (a / u)
           in if 1023 < E \<or> (E = 1023 \<and> m = 2 ^ 53) then (if 0 < q then PosInf else NegInf)
              else Num (if 0 < q then of_int m * u else - (of_int m * u)))"
proof (cases "q = 0")
  case True
  then show ?thesis by (simp add: round_dbl_def)
next
  case False
  then have "0 < \<bar>q\<bar>" by simp
  from round_pos_overflow_iff [OF this] False show ?thesis
    by (simp add: round_dbl_def round_pos_def dbl_ulp_def Let_def)
qed

section \<open>Monotonicity and exact values\<close>

text \<open>Rounding to a double is monotone, leaves the integers below \<open>2\<^sup>5\<^sup>3\<close>
  unchanged, and so maps a value between two doubles to a double between them.
  These are the facts the range proofs of the parser use.\<close>

lemma flog_unique:
  assumes "0 < q" "1 < b" "of_int b powi k \<le> q" "q < of_int b powi (k + 1)"
  shows "flog b q = k"
proof -
  let ?B = "of_int b :: rat"
  have B: "1 \<le> ?B" using assms(2) by simp
  from flog_bounds [OF assms(1,2)] have fb: "?B powi flog b q \<le> q" "q < ?B powi (flog b q + 1)"
    by simp_all
  have "\<not> flog b q < k"
  proof
    assume "flog b q < k"
    then have "?B powi (flog b q + 1) \<le> ?B powi k" using B by (intro power_int_increasing) auto
    with fb(2) assms(3) show False by simp
  qed
  moreover have "\<not> k < flog b q"
  proof
    assume "k < flog b q"
    then have "?B powi (k + 1) \<le> ?B powi flog b q" using B by (intro power_int_increasing) auto
    with fb(1) assms(4) show False by simp
  qed
  ultimately show ?thesis by simp
qed

lemma flog_mono:
  assumes "0 < a" "a \<le> c" "1 < b"
  shows "flog b a \<le> flog b c"
proof (rule ccontr)
  let ?B = "of_int b :: rat"
  assume "\<not> flog b a \<le> flog b c"
  then have "?B powi (flog b c + 1) \<le> ?B powi flog b a"
    using assms(3) by (intro power_int_increasing) auto
  moreover have "?B powi flog b a \<le> a" "c < ?B powi (flog b c + 1)"
    using flog_bounds [OF assms(1,3)] flog_bounds [of c b] assms by simp_all
  ultimately show False using assms(2) by simp
qed

lemma round_pos_nonneg: "0 < a \<Longrightarrow> 0 \<le> round_pos a"
proof -
  assume a: "0 < a"
  have "0 \<le> a / dbl_ulp a" using a by (simp add: dbl_ulp_def)
  then have "0 \<le> round_half_even (a / dbl_ulp a)"
    using round_half_even_lower [of 0] by simp
  then show ?thesis by (simp add: round_pos_def dbl_ulp_def)
qed

text \<open>A rounded value stays below the next power of two above its binade and
  (outside the subnormals) above the power of two below.\<close>

lemma round_pos_upper:
  assumes a: "0 < a"
  shows "round_pos a \<le> 2 powi (max (flog 2 a) (-1022) + 1)"
proof -
  define E where "E = max (flog 2 a) (-1022)"
  let ?u = "(2::rat) powi (E - 52)"
  have "a < 2 powi (flog 2 a + 1)" using flog_bounds [OF a, of 2] by simp
  also have "\<dots> \<le> 2 powi (E + 1)" by (intro power_int_increasing) (auto simp: E_def)
  also have "2 powi (E + 1) = of_int (2 ^ 53) * ?u"
    using powi_two_shift [of "E - 52" 53] by (simp add: add.commute)
  finally have "a / ?u \<le> of_int (2 ^ 53)" by (simp add: divide_le_eq)
  then have "round_half_even (a / ?u) \<le> 2 ^ 53" by (rule round_half_even_upper)
  then have "of_int (round_half_even (a / ?u)) * ?u \<le> of_int (2 ^ 53) * ?u"
    by (simp del: of_int_power)
  also have "\<dots> = 2 powi (E + 1)"
    using powi_two_shift [of "E - 52" 53] by (simp add: add.commute)
  finally show ?thesis by (simp add: round_pos_def dbl_ulp_def E_def)
qed

lemma round_pos_lower:
  assumes a: "0 < a" and E: "-1022 \<le> flog 2 a"
  shows "2 powi flog 2 a \<le> round_pos a"
proof -
  let ?E = "flog 2 a"
  let ?u = "(2::rat) powi (?E - 52)"
  let ?m = "round_half_even (a / ?u)"
  have pw: "of_int (2 ^ 52) * ?u = 2 powi ?E"
    using powi_two_shift [of "?E - 52" 52] by (simp add: add.commute)
  also have "\<dots> \<le> a" using flog_bounds [OF a, of 2] by simp
  finally have "of_int (2 ^ 52) \<le> a / ?u" by (simp add: le_divide_eq)
  then have m: "2 ^ 52 \<le> ?m" by (rule round_half_even_lower)
  have "2 powi ?E = of_int (2 ^ 52) * ?u" using pw by simp
  also have "\<dots> \<le> of_int ?m * ?u"
    using m by (intro mult_right_mono) (simp_all only: of_int_le_iff, simp)
  also have "\<dots> = round_pos a" using E by (simp add: round_pos_def dbl_ulp_def max_def)
  finally show ?thesis .
qed

lemma round_pos_mono:
  assumes a: "0 < a" and ab: "a \<le> b"
  shows "round_pos a \<le> round_pos b"
proof -
  have b: "0 < b" using a ab by simp
  have fl: "flog 2 a \<le> flog 2 b" using flog_mono [OF a ab] by simp
  show ?thesis
  proof (cases "max (flog 2 a) (-1022) = max (flog 2 b) (-1022)")
    case True
    then have u: "dbl_ulp a = dbl_ulp b" by (simp add: dbl_ulp_def)
    have "a / dbl_ulp b \<le> b / dbl_ulp b" using ab by (simp add: dbl_ulp_def divide_right_mono)
    then have "round_half_even (a / dbl_ulp b) \<le> round_half_even (b / dbl_ulp b)"
      by (rule round_half_even_mono)
    then have "of_int (round_half_even (a / dbl_ulp b)) * dbl_ulp b
               \<le> of_int (round_half_even (b / dbl_ulp b)) * dbl_ulp b"
      by (intro mult_right_mono) (simp_all add: dbl_ulp_def)
    then show ?thesis
      by (simp only: round_pos_def u)
  next
    case False
    with fl have lt: "max (flog 2 a) (-1022) + 1 \<le> flog 2 b" and Eb: "-1022 \<le> flog 2 b"
      by auto
    have "round_pos a \<le> 2 powi (max (flog 2 a) (-1022) + 1)" by (rule round_pos_upper [OF a])
    also have "\<dots> \<le> 2 powi flog 2 b" using lt by (intro power_int_increasing) auto
    also have "\<dots> \<le> round_pos b" by (rule round_pos_lower [OF b Eb])
    finally show ?thesis .
  qed
qed

lemma round_pos_int:
  assumes n: "0 < n" "n < 2 ^ 53"
  shows "round_pos (of_int n) = of_int n"
proof -
  let ?q = "of_int n :: rat"
  have q: "0 < ?q" using n by simp
  define E where "E = flog 2 ?q"
  have fb: "2 powi E \<le> ?q" "?q < 2 powi (E + 1)"
    using flog_bounds [OF q, of 2] by (simp_all add: E_def)
  have E0: "0 \<le> E"
  proof (rule ccontr)
    assume "\<not> 0 \<le> E"
    then have "(2::rat) powi (E + 1) \<le> 2 powi 0" by (intro power_int_increasing) auto
    with fb(2) n show False by simp
  qed
  have E52: "E \<le> 52"
  proof (rule ccontr)
    assume "\<not> E \<le> 52"
    then have "(2::rat) powi 53 \<le> 2 powi E" by (intro power_int_increasing) auto
    with fb(1) n(2) show False by (simp add: of_int_less_iff [symmetric])
  qed
  define k where "k = nat (52 - E)"
  have u: "dbl_ulp ?q = 1 / 2 ^ k"
  proof -
    have "max (flog 2 ?q) (-1022) - 52 = - int k" using E0 E52 by (simp add: E_def k_def)
    then show ?thesis by (simp add: dbl_ulp_def power_int_minus inverse_eq_divide)
  qed
  have "?q / dbl_ulp ?q = of_int (n * 2 ^ k)" by (simp add: u)
  then have "round_pos ?q = of_int (n * 2 ^ k) * (1 / 2 ^ k)"
    by (simp only: round_pos_def round_half_even_of_int u)
  then show ?thesis by simp
qed

lemma round_dbl_pos_Num:
  assumes "0 < q" "round_dbl q = Num x"
  shows "x = round_pos q" "round_pos q \<le> dbl_max"
  using assms by (auto simp: round_dbl_def Let_def split: if_splits)

lemma round_dbl_int: "\<bar>n\<bar> < 2 ^ 53 \<Longrightarrow> round_dbl (of_int n) = Num (of_int n)"
proof -
  assume n: "\<bar>n\<bar> < 2 ^ 53"
  have small: "(of_int \<bar>n\<bar> :: rat) \<le> dbl_max"
  proof -
    have "(of_int \<bar>n\<bar> :: rat) < 2 ^ 53" using n by (simp add: of_int_less_iff [symmetric])
    also have "(2::rat) ^ 53 \<le> dbl_max" by (simp add: dbl_max_def)
    finally show ?thesis by simp
  qed
  consider "n = 0" | "0 < \<bar>n\<bar>" by fastforce
  then show ?thesis
  proof cases
    case 2
    have "round_pos (of_int \<bar>n\<bar>) = of_int \<bar>n\<bar>" using round_pos_int [OF 2 n] .
    with small show ?thesis by (auto simp: round_dbl_def Let_def abs_if split: if_splits)
  qed (simp add: round_dbl_def)
qed

text \<open>The value nearest to a number between two doubles is between them.\<close>

lemma round_dbl_between:
  assumes lo: "0 \<le> lo" "round_dbl lo = Num lo" and hi: "round_dbl hi = Num hi"
    and v: "lo \<le> v" "v \<le> hi"
  shows "\<exists>q. round_dbl v = Num q \<and> lo \<le> q \<and> q \<le> hi"
proof (cases "v = 0")
  case True
  with lo v show ?thesis by (auto simp: round_dbl_def)
next
  case False
  with lo v have vpos: "0 < v" by simp
  then have hipos: "0 < hi" using v by simp
  from round_dbl_pos_Num [OF hipos hi] have hr: "round_pos hi = hi" "hi \<le> dbl_max" by simp_all
  have up: "round_pos v \<le> hi" using round_pos_mono [OF vpos v(2)] hr by simp
  have down: "lo \<le> round_pos v"
  proof (cases "lo = 0")
    case True
    then show ?thesis using round_pos_nonneg [OF vpos] by simp
  next
    case False
    with lo have lopos: "0 < lo" by simp
    from round_dbl_pos_Num [OF lopos lo(2)] have "round_pos lo = lo" by simp
    with round_pos_mono [OF lopos v(1)] show ?thesis by simp
  qed
  have "round_dbl v = Num (round_pos v)"
    using vpos up hr(2) by (simp add: round_dbl_def)
  with up down show ?thesis by blast
qed

lemma is_double_int: "\<bar>n\<bar> < 2 ^ 53 \<Longrightarrow> is_double (of_int n)"
  by (simp add: is_double_def round_dbl_int)

lemma round_dbl_in_range:
  "0 \<le> lo \<Longrightarrow> is_double lo \<Longrightarrow> is_double hi \<Longrightarrow> lo \<le> v \<Longrightarrow> v \<le> hi \<Longrightarrow>
   in_range lo hi (round_dbl v)"
  using round_dbl_between [of lo hi v] by (auto simp: is_double_def in_range_def)

text \<open>Scaling a number in a range by a positive constant, as the channel
  normalisation does (\<open>value * 255\<close>, \<open>/ 100\<close>).\<close>

lemma in_range_mul:
  assumes "in_range lo hi x" "0 \<le> lo" "0 < c" "is_double (lo * c)" "is_double (hi * c)"
  shows "in_range (lo * c) (hi * c) (js_mul x (Num c))"
proof -
  from assms(1) obtain q where x: "x = Num q" "lo \<le> q" "q \<le> hi"
    by (cases x) (auto simp: in_range_def)
  have "lo * c \<le> q * c" "q * c \<le> hi * c" using x assms(3) by (simp_all add: mult_right_mono)
  with assms(2-5) x show ?thesis by (simp add: round_dbl_in_range)
qed

lemma in_range_div:
  assumes "in_range lo hi x" "0 \<le> lo" "0 < c" "is_double (lo / c)" "is_double (hi / c)"
  shows "in_range (lo / c) (hi / c) (js_div x (Num c))"
proof -
  from assms(1) obtain q where x: "x = Num q" "lo \<le> q" "q \<le> hi"
    by (cases x) (auto simp: in_range_def)
  have "lo / c \<le> q / c" "q / c \<le> hi / c" using x assms(3) by (simp_all add: divide_right_mono)
  with assms(2-5) x show ?thesis by (simp add: round_dbl_in_range)
qed

lemma js_math_round_int [simp]: "js_math_round (Num (of_int n)) = Num (of_int n)"
proof -
  have "\<lfloor>(of_int n :: rat) + 1/2\<rfloor> = n" by (simp add: floor_eq_iff)
  then show ?thesis by (simp add: js_math_round_def)
qed

end
