(* ===== verification/Js_String.thy ===== *)
theory Js_String
  imports Js_Double
begin

text \<open>
  The conversions between numbers and strings that colorful.js relies on, as
  ECMAScript specifies them: \<open>Number::toString\<close> (the shortest decimal that
  rounds back to the same double, rendered in plain or exponential notation),
  \<open>Number.prototype.toFixed\<close>, \<open>Number.prototype.toString(16)\<close> on the integral
  results of \<open>Math.round\<close>, the string-to-number conversion of unary \<open>+\<close>
  (StringToNumber), \<open>parseInt(s, 16)\<close> and \<open>String.prototype.split\<close> on one
  character.  These are the platform's operations, not code of the repository;
  the library's formatter (Convert) and rounding helper (Nums) are built on them.
\<close>

section \<open>Number::toString\<close>

text \<open>The two \<open>k\<close>-digit decimals \<open>s \<cdot> 10\<^sup>e\<close> that bracket a positive \<open>x\<close>
  (one when \<open>x\<close> is one of them).\<close>

definition dec_bracket :: "rat \<Rightarrow> nat \<Rightarrow> (int \<times> int) list" where
  "dec_bracket x k =
     (let e = flog 10 x + 1 - int k; y = x / 10 powi e; s = \<lfloor>y\<rfloor>
      in if of_int s = y then [(s, e)] else [(s, e), (s + 1, e)])"

definition dec_value :: "int \<times> int \<Rightarrow> rat" where
  "dec_value c = of_int (fst c) * 10 powi snd c"

text \<open>Of the bracketing candidates that round back to \<open>x\<close>, the closest to \<open>x\<close>;
  of two equally close, the one with an even last digit.\<close>

definition choose_digits :: "rat \<Rightarrow> nat \<Rightarrow> (int \<times> int) option" where
  "choose_digits x k =
     (case filter (\<lambda>c. round_dbl (dec_value c) = Num x) (dec_bracket x k) of
        [] \<Rightarrow> None
      | [c] \<Rightarrow> Some c
      | c1 # c2 # _ \<Rightarrow>
          (let d1 = x - dec_value c1; d2 = dec_value c2 - x
           in Some (if d1 < d2 then c1 else if d2 < d1 then c2
                    else if even (fst c1) then c1 else c2)))"

text \<open>The fewest digits \<open>k\<close> (at most 17 are ever needed for a double) whose
  decimal rounds back to \<open>x\<close>, searched upwards from \<open>k\<close>.\<close>

function find_digits :: "rat \<Rightarrow> nat \<Rightarrow> (int \<times> int) option" where
  "find_digits x k =
     (if 17 < k then None
      else case choose_digits x k of Some c \<Rightarrow> Some c | None \<Rightarrow> find_digits x (Suc k))"
  by pat_completeness auto
termination
  by (relation "measure (\<lambda>(x, k). 18 - k)") auto

declare find_digits.simps [simp del]

text \<open>The fall-back, 17 digits rounded to nearest, is never taken for a double.\<close>

definition shortest_digits :: "rat \<Rightarrow> int \<times> int" where
  "shortest_digits x =
     (case find_digits x 1 of
        Some c \<Rightarrow> c
      | None \<Rightarrow> (let e = flog 10 x + 1 - 17
                in (round_half_even (x / 10 powi e), e)))"

function strip_zeros :: "int \<times> int \<Rightarrow> int \<times> int" where
  "strip_zeros (s, e) = (if 0 < s \<and> s mod 10 = 0 then strip_zeros (s div 10, e + 1) else (s, e))"
  by pat_completeness auto
termination
  by (relation "measure (\<lambda>(s, e). nat s)") auto

declare strip_zeros.simps [simp del]

text \<open>Steps 6--10 of Number::toString: the digits \<open>ds\<close> (\<open>k\<close> of them) with the
  decimal point after position \<open>n\<close>.\<close>

definition render_decimal :: "string \<Rightarrow> int \<Rightarrow> string" where
  "render_decimal ds n =
     (let k = int (length ds) in
      if k \<le> n \<and> n \<le> 21 then ds @ replicate (nat (n - k)) (CHR ''0'')
      else if 0 < n \<and> n \<le> 21 then take (nat n) ds @ ''.'' @ drop (nat n) ds
      else if -6 < n \<and> n \<le> 0 then ''0.'' @ replicate (nat (- n)) (CHR ''0'') @ ds
      else let e = n - 1;
               es = (if 0 \<le> e then CHR ''+'' else CHR ''-'') # digits_of_int \<bar>e\<bar>
           in if k = 1 then ds @ ''e'' @ es else take 1 ds @ ''.'' @ drop 1 ds @ ''e'' @ es)"

definition num_str_pos :: "rat \<Rightarrow> string" where
  "num_str_pos x =
     (let (s, e) = strip_zeros (shortest_digits x); ds = digits_of_int s
      in render_decimal ds (e + int (length ds)))"

definition js_num_str :: "jsnum \<Rightarrow> string" where
  "js_num_str v =
     (case v of
        NaN \<Rightarrow> ''NaN''
      | PosInf \<Rightarrow> ''Infinity''
      | NegInf \<Rightarrow> ''-Infinity''
      | Num q \<Rightarrow> if q = 0 then ''0'' else if q < 0 then CHR ''-'' # num_str_pos (- q)
                 else num_str_pos q)"

section \<open>toString(16) and toFixed\<close>

text \<open>\<open>toString(16)\<close> on the values it receives in the source, the results of
  \<open>Math.round\<close>, which are integral (or \<open>NaN\<close>): the hexadecimal numeral of the
  integer.\<close>

definition js_num_str16 :: "jsnum \<Rightarrow> string" where
  "js_num_str16 v =
     (case v of
        NaN \<Rightarrow> ''NaN''
      | PosInf \<Rightarrow> ''Infinity''
      | NegInf \<Rightarrow> ''-Infinity''
      | Num q \<Rightarrow> if q < 0 then CHR ''-'' # hex_of_int \<lfloor>- q\<rfloor> else hex_of_int \<lfloor>q\<rfloor>)"

text \<open>\<open>x.toFixed(f)\<close> for \<open>0 \<le> x < 10\<^sup>2\<^sup>1\<close>: the integer \<open>n\<close> closest to \<open>x \<cdot> 10\<^sup>f\<close>
  (the larger of two equally close), printed with \<open>f\<close> fractional digits.\<close>

definition fixed_digits :: "rat \<Rightarrow> nat \<Rightarrow> string" where
  "fixed_digits x f =
     (let n = \<lfloor>x * 10 ^ f + 1/2\<rfloor>; m = digits_of_int n
      in if f = 0 then m
         else let m' = (if length m \<le> f then replicate (f + 1 - length m) (CHR ''0'') @ m else m);
                  k = length m'
              in take (k - f) m' @ ''.'' @ drop (k - f) m')"

definition js_to_fixed :: "jsnum \<Rightarrow> nat \<Rightarrow> string" where
  "js_to_fixed v f =
     (case v of
        Num q \<Rightarrow> if 10 ^ 21 \<le> \<bar>q\<bar> then js_num_str v
                 else (if q < 0 then ''-'' else []) @ fixed_digits \<bar>q\<bar> f
      | _ \<Rightarrow> js_num_str v)"

section \<open>String to number\<close>

definition js_trim :: "string \<Rightarrow> string" where
  "js_trim s = rev (dropWhile is_js_space (rev (dropWhile is_js_space s)))"

definition int_of_base :: "int \<Rightarrow> string \<Rightarrow> int" where
  "int_of_base b ds = foldl (\<lambda>n c. b * n + digit_val c) 0 ds"

definition parse_exponent :: "string \<Rightarrow> int option" where
  "parse_exponent t =
     (let (neg, ds) = (if t \<noteq> [] \<and> hd t = CHR ''-'' then (True, tl t)
                       else if t \<noteq> [] \<and> hd t = CHR ''+'' then (False, tl t) else (False, t))
      in if ds \<noteq> [] \<and> all_digits ds
         then Some ((if neg then -1 else 1) * int_of_digits ds) else None)"

text \<open>StrUnsignedDecimalLiteral without \<open>Infinity\<close>: digits, an optional point with
  optional digits (at least one digit in all), an optional exponent.\<close>

definition parse_unsigned_decimal :: "string \<Rightarrow> rat option" where
  "parse_unsigned_decimal t =
     (let ip = takeWhile is_digit t;
          r1 = dropWhile is_digit t;
          has_dot = (r1 \<noteq> [] \<and> hd r1 = CHR ''.'');
          fp = (if has_dot then takeWhile is_digit (tl r1) else []);
          r2 = (if has_dot then dropWhile is_digit (tl r1) else r1)
      in if ip = [] \<and> fp = [] then None
         else let ex = (if r2 = [] then Some 0
                        else if hd r2 = CHR ''e'' \<or> hd r2 = CHR ''E'' then parse_exponent (tl r2)
                        else None)
              in case ex of
                   None \<Rightarrow> None
                 | Some x \<Rightarrow> Some (of_int (int_of_digits (ip @ fp)) * 10 powi (x - int (length fp))))"

text \<open>NonDecimalIntegerLiteral: \<open>0x\<close>, \<open>0o\<close> or \<open>0b\<close> and at least one digit.\<close>

definition non_decimal_value :: "string \<Rightarrow> int option" where
  "non_decimal_value t =
     (case t of
        c0 # c1 # ds \<Rightarrow>
          if c0 = CHR ''0'' \<and> ds \<noteq> [] then
            (if (c1 = CHR ''x'' \<or> c1 = CHR ''X'') \<and> list_all (\<lambda>c. is_hex_lc c \<or> is_hex_uc c) ds
             then Some (int_of_hex ds)
             else if (c1 = CHR ''o'' \<or> c1 = CHR ''O'') \<and> list_all (\<lambda>c. is_digit c \<and> digit_val c < 8) ds
             then Some (int_of_base 8 ds)
             else if (c1 = CHR ''b'' \<or> c1 = CHR ''B'') \<and> list_all (\<lambda>c. is_digit c \<and> digit_val c < 2) ds
             then Some (int_of_base 2 ds)
             else None)
          else None
      | _ \<Rightarrow> None)"

text \<open>StringToNumber, the conversion of unary \<open>+\<close> and of arithmetic on strings.\<close>

definition js_str_to_num :: "string \<Rightarrow> jsnum" where
  "js_str_to_num s =
     (let t = js_trim s in
      if t = [] then Num 0
      else if t = ''Infinity'' \<or> t = ''+Infinity'' then PosInf
      else if t = ''-Infinity'' then NegInf
      else case non_decimal_value t of
             Some n \<Rightarrow> round_dbl (of_int n)
           | None \<Rightarrow>
               (let (neg, u) = (if hd t = CHR ''-'' then (True, tl t)
                                else if hd t = CHR ''+'' then (False, tl t) else (False, t))
                in case parse_unsigned_decimal u of
                     None \<Rightarrow> NaN
                   | Some v \<Rightarrow> round_dbl (if neg then - v else v)))"

text \<open>\<open>parseInt(s, 16)\<close>: leading white space, a sign, an optional \<open>0x\<close>, then the
  longest run of hexadecimal digits; \<open>NaN\<close> when that run is empty.\<close>

definition js_parse_int16 :: "string \<Rightarrow> jsnum" where
  "js_parse_int16 s =
     (let t = dropWhile is_js_space s;
          (neg, u) = (if t \<noteq> [] \<and> hd t = CHR ''-'' then (True, tl t)
                      else if t \<noteq> [] \<and> hd t = CHR ''+'' then (False, tl t) else (False, t));
          w = (if take 2 u = ''0x'' \<or> take 2 u = ''0X'' then drop 2 u else u);
          z = takeWhile (\<lambda>c. is_hex_lc c \<or> is_hex_uc c) w
      in if z = [] then NaN
         else round_dbl ((if neg then -1 else 1) * of_int (int_of_hex z)))"

section \<open>split\<close>

text \<open>\<open>s.split(c)\<close> for a one-character separator.\<close>

fun split_on :: "char \<Rightarrow> string \<Rightarrow> string list" where
  "split_on c [] = [[]]"
| "split_on c (x # xs) =
     (if x = c then [] # split_on c xs
      else (case split_on c xs of ys # yss \<Rightarrow> (x # ys) # yss | [] \<Rightarrow> [[x]]))"

section \<open>Reading the literals of the color grammar\<close>

text \<open>The strings the channel patterns capture are unsigned decimal literals
  (digits, optionally a point and more digits) or hexadecimal digits; unary
  \<open>+\<close> and \<open>parseInt(s, 16)\<close> read them as their exact value, rounded to a
  double.\<close>

lemma non_decimal_value_None:
  "\<forall>c0 c1 ds. t = c0 # c1 # ds \<longrightarrow> c1 \<notin> set ''xXoObB'' \<Longrightarrow> non_decimal_value t = None"
  unfolding non_decimal_value_def by (auto split: list.split)

lemma js_trim_id: "\<forall>c\<in>set w. \<not> is_js_space c \<Longrightarrow> js_trim w = w"
  by (simp add: js_trim_def dropWhile_none)

lemma js_str_to_num_decimal:
  assumes ip: "all_digits ip" and fp: "all_digits fp" and ne: "ip @ fp \<noteq> []"
  shows "js_str_to_num (ip @ (if fp = [] then [] else CHR ''.'' # fp))
         = round_dbl (of_int (int_of_digits (ip @ fp)) / 10 ^ length fp)"
proof -
  define w where "w = ip @ (if fp = [] then [] else CHR ''.'' # fp)"
  have dig: "\<forall>c\<in>set ip. is_digit c" "\<forall>c\<in>set fp. is_digit c"
    using ip fp by (simp_all add: all_digits_def list_all_iff)
  have ch: "\<forall>c\<in>set w. is_digit c \<or> c = CHR ''.''"
    using dig by (auto simp: w_def split: if_splits)
  have nsp: "\<forall>c\<in>set w. \<not> is_js_space c"
    using ch by (auto simp: is_js_space_def is_digit_def)
  have wne: "w \<noteq> []" using ne by (auto simp: w_def)
  have hdw: "is_digit (hd w) \<or> hd w = CHR ''.''" using ch wne by simp
  have ninf: "w \<noteq> ''Infinity'' \<and> w \<noteq> ''+Infinity'' \<and> w \<noteq> ''-Infinity''"
    using hdw by (auto simp: is_digit_def)
  have sign: "hd w \<noteq> CHR ''-'' \<and> hd w \<noteq> CHR ''+''"
    using hdw by (auto simp: is_digit_def)
  have nd: "non_decimal_value w = None"
  proof (rule non_decimal_value_None)
    show "\<forall>c0 c1 ds. w = c0 # c1 # ds \<longrightarrow> c1 \<notin> set ''xXoObB''"
    proof (intro allI impI)
      fix c0 c1 ds assume "w = c0 # c1 # ds"
      then have "is_digit c1 \<or> c1 = CHR ''.''" using ch by simp
      then show "c1 \<notin> set ''xXoObB''" by (auto simp: is_digit_def)
    qed
  qed
  have pud: "parse_unsigned_decimal w = Some (of_int (int_of_digits (ip @ fp)) * 10 powi (- int (length fp)))"
  proof (cases "fp = []")
    case True
    show ?thesis
    proof -
      have tw: "takeWhile is_digit ip = ip" and dw: "dropWhile is_digit ip = []"
        using dig by (simp_all add: dropWhile_eq_Nil_conv)
      show ?thesis using True ne by (simp add: w_def parse_unsigned_decimal_def Let_def tw dw)
    qed
  next
    case False
    have t1: "takeWhile is_digit w = ip" and d1: "dropWhile is_digit w = CHR ''.'' # fp"
      using dig False by (simp_all add: w_def takeWhile_append2 dropWhile_append2 is_digit_def)
    have t2: "takeWhile is_digit fp = fp" and d2: "dropWhile is_digit fp = []"
      using dig by (simp_all add: dropWhile_eq_Nil_conv)
    show ?thesis
      using False by (simp add: parse_unsigned_decimal_def Let_def t1 d1 t2 d2)
  qed
  have pm: "(if hd w = CHR ''-'' then (True, tl w) else if hd w = CHR ''+'' then (False, tl w)
             else (False, w)) = (False, w)"
    using sign by simp
  have "js_str_to_num w = round_dbl (of_int (int_of_digits (ip @ fp)) * 10 powi (- int (length fp)))"
    unfolding js_str_to_num_def Let_def js_trim_id [OF nsp] pm prod.case nd option.case pud
    using wne ninf by simp
  also have "(10::rat) powi (- int (length fp)) = 1 / 10 ^ length fp"
    by (simp add: power_int_minus inverse_eq_divide)
  finally show ?thesis by (simp add: w_def)
qed

lemma js_str_to_num_digits:
  "all_digits ds \<Longrightarrow> ds \<noteq> [] \<Longrightarrow> js_str_to_num ds = round_dbl (of_int (int_of_digits ds))"
  using js_str_to_num_decimal [of ds "[]"] by (simp add: all_digits_def)

lemma js_parse_int16_hex:
  assumes "list_all (\<lambda>c. is_hex_lc c \<or> is_hex_uc c) w" "w \<noteq> []"
  shows "js_parse_int16 w = round_dbl (of_int (int_of_hex w))"
proof -
  have hx: "\<forall>c\<in>set w. is_hex_lc c \<or> is_hex_uc c" using assms(1) by (simp add: list_all_iff)
  have nsp: "\<forall>c\<in>set w. \<not> is_js_space c"
    using hx by (auto simp: is_js_space_def is_hex_lc_def is_hex_uc_def is_digit_def)
  have sign: "hd w \<noteq> CHR ''-'' \<and> hd w \<noteq> CHR ''+''"
    using hx assms(2) by (cases w) (auto simp: is_hex_lc_def is_hex_uc_def is_digit_def)
  have nox: "take 2 w \<noteq> ''0x'' \<and> take 2 w \<noteq> ''0X''"
  proof (cases w)
    case (Cons c0 rest)
    then show ?thesis
      using hx by (cases rest) (auto simp: is_hex_lc_def is_hex_uc_def is_digit_def)
  qed simp
  have tw: "takeWhile (\<lambda>c. is_hex_lc c \<or> is_hex_uc c) w = w"
    using hx by simp
  have t: "dropWhile is_js_space w = w" by (rule dropWhile_none [OF nsp])
  have pm: "(if w \<noteq> [] \<and> hd w = CHR ''-'' then (True, tl w)
             else if w \<noteq> [] \<and> hd w = CHR ''+'' then (False, tl w) else (False, w)) = (False, w)"
    using sign by simp
  have u: "(if take 2 w = ''0x'' \<or> take 2 w = ''0X'' then drop 2 w else w) = w"
    using nox by simp
  show ?thesis
    unfolding js_parse_int16_def Let_def t pm prod.case u tw using assms(2) by simp
qed

lemma all_digits_append [simp]: "all_digits (xs @ ys) \<longleftrightarrow> all_digits xs \<and> all_digits ys"
  by (simp add: all_digits_def)

lemma decimal_value_nonneg:
  "all_digits ds \<Longrightarrow> 0 \<le> (of_int (int_of_digits ds) / 10 ^ k :: rat)"
  using int_of_digits_bounds [of ds] by simp

lemma decimal_value_less:
  assumes "all_digits ip" "all_digits fp" "int_of_digits ip < B"
  shows "of_int (int_of_digits (ip @ fp)) / 10 ^ length fp < (of_int B :: rat)"
proof -
  let ?k = "length fp"
  have f: "int_of_digits fp < 10 ^ ?k" using int_of_digits_bounds [OF assms(2)] by simp
  have "int_of_digits (ip @ fp) = int_of_digits ip * 10 ^ ?k + int_of_digits fp"
    by (simp add: int_of_digits_append)
  also have "\<dots> < (int_of_digits ip + 1) * 10 ^ ?k" using f by (simp add: algebra_simps)
  also have "\<dots> \<le> B * 10 ^ ?k" using assms(3) by (intro mult_right_mono) auto
  finally have "of_int (int_of_digits (ip @ fp)) < (of_int (B * 10 ^ ?k) :: rat)"
    by (simp only: of_int_less_iff)
  then show ?thesis by (simp add: divide_less_eq)
qed

lemma int_of_digits_zeros_right:
  "list_all (\<lambda>c. c = CHR ''0'') z \<Longrightarrow> int_of_digits (ip @ z) = int_of_digits ip * 10 ^ length z"
proof -
  assume "list_all (\<lambda>c. c = CHR ''0'') z"
  then have "z = replicate (length z) (CHR ''0'')"
    by (simp add: list_all_iff replicate_length_same)
  then show ?thesis by (metis int_of_digits_append int_of_digits_replicate_zero add_0_right)
qed

text \<open>A decimal literal whose value lies below a double \<open>hi\<close> reads as a number
  between 0 and \<open>hi\<close>.\<close>

lemma js_str_to_num_in_range:
  assumes "all_digits ip" "all_digits fp" "ip @ fp \<noteq> []"
    and "of_int (int_of_digits (ip @ fp)) / 10 ^ length fp \<le> hi" "is_double hi"
  shows "in_range 0 hi (js_str_to_num (ip @ (if fp = [] then [] else CHR ''.'' # fp)))"
proof -
  have "is_double 0" by (simp add: is_double_def round_dbl_def)
  moreover have "0 \<le> (of_int (int_of_digits (ip @ fp)) / 10 ^ length fp :: rat)"
    using assms(1,2) by (intro decimal_value_nonneg) simp
  ultimately show ?thesis
    unfolding js_str_to_num_decimal [OF assms(1-3)]
    using assms(4,5) by (intro round_dbl_in_range) simp_all
qed


text \<open>\<open>toString(16)\<close> writes ASCII only.\<close>

lemma js_num_str16_ascii: "list_all (\<lambda>c. (of_char c :: int) < 128) (js_num_str16 v)"
proof (cases v)
  case (Num q)
  have "list_all (\<lambda>c. (of_char c :: int) < 128) (hex_of_int n)" if "0 \<le> n" for n
    using hex_of_int_is_hex_lc [OF that] by (simp add: list_all_iff is_hex_lc_ascii)
  with Num show ?thesis by (simp add: js_num_str16_def)
qed (simp_all add: js_num_str16_def)


section \<open>Number::toString on integers\<close>

text \<open>For a non-negative integer below \<open>2\<^sup>4\<^sup>9\<close> the shortest round-tripping
  decimal is the integer itself: a \<open>k\<close>-digit candidate is an integer, integers
  of that size are doubles, so a candidate rounds back only when it is exact.
  \<open>Number::toString\<close> then prints the decimal numeral.\<close>

lemma powi_ten_int: "0 \<le> e \<Longrightarrow> (10::rat) powi e = of_int (10 ^ nat e)"
  by (simp add: power_int_def)

lemma flog_int:
  assumes n: "0 < n"
  shows "flog 10 (of_int n) = ilog 10 n"
proof (rule flog_unique)
  have "10 ^ nat (ilog 10 n) \<le> n \<and> n < 10 ^ (nat (ilog 10 n) + 1)"
    using ilog_bounds [of 10 n] n by simp
  moreover have "(of_int 10 :: rat) powi ilog 10 n = of_int (10 ^ nat (ilog 10 n))"
    "(of_int 10 :: rat) powi (ilog 10 n + 1) = of_int (10 ^ (nat (ilog 10 n) + 1))"
    using ilog_nonneg [of 10 n] by (simp_all add: power_int_def nat_add_distrib)
  ultimately show "(of_int 10 :: rat) powi ilog 10 n \<le> of_int n"
    "of_int n < (of_int 10 :: rat) powi (ilog 10 n + 1)"
    by (simp_all only: of_int_le_iff of_int_less_iff)
qed (use n in simp_all)

lemma ilog_small: "0 < n \<Longrightarrow> n < 2 ^ 49 \<Longrightarrow> ilog 10 n \<le> 14"
proof -
  assume n: "0 < n" "n < 2 ^ 49"
  have "10 ^ nat (ilog 10 n) \<le> n" using ilog_bounds [of 10 n] n by simp
  also have "n < 10 ^ 15" using n by simp
  finally have "(10::int) ^ nat (ilog 10 n) < 10 ^ 15" .
  then have "nat (ilog 10 n) < 15" using power_strict_increasing_iff [of "10::int" "nat (ilog 10 n)" 15] by simp
  then show ?thesis by simp
qed

lemma pow10_le: "0 < n \<Longrightarrow> 0 \<le> e \<Longrightarrow> e \<le> ilog 10 n \<Longrightarrow> 10 ^ nat e \<le> n"
proof -
  assume n: "0 < n" and e: "0 \<le> e" "e \<le> ilog 10 n"
  have "(10::int) ^ nat e \<le> 10 ^ nat (ilog 10 n)" using e by (intro power_increasing) auto
  also have "\<dots> \<le> n" using ilog_bounds [of 10 n] n by simp
  finally show ?thesis .
qed

lemma choose_digits_int:
  assumes n: "0 < n" "n < 2 ^ 49" and k: "1 \<le> k" and e: "e = ilog 10 n + 1 - int k" "0 \<le> e"
  shows "choose_digits (of_int n) k = (if 10 ^ nat e dvd n then Some (n div 10 ^ nat e, e) else None)"
proof -
  let ?p = "(10::int) ^ nat e"
  have p: "0 < ?p" by simp
  have pw: "(10::rat) powi e = of_int ?p" using e(2) by (rule powi_ten_int)
  have fl: "flog 10 (of_int n) = ilog 10 n" using n(1) by (rule flog_int)
  have "\<lfloor>(of_int n :: rat) / of_int ?p\<rfloor> = n div ?p" by (rule floor_divide_of_int_eq)
  then have fy: "\<lfloor>(of_int n :: rat) / 10 ^ nat e\<rfloor> = n div ?p" by simp
  have exact: "round_dbl (of_int m) = Num (of_int m)" if "0 \<le> m" "m \<le> 2 * n" for m
    using that n by (intro round_dbl_int) simp
  show ?thesis
  proof (cases "?p dvd n")
    case True
    then have "(of_int n :: rat) / of_int ?p = of_int (n div ?p)" by (simp add: of_int_div)
    then have y: "(of_int n :: rat) / 10 ^ nat e = of_int (n div ?p)" by simp
    have "n div ?p * ?p = n" using True by simp
    then have "(of_int (n div ?p * ?p) :: rat) = of_int n" by simp
    then have dv: "dec_value (n div ?p, e) = of_int n"
      by (simp add: dec_value_def pw)
    have "dec_bracket (of_int n) k = [(n div ?p, e)]"
      by (simp add: dec_bracket_def fl e(1)[symmetric] pw y Let_def)
    with True dv exact [of n] n show ?thesis by (simp add: choose_digits_def)
  next
    case False
    let ?s = "n div ?p"
    have ne: "(of_int ?s :: rat) \<noteq> of_int n / 10 ^ nat e"
    proof
      assume "(of_int ?s :: rat) = of_int n / 10 ^ nat e"
      then have "of_int (?s * ?p) = (of_int n :: rat)" using p by (simp add: field_simps)
      then have "?s * ?p = n" by (simp only: of_int_eq_iff)
      with False show False by (metis dvd_triv_right)
    qed
    have le: "?p \<le> n" using pow10_le [OF n(1) e(2)] e(1) k by simp
    have sp: "0 \<le> ?s * ?p" "?s * ?p \<le> n"
    proof -
      show "0 \<le> ?s * ?p" using n(1) p by (simp add: pos_imp_zdiv_nonneg_iff)
      show "?s * ?p \<le> n" using div_mult_mod_eq [of n ?p] pos_mod_sign [OF p, of n] by linarith
    qed
    have sp1: "0 \<le> (?s + 1) * ?p" "(?s + 1) * ?p \<le> 2 * n"
    proof -
      show "0 \<le> (?s + 1) * ?p" using n(1) p by (simp add: pos_imp_zdiv_nonneg_iff)
      have "(?s + 1) * ?p = ?s * ?p + ?p" by (simp add: algebra_simps)
      then show "(?s + 1) * ?p \<le> 2 * n" using sp le by simp
    qed
    have d1: "(of_int (?s * ?p) :: rat) \<noteq> of_int n" using False by (metis dvd_triv_right of_int_eq_iff)
    have d2: "(of_int ((?s + 1) * ?p) :: rat) \<noteq> of_int n" using False by (metis dvd_triv_right of_int_eq_iff)
    have sp2: "?s * ?p \<le> 2 * n" using sp(2) n(1) by linarith
    have r1: "round_dbl (dec_value (?s, e)) \<noteq> Num (of_int n)"
      using exact [OF sp(1) sp2] d1 by (simp add: dec_value_def pw)
    have r2: "round_dbl (dec_value (?s + 1, e)) \<noteq> Num (of_int n)"
      using exact [OF sp1] d2 by (simp add: dec_value_def pw)
    have "dec_bracket (of_int n) k = [(?s, e), (?s + 1, e)]"
    proof -
      have "\<forall>m. (of_int n :: rat) / 10 ^ nat e \<noteq> of_int m"
        using ne fy by (metis floor_of_int)
      then show ?thesis by (simp add: dec_bracket_def fl e(1)[symmetric] pw fy Let_def)
    qed
    with False r1 r2 show ?thesis by (simp add: choose_digits_def)
  qed
qed


lemma find_digits_int:
  assumes n: "0 < n" "n < 2 ^ 49"
  shows "1 \<le> k \<Longrightarrow> int k \<le> ilog 10 n + 1 \<Longrightarrow>
         \<exists>e. 0 \<le> e \<and> 10 ^ nat e dvd n \<and> find_digits (of_int n) k = Some (n div 10 ^ nat e, e)"
proof (induction "nat (ilog 10 n + 1 - int k)" arbitrary: k rule: less_induct)
  case less
  let ?e = "ilog 10 n + 1 - int k"
  have k17: "\<not> 17 < k" using less.prems(2) ilog_small [OF n] by linarith
  have cd: "choose_digits (of_int n) k = (if 10 ^ nat ?e dvd n then Some (n div 10 ^ nat ?e, ?e) else None)"
    using less.prems by (intro choose_digits_int [OF n]) simp_all
  show ?case
  proof (cases "10 ^ nat ?e dvd n")
    case True
    with cd k17 less.prems(2) show ?thesis
      by (subst find_digits.simps) auto
  next
    case False
    then have "?e \<noteq> 0" by auto
    with less.prems have k1: "int (Suc k) \<le> ilog 10 n + 1" by simp
    then have "nat (ilog 10 n + 1 - int (Suc k)) < nat ?e" by simp
    from less.hyps [OF this _ k1] obtain e where
      "0 \<le> e" "10 ^ nat e dvd n" "find_digits (of_int n) (Suc k) = Some (n div 10 ^ nat e, e)"
      by auto
    with cd False k17 show ?thesis
      by (subst find_digits.simps) auto
  qed
qed

lemma strip_zeros_int:
  "0 < m \<Longrightarrow> 0 \<le> e \<Longrightarrow> strip_zeros (m, e) = (m', e') \<Longrightarrow>
   m' * 10 ^ nat e' = m * 10 ^ nat e \<and> 0 < m' \<and> \<not> 10 dvd m' \<and> 0 \<le> e'"
proof (induction "(m, e)" arbitrary: m e rule: strip_zeros.induct)
  case (1 m e)
  show ?case
  proof (cases "m mod 10 = 0")
    case True
    then have m: "m = (m div 10) * 10" and pos: "0 < m div 10"
      using "1.prems"(1) by (auto simp: pos_imp_zdiv_pos_iff)
    have "strip_zeros (m div 10, e + 1) = (m', e')"
      using "1.prems" True by (subst (asm) strip_zeros.simps) simp
    from "1.hyps" [OF _ pos _ this] "1.prems" True
    have "m' * 10 ^ nat e' = m div 10 * 10 ^ nat (e + 1)" "0 < m'" "\<not> 10 dvd m'" "0 \<le> e'"
      by auto
    moreover have "m div 10 * 10 ^ nat (e + 1) = m * 10 ^ nat e"
      using "1.prems"(2) m by (simp add: nat_add_distrib)
    ultimately show ?thesis by simp
  next
    case False
    with "1.prems" strip_zeros.simps [of m e] show ?thesis
      by (auto simp: dvd_eq_mod_eq_0)
  qed
qed

lemma digit_char_0: "digit_char 0 = CHR ''0''"
  unfolding digit_char_def by code_simp

lemma digits_of_int_shift:
  "0 < x \<Longrightarrow> digits_of_int (x * 10 ^ j) = digits_of_int x @ replicate j (CHR ''0'')"
proof (induction j)
  case (Suc j)
  have "0 < x * 10 ^ j" using Suc.prems by simp
  then have "10 \<le> x * 10 ^ j * 10" by linarith
  then have "digits_of_int (x * 10 ^ Suc j) = digits_of_int (x * 10 ^ j) @ [digit_char 0]"
    by (subst digits_of_int.simps) (simp add: mult.commute mult.left_commute)
  with Suc show ?case by (simp add: digit_char_0 replicate_append_same)
qed simp

lemma js_num_str_int:
  assumes "0 \<le> n" "n < 2 ^ 49"
  shows "js_num_str (Num (of_int n)) = digits_of_int n"
proof (cases "n = 0")
  case True
  then show ?thesis
    by (simp add: js_num_str_def digits_of_int.simps digit_char_0)
next
  case False
  with assms have n: "0 < n" "n < 2 ^ 49" by simp_all
  obtain e where e: "0 \<le> e" "10 ^ nat e dvd n" "find_digits (of_int n) 1 = Some (n div 10 ^ nat e, e)"
    using find_digits_int [OF n, of 1] ilog_nonneg [of 10 n] by auto
  have pos: "0 < n div 10 ^ nat e"
    using e(2) n(1) by (auto simp: pos_imp_zdiv_pos_iff zdvd_imp_le)
  obtain m' e' where st: "strip_zeros (n div 10 ^ nat e, e) = (m', e')" by fastforce
  from strip_zeros_int [OF pos e(1) st] e(2)
  have m': "m' * 10 ^ nat e' = n" "0 < m'" "0 \<le> e'" by auto
  have dn: "digits_of_int n = digits_of_int m' @ replicate (nat e') (CHR ''0'')"
    using digits_of_int_shift [OF m'(2), of "nat e'"] m'(1) by simp
  have len: "length (digits_of_int n) = nat (ilog 10 n) + 1"
    using n(1) by (simp add: length_digits_of_int)
  have "nat (ilog 10 n) + 1 \<le> 21" using ilog_small [OF n] by simp
  with len dn m'(3) have small: "e' + int (length (digits_of_int m')) \<le> 21" by simp
  show ?thesis
    using n(1) e(3) st small m'(3) dn
    by (simp add: js_num_str_def num_str_pos_def shortest_digits_def render_decimal_def Let_def)
qed

end
