(* ===== verification/Grammar.thy ===== *)
theory Grammar
  imports Regex Js_String
begin

text \<open>
  The color grammar of colorful.js (src/src/colorful.js, lines 191-359): the
  pattern strings \<open>_rxFraction\<close>, \<open>rxAlpha\<close> and the channel patterns as values of
  the pattern syntax of \<open>Regex\<close>, \<open>buildColorRx\<close>, which assembles a full pattern
  from a prefix, a channel pattern and an alpha flag, \<open>matchColor\<close>, which
  applies it with \<open>String.prototype.match\<close>, and the four \<open>get...Data\<close> helpers
  that turn the captured channel strings into numbers.  A result
  \<open>{isMatch, rgb, a}\<close> is \<open>None\<close> when \<open>isMatch\<close> is false (the other fields are
  then \<open>null\<close> and never read) and \<open>Some (rgb, a)\<close> otherwise; a capture is
  \<open>None\<close> when the group is \<open>undefined\<close>.
\<close>

section \<open>Pattern constants\<close>

text \<open>\<open>_rxFraction = "(?:1(?:\.0+)?|0?\.\d+|0)"\<close>\<close>

definition rx_fraction :: rx where
  "rx_fraction = rx_alts
     [RSeq (rx_chr (CHR ''1'')) (rx_opt (RSeq (rx_chr (CHR ''.'')) (rx_plus (rx_chr (CHR ''0''))))),
      rx_seq [rx_opt (rx_chr (CHR ''0'')), rx_chr (CHR ''.''), rx_plus rx_digit],
      rx_chr (CHR ''0'')]"

text \<open>\<open>rxAlpha = "(" + _rxFraction + ")"\<close>; \<open>rxOptionalAlpha\<close>, the same with a
  \<open>?\<close>, is declared by the source but never used.\<close>

definition rx_alpha :: rx where
  "rx_alpha = RCap rx_fraction"

definition rx_optional_alpha :: rx where
  "rx_optional_alpha = RCap (rx_opt rx_fraction)"

text \<open>\<open>"(255|25[0-4]|2[0-4]\d|(?:[0-1]?\d)?\d)"\<close>\<close>

definition rx_channel_base256_body :: rx where
  "rx_channel_base256_body = rx_alts
     [rx_str ''255'',
      RSeq (rx_str ''25'') (rx_range (CHR ''0'') (CHR ''4'')),
      rx_seq [rx_chr (CHR ''2''), rx_range (CHR ''0'') (CHR ''4''), rx_digit],
      RSeq (rx_opt (RSeq (rx_opt (rx_range (CHR ''0'') (CHR ''1''))) rx_digit)) rx_digit]"

definition rx_rgb_channel_base256 :: rx where
  "rx_rgb_channel_base256 = RCap rx_channel_base256_body"

text \<open>\<open>"(100(?:\.0+)?|\d{0,2}(?:\.\d+)|\d{1,2})\s*%"\<close>\<close>

definition rx_channel_percent_body :: rx where
  "rx_channel_percent_body = rx_alts
     [RSeq (rx_str ''100'') (rx_opt (RSeq (rx_chr (CHR ''.'')) (rx_plus (rx_chr (CHR ''0''))))),
      RSeq (RRep rx_digit 0 (Some 2)) (RSeq (rx_chr (CHR ''.'')) (rx_plus rx_digit)),
      RRep rx_digit 1 (Some 2)]"

definition rx_rgb_channel_percent :: rx where
  "rx_rgb_channel_percent =
     rx_seq [RCap rx_channel_percent_body, rx_star rx_space, rx_chr (CHR ''%'')]"

text \<open>\<open>"([a-f\d]{2})"\<close>, \<open>"([A-F\d]{2})"\<close>, \<open>"([a-f\d])"\<close>, \<open>"([A-F\d])"\<close>\<close>

definition rx_rgb_channel_hex_lc :: rx where
  "rx_rgb_channel_hex_lc = RCap (RRep (RChar is_hex_lc) 2 (Some 2))"

definition rx_rgb_channel_hex_uc :: rx where
  "rx_rgb_channel_hex_uc = RCap (RRep (RChar is_hex_uc) 2 (Some 2))"

definition rx_rgb_channel_short_hex_lc :: rx where
  "rx_rgb_channel_short_hex_lc = RCap (RChar is_hex_lc)"

definition rx_rgb_channel_short_hex_uc :: rx where
  "rx_rgb_channel_short_hex_uc = RCap (RChar is_hex_uc)"

section \<open>buildColorRx\<close>

text \<open>\<open>"^\s*" + prefix + rxChannels.join(channelSeparator) + suffix + "\s*$"\<close>,
  where a prefix other than \<open>#\<close> is followed by \<open>"\s*\(\s*"\<close>, the separator is
  \<open>"\s*,\s*"\<close> and the suffix \<open>"\s*\)"\<close> (both empty for \<open>#\<close>), and the channels
  are three copies of the channel pattern and, with \<open>withAlpha\<close>, \<open>rxAlpha\<close>.\<close>

definition build_color_rx :: "string \<Rightarrow> rx \<Rightarrow> bool \<Rightarrow> rx" where
  "build_color_rx prefix rx_rgb_channel with_alpha =
     (let is_hex = (prefix = ''#'');
          channel_separator = (if is_hex then REmpty
                               else rx_seq [rx_star rx_space, rx_chr (CHR '',''), rx_star rx_space]);
          suffix = (if is_hex then REmpty else RSeq (rx_star rx_space) (rx_chr (CHR '')'')));
          rx_channels = [rx_rgb_channel, rx_rgb_channel, rx_rgb_channel]
                        @ (if with_alpha then [rx_alpha] else []);
          prefix' = (if is_hex then rx_str prefix
                     else rx_seq [rx_str prefix, rx_star rx_space, rx_chr (CHR ''(''), rx_star rx_space])
      in rx_seq [RBol, rx_star rx_space, prefix', rx_join channel_separator rx_channels, suffix,
                 rx_star rx_space, REol])"

definition rx_hex_lc :: rx where "rx_hex_lc = build_color_rx ''#'' rx_rgb_channel_hex_lc False"
definition rx_hex_uc :: rx where "rx_hex_uc = build_color_rx ''#'' rx_rgb_channel_hex_uc False"
definition rx_hex_short_lc :: rx where
  "rx_hex_short_lc = build_color_rx ''#'' rx_rgb_channel_short_hex_lc False"
definition rx_hex_short_uc :: rx where
  "rx_hex_short_uc = build_color_rx ''#'' rx_rgb_channel_short_hex_uc False"
definition rx_rgb_base256 :: rx where
  "rx_rgb_base256 = build_color_rx ''rgb'' rx_rgb_channel_base256 False"
definition rx_rgba_base256 :: rx where
  "rx_rgba_base256 = build_color_rx ''rgba'' rx_rgb_channel_base256 True"
definition rx_rgb_percent :: rx where
  "rx_rgb_percent = build_color_rx ''rgb'' rx_rgb_channel_percent False"
definition rx_rgba_percent :: rx where
  "rx_rgba_percent = build_color_rx ''rgba'' rx_rgb_channel_percent True"
definition rx_ag_color :: rx where
  "rx_ag_color = build_color_rx ''AgColor'' rx_alpha True"

section \<open>matchColor and the data helpers\<close>

type_synonym match_data = "(string option list \<times> string option) option"
type_synonym color_data = "(jsnum list \<times> string option) option"

definition match_color :: "string \<Rightarrow> rx \<Rightarrow> match_data" where
  "match_color color r =
     (case rx_exec r color of
        None \<Rightarrow> None
      | Some (_, _, caps) \<Rightarrow> Some ([caps 1, caps 2, caps 3], caps 4))"

text \<open>\<open>if ( !data.isMatch ) data = ...\<close>\<close>

definition or_else :: "'a option \<Rightarrow> 'a option \<Rightarrow> 'a option" where
  "or_else a b = (case a of None \<Rightarrow> b | Some x \<Rightarrow> Some x)"

text \<open>A capture used as a string (\<open>ToString(undefined)\<close> is \<open>"undefined"\<close>) and
  as a number (\<open>ToNumber(undefined)\<close> is \<open>NaN\<close>).\<close>

definition tok_str :: "string option \<Rightarrow> string" where
  "tok_str v = (case v of None \<Rightarrow> ''undefined'' | Some s \<Rightarrow> s)"

definition tok_num :: "string option \<Rightarrow> jsnum" where
  "tok_num v = (case v of None \<Rightarrow> NaN | Some s \<Rightarrow> js_str_to_num s)"

definition get_hex_data :: "string \<Rightarrow> color_data" where
  "get_hex_data color =
     (let data = or_else (match_color color rx_hex_lc) (match_color color rx_hex_uc);
          data = or_else data
                   (map_option (\<lambda>(rgb, a). (map (\<lambda>v. Some (tok_str v @ tok_str v)) rgb, a))
                      (or_else (match_color color rx_hex_short_lc) (match_color color rx_hex_short_uc)))
      in map_option (\<lambda>(rgb, a). (map (\<lambda>v. js_parse_int16 (tok_str v)) rgb, a)) data)"

definition get_base256_data :: "string \<Rightarrow> color_data" where
  "get_base256_data color =
     map_option (\<lambda>(rgb, a). (map tok_num rgb, a))
       (or_else (match_color color rx_rgb_base256) (match_color color rx_rgba_base256))"

definition get_percent_data :: "string \<Rightarrow> color_data" where
  "get_percent_data color =
     map_option (\<lambda>(rgb, a). (map (\<lambda>v. js_div (js_mul (tok_num v) (Num 255)) (Num 100)) rgb, a))
       (or_else (match_color color rx_rgb_percent) (match_color color rx_rgba_percent))"

definition get_ag_color_data :: "string \<Rightarrow> color_data" where
  "get_ag_color_data color =
     map_option (\<lambda>(rgb, a). (map (\<lambda>v. js_mul (tok_num v) (Num 255)) rgb, a))
       (match_color color rx_ag_color)"

section \<open>Well-formed channel data\<close>

text \<open>The invariant of the data a helper returns: three channels between 0
  and 255 and, if present, an alpha string that reads as a number between 0
  and 1.\<close>

definition channels_ok :: "jsnum list \<times> string option \<Rightarrow> bool" where
  "channels_ok d \<longleftrightarrow> length (fst d) = 3 \<and> list_all (in_range 0 255) (fst d)
     \<and> (case snd d of None \<Rightarrow> True | Some w \<Rightarrow> in_range 0 1 (js_str_to_num w))"

text \<open>The shape of a color pattern: well formed, with three channel groups
  numbered 1 to 3 that every match sets, all with body \<open>b\<close>, and group 4 the
  alpha fraction when the pattern has one.\<close>

definition color_pattern :: "rx \<Rightarrow> rx \<Rightarrow> bool \<Rightarrow> bool" where
  "color_pattern r b al \<longleftrightarrow> rx_wf r \<and> must_cap r 0 1 \<and> must_cap r 0 2 \<and> must_cap r 0 3
     \<and> cap_body r 0 1 = Some b \<and> cap_body r 0 2 = Some b \<and> cap_body r 0 3 = Some b
     \<and> cap_body r 0 4 = (if al then Some rx_fraction else None)"

section \<open>Languages of the channel patterns\<close>

text \<open>Every string a channel pattern accepts is a decimal (or hexadecimal)
  literal whose value lies in the channel's range; read with unary \<open>+\<close> or
  \<open>parseInt\<close>, it gives a number in that range.\<close>

lemma int_of_digits_100: "int_of_digits ''100'' = 100" and int_of_digits_1: "int_of_digits ''1'' = 1"
  and int_of_digits_0: "int_of_digits ''0'' = 0"
  by (simp_all add: int_of_digits_def digit_val_def)

lemma zeros_tail:
  assumes "u \<in> lang (rx_opt (RSeq (rx_chr (CHR ''.'')) (rx_plus (rx_chr (CHR ''0'')))))"
  obtains "u = []" | z where "u = CHR ''.'' # z" "z \<noteq> []" "list_all (\<lambda>c. c = CHR ''0'') z"
proof -
  from lang_opt [OF assms] consider "u = []" | "u \<in> lang (RSeq (rx_chr (CHR ''.'')) (rx_plus (rx_chr (CHR ''0''))))"
    by blast
  then show ?thesis
  proof cases
    case 2
    then obtain z where "u = CHR ''.'' # z" "z \<in> lang (rx_plus (RChar (\<lambda>x. x = CHR ''0'')))"
      by (auto simp: rx_chr_def simp del: lang.simps(4))
    moreover from lang_rep_char [OF this(2)]
    have "list_all (\<lambda>c. c = CHR ''0'') z" "z \<noteq> []" by auto
    ultimately show ?thesis by (intro that(2))
  qed (rule that(1))
qed

text \<open>An integer part followed by a point and zeros has the value of the integer part.\<close>

lemma zeros_value:
  assumes "list_all (\<lambda>c. c = CHR ''0'') z"
  shows "(of_int (int_of_digits (ip @ z)) / 10 ^ length z :: rat) = of_int (int_of_digits ip)"
proof -
  have "(of_int (int_of_digits (ip @ z)) :: rat) = of_int (int_of_digits ip) * 10 ^ length z"
    using int_of_digits_zeros_right [OF assms, of ip] by (simp only: of_int_mult of_int_power of_int_numeral)
  then show ?thesis by simp
qed

lemma all_digits_zeros: "list_all (\<lambda>c. c = CHR ''0'') z \<Longrightarrow> all_digits z"
  unfolding all_digits_def by (induction z) (simp_all add: is_digit_def)

lemma percent_literal:
  assumes "w \<in> lang rx_channel_percent_body"
  shows "\<exists>ip fp. all_digits ip \<and> all_digits fp \<and> ip @ fp \<noteq> []
           \<and> w = ip @ (if fp = [] then [] else CHR ''.'' # fp)
           \<and> of_int (int_of_digits (ip @ fp)) / 10 ^ length fp \<le> (100 :: rat)"
proof -
  from assms consider
      (hundred) u where "w = ''100'' @ u"
        "u \<in> lang (rx_opt (RSeq (rx_chr (CHR ''.'')) (rx_plus (rx_chr (CHR ''0'')))))"
    | (frac) d f where "w = d @ CHR ''.'' # f" "d \<in> lang (RRep (RChar is_digit) 0 (Some 2))"
        "f \<in> lang (RRep (RChar is_digit) 1 None)"
    | (int) "w \<in> lang (RRep (RChar is_digit) 1 (Some 2))"
    by (auto simp: rx_channel_percent_body_def rx_digit_def simp del: lang.simps(4))
  then show ?thesis
  proof cases
    case hundred
    have d100: "all_digits ''100''" by (simp add: all_digits_def is_digit_def)
    from hundred(2) show ?thesis
    proof (cases rule: zeros_tail)
      case 1
      with hundred(1) d100 show ?thesis
        by (intro exI [of _ "''100''"] exI [of _ "[]"]) (simp add: int_of_digits_100)
    next
      case (2 z)
      with hundred(1) d100 have "all_digits ''100'' \<and> all_digits z \<and> ''100'' @ z \<noteq> []
          \<and> w = ''100'' @ (if z = [] then [] else CHR ''.'' # z)
          \<and> of_int (int_of_digits (''100'' @ z)) / 10 ^ length z \<le> (100 :: rat)"
        using zeros_value [OF 2(3), of "''100''"] by (simp add: int_of_digits_100 all_digits_zeros)
      then show ?thesis by blast
    qed
  next
    case frac
    from lang_rep_char [OF frac(2)] lang_rep_char [OF frac(3)]
    have d: "all_digits d" "length d \<le> 2" "all_digits f" "f \<noteq> []"
      by (auto simp: all_digits_def)
    have "int_of_digits d < 10 ^ length d" using int_of_digits_bounds [OF d(1)] by simp
    also have "(10::int) ^ length d \<le> 100"
      using d(2) power_increasing [of "length d" 2 "10::int"] by simp
    finally have "int_of_digits d < 100" .
    from decimal_value_less [OF d(1) d(3) this] d frac(1)
    have "all_digits d \<and> all_digits f \<and> d @ f \<noteq> [] \<and> w = d @ (if f = [] then [] else CHR ''.'' # f)
          \<and> of_int (int_of_digits (d @ f)) / 10 ^ length f \<le> (100 :: rat)"
      by simp
    then show ?thesis by blast
  next
    case int
    from lang_rep_char [OF int]
    have d: "all_digits w" "length w \<le> 2" "w \<noteq> []" by (auto simp: all_digits_def)
    have "int_of_digits w < 10 ^ length w" using int_of_digits_bounds [OF d(1)] by simp
    also have "(10::int) ^ length w \<le> 100"
      using d(2) power_increasing [of "length w" 2 "10::int"] by simp
    finally have "int_of_digits w < 100" .
    with d show ?thesis
      by (intro exI [of _ w] exI [of _ "[]"]) (simp add: all_digits_def)
  qed
qed

lemma fraction_literal:
  assumes "w \<in> lang rx_fraction"
  shows "\<exists>ip fp. all_digits ip \<and> all_digits fp \<and> ip @ fp \<noteq> []
           \<and> w = ip @ (if fp = [] then [] else CHR ''.'' # fp)
           \<and> of_int (int_of_digits (ip @ fp)) / 10 ^ length fp \<le> (1 :: rat)"
proof -
  from assms consider
      (one) u where "w = ''1'' @ u"
        "u \<in> lang (rx_opt (RSeq (rx_chr (CHR ''.'')) (rx_plus (rx_chr (CHR ''0'')))))"
    | (frac) zp f where "w = zp @ CHR ''.'' # f" "zp \<in> lang (rx_opt (rx_chr (CHR ''0'')))"
        "f \<in> lang (RRep (RChar is_digit) 1 None)"
    | (zero) "w = ''0''"
    by (auto simp: rx_fraction_def rx_digit_def simp del: lang.simps(4))
  then show ?thesis
  proof cases
    case one
    have d1: "all_digits ''1''" by (simp add: all_digits_def is_digit_def)
    from one(2) show ?thesis
    proof (cases rule: zeros_tail)
      case 1
      with one(1) d1 show ?thesis
        by (intro exI [of _ "''1''"] exI [of _ "[]"]) (simp add: int_of_digits_1)
    next
      case (2 z)
      with one(1) d1 have "all_digits ''1'' \<and> all_digits z \<and> ''1'' @ z \<noteq> []
          \<and> w = ''1'' @ (if z = [] then [] else CHR ''.'' # z)
          \<and> of_int (int_of_digits (''1'' @ z)) / 10 ^ length z \<le> (1 :: rat)"
        using zeros_value [OF 2(3), of "''1''"] by (simp add: int_of_digits_1 all_digits_zeros)
      then show ?thesis by blast
    qed
  next
    case frac
    from lang_rep_char [OF frac(3)] have f: "all_digits f" "f \<noteq> []" by (auto simp: all_digits_def)
    from lang_opt [OF frac(2)] have zp: "zp = [] \<or> zp = ''0''" by auto
    then have od: "all_digits zp" "int_of_digits zp < 1"
      by (auto simp: all_digits_def is_digit_def int_of_digits_0)
    from decimal_value_less [OF od(1) f(1) od(2)] od f frac(1)
    have "all_digits zp \<and> all_digits f \<and> zp @ f \<noteq> [] \<and> w = zp @ (if f = [] then [] else CHR ''.'' # f)
          \<and> of_int (int_of_digits (zp @ f)) / 10 ^ length f \<le> (1 :: rat)"
      by simp
    then show ?thesis by blast
  next
    case zero
    then show ?thesis
      by (intro exI [of _ "''0''"] exI [of _ "[]"])
         (simp add: all_digits_def is_digit_def int_of_digits_0)
  qed
qed


lemma base256_digits:
  assumes "w \<in> lang rx_channel_base256_body"
  shows "all_digits w \<and> w \<noteq> [] \<and> int_of_digits w \<le> 255"
  using assms
  by (auto simp: rx_channel_base256_body_def rx_range_def rx_digit_def all_digits_def is_digit_def
                 int_of_digits_def digit_val_def simp del: lang.simps(4) dest!: lang_opt_Suc)

lemma is_double_0: "is_double 0" and is_double_1: "is_double 1" and is_double_100: "is_double 100"
  and is_double_255: "is_double 255" and is_double_25500: "is_double 25500"
  using is_double_int [of 0] is_double_int [of 1] is_double_int [of 100] is_double_int [of 255]
    is_double_int [of 25500]
  by simp_all

lemma base256_value: "w \<in> lang rx_channel_base256_body \<Longrightarrow> in_range 0 255 (js_str_to_num w)"
  using base256_digits [of w] js_str_to_num_in_range [of w "[]" 255] is_double_255 by simp

lemma literal_value:
  assumes "\<exists>ip fp. all_digits ip \<and> all_digits fp \<and> ip @ fp \<noteq> []
             \<and> w = ip @ (if fp = [] then [] else CHR ''.'' # fp)
             \<and> of_int (int_of_digits (ip @ fp)) / 10 ^ length fp \<le> hi" "is_double hi"
  shows "in_range 0 hi (js_str_to_num w)"
  using assms js_str_to_num_in_range by blast

lemma percent_value: "w \<in> lang rx_channel_percent_body \<Longrightarrow> in_range 0 100 (js_str_to_num w)"
  using literal_value [OF percent_literal is_double_100] .

lemma fraction_value: "w \<in> lang rx_fraction \<Longrightarrow> in_range 0 1 (js_str_to_num w)"
  using literal_value [OF fraction_literal is_double_1] .

lemma hex_value:
  assumes "list_all (\<lambda>c. is_hex_lc c \<or> is_hex_uc c) w" "w \<noteq> []" "length w \<le> 2"
  shows "in_range 0 255 (js_parse_int16 w)"
proof -
  have b: "0 \<le> int_of_hex w" "int_of_hex w < 16 ^ length w" using int_of_hex_bounds [OF assms(1)] by auto
  have "(16::int) ^ length w \<le> 16 ^ 2" using assms(3) by (intro power_increasing) auto
  with b have "int_of_hex w \<le> 255" by simp
  with b(1) have "\<bar>int_of_hex w\<bar> < 2 ^ 53" by simp
  with b(1) \<open>int_of_hex w \<le> 255\<close> show ?thesis
    by (simp add: js_parse_int16_hex [OF assms(1,2)] round_dbl_int in_range_def)
qed

text \<open>The captures of a color pattern: three channel groups, and an alpha group
  when the pattern has one.\<close>

lemma match_color_caps:
  assumes "match_color s r = Some (cs, a)" "color_pattern r b al"
  shows "\<exists>w1 w2 w3. cs = [Some w1, Some w2, Some w3] \<and> w1 \<in> lang b \<and> w2 \<in> lang b \<and> w3 \<in> lang b
           \<and> (case a of None \<Rightarrow> True | Some w \<Rightarrow> w \<in> lang rx_fraction)"
proof -
  from assms(1) obtain k m caps where ex: "rx_exec r s = Some (k, m, caps)"
    and cs: "cs = [caps 1, caps 2, caps 3]" and a: "a = caps 4"
    by (auto simp: match_color_def split: option.splits)
  have p: "rx_wf r" "must_cap r 0 1" "must_cap r 0 2" "must_cap r 0 3"
    "cap_body r 0 1 = Some b" "cap_body r 0 2 = Some b" "cap_body r 0 3 = Some b"
    "cap_body r 0 4 = (if al then Some rx_fraction else None)"
    using assms(2) by (simp_all add: color_pattern_def)
  from rx_exec_cap_must [OF ex p(1) p(2) p(5)] rx_exec_cap_must [OF ex p(1) p(3) p(6)]
    rx_exec_cap_must [OF ex p(1) p(4) p(7)]
  obtain w1 w2 w3 where "caps 1 = Some w1" "w1 \<in> lang b" "caps 2 = Some w2" "w2 \<in> lang b"
    "caps 3 = Some w3" "w3 \<in> lang b"
    by blast
  moreover have "case a of None \<Rightarrow> True | Some w \<Rightarrow> w \<in> lang rx_fraction"
  proof (cases a)
    case (Some w)
    with a have "caps 4 = Some w" by simp
    from rx_exec_cap_some [OF ex p(1) this] p(8) Some show ?thesis by (auto split: if_splits)
  qed simp
  ultimately show ?thesis using cs by blast
qed

lemmas pattern_defs = rx_hex_lc_def rx_hex_uc_def rx_hex_short_lc_def rx_hex_short_uc_def
  rx_rgb_base256_def rx_rgba_base256_def rx_rgb_percent_def rx_rgba_percent_def rx_ag_color_def
  build_color_rx_def rx_rgb_channel_base256_def rx_rgb_channel_percent_def rx_rgb_channel_hex_lc_def
  rx_rgb_channel_hex_uc_def rx_rgb_channel_short_hex_lc_def rx_rgb_channel_short_hex_uc_def rx_alpha_def
  rx_space_def rx_digit_def rx_range_def rx_chr_def Let_def

lemma body_structure [simp]:
  "ngroups rx_channel_base256_body = 0" "ngroups rx_channel_percent_body = 0" "ngroups rx_fraction = 0"
  "rx_wf rx_channel_base256_body" "rx_wf rx_channel_percent_body" "rx_wf rx_fraction"
  by (simp_all add: rx_channel_base256_body_def rx_channel_percent_body_def rx_fraction_def
                    rx_digit_def rx_range_def rx_chr_def)

lemma color_patterns:
  "color_pattern rx_hex_lc (RRep (RChar is_hex_lc) 2 (Some 2)) False"
  "color_pattern rx_hex_uc (RRep (RChar is_hex_uc) 2 (Some 2)) False"
  "color_pattern rx_hex_short_lc (RChar is_hex_lc) False"
  "color_pattern rx_hex_short_uc (RChar is_hex_uc) False"
  "color_pattern rx_rgb_base256 rx_channel_base256_body False"
  "color_pattern rx_rgba_base256 rx_channel_base256_body True"
  "color_pattern rx_rgb_percent rx_channel_percent_body False"
  "color_pattern rx_rgba_percent rx_channel_percent_body True"
  "color_pattern rx_ag_color rx_fraction True"
  by (simp_all add: color_pattern_def pattern_defs)

text \<open>A matched color gives three channels converted by \<open>conv\<close> and the alpha
  capture; when \<open>conv\<close> maps every string of the channel language into 0..255,
  the data is well formed.\<close>

lemma match_channels_ok:
  assumes "match_color s r = Some (cs, a)" "color_pattern r b al"
    "\<And>w. w \<in> lang b \<Longrightarrow> in_range 0 255 (conv (Some w))"
  shows "channels_ok (map conv cs, a)"
proof -
  from match_color_caps [OF assms(1,2)] obtain w1 w2 w3 where
    "cs = [Some w1, Some w2, Some w3]" "w1 \<in> lang b" "w2 \<in> lang b" "w3 \<in> lang b"
    "case a of None \<Rightarrow> True | Some w \<Rightarrow> w \<in> lang rx_fraction"
    by blast
  with assms(3) show ?thesis
    by (auto simp: channels_ok_def fraction_value split: option.splits)
qed

lemma get_base256_data_ok: "get_base256_data s = Some d \<Longrightarrow> channels_ok d"
  using match_channels_ok [OF _ color_patterns(5), of s _ _ tok_num]
    match_channels_ok [OF _ color_patterns(6), of s _ _ tok_num]
  by (auto simp: get_base256_data_def or_else_def tok_num_def base256_value split: option.splits)

lemma percent_scaled:
  "w \<in> lang rx_channel_percent_body \<Longrightarrow>
   in_range 0 255 (js_div (js_mul (js_str_to_num w) (Num 255)) (Num 100))"
  using in_range_div [OF in_range_mul [OF percent_value, of w 255], of 100]
    is_double_0 is_double_255 is_double_25500
  by simp

lemma get_percent_data_ok: "get_percent_data s = Some d \<Longrightarrow> channels_ok d"
  using match_channels_ok [OF _ color_patterns(7), of s _ _ "\<lambda>v. js_div (js_mul (tok_num v) (Num 255)) (Num 100)"]
    match_channels_ok [OF _ color_patterns(8), of s _ _ "\<lambda>v. js_div (js_mul (tok_num v) (Num 255)) (Num 100)"]
  by (auto simp: get_percent_data_def or_else_def tok_num_def percent_scaled split: option.splits)

lemma fraction_scaled: "w \<in> lang rx_fraction \<Longrightarrow> in_range 0 255 (js_mul (js_str_to_num w) (Num 255))"
  using in_range_mul [OF fraction_value, of w 255] is_double_0 is_double_255 by simp

lemma get_ag_color_data_ok: "get_ag_color_data s = Some d \<Longrightarrow> channels_ok d"
  using match_channels_ok [OF _ color_patterns(9), of s _ _ "\<lambda>v. js_mul (tok_num v) (Num 255)"]
  by (auto simp: get_ag_color_data_def tok_num_def fraction_scaled split: option.splits)

lemma hex_pair_value:
  "w \<in> lang (RRep (RChar P) 2 (Some 2)) \<Longrightarrow> (\<And>c. P c \<Longrightarrow> is_hex_lc c \<or> is_hex_uc c) \<Longrightarrow>
   in_range 0 255 (js_parse_int16 w)"
  using lang_rep_char [of w P 2 "Some 2"] by (intro hex_value) (auto simp: list_all_iff)

lemma hex_classes: "is_hex_lc c \<Longrightarrow> is_hex_lc c \<or> is_hex_uc c" "is_hex_uc c \<Longrightarrow> is_hex_lc c \<or> is_hex_uc c"
  by simp_all

lemma hex_digit_value:
  "w \<in> lang (RChar P) \<Longrightarrow> (\<And>c. P c \<Longrightarrow> is_hex_lc c \<or> is_hex_uc c) \<Longrightarrow>
   in_range 0 255 (js_parse_int16 (w @ w))"
  by (auto intro: hex_value)

lemma get_hex_data_ok: "get_hex_data s = Some d \<Longrightarrow> channels_ok d"
proof -
  let ?conv = "\<lambda>v. js_parse_int16 (tok_str v)"
  let ?conv2 = "\<lambda>v. js_parse_int16 (tok_str v @ tok_str v)"
  let ?dbl = "\<lambda>v. Some (tok_str v @ tok_str v)"
  have lc: "in_range 0 255 (?conv (Some w))" if "w \<in> lang (RRep (RChar is_hex_lc) 2 (Some 2))" for w
    using hex_pair_value [OF that hex_classes(1)] by (simp add: tok_str_def)
  have uc: "in_range 0 255 (?conv (Some w))" if "w \<in> lang (RRep (RChar is_hex_uc) 2 (Some 2))" for w
    using hex_pair_value [OF that hex_classes(2)] by (simp add: tok_str_def)
  have slc: "in_range 0 255 (?conv2 (Some w))" if "w \<in> lang (RChar is_hex_lc)" for w
    using hex_digit_value [OF that hex_classes(1)] by (simp add: tok_str_def)
  have suc: "in_range 0 255 (?conv2 (Some w))" if "w \<in> lang (RChar is_hex_uc)" for w
    using hex_digit_value [OF that hex_classes(2)] by (simp add: tok_str_def)
  have long: "channels_ok (map ?conv cs, a)"
    if "or_else (match_color s rx_hex_lc) (match_color s rx_hex_uc) = Some (cs, a)" for cs a
    using that match_channels_ok [where conv = "?conv", OF _ color_patterns(1) lc, of s cs a]
      match_channels_ok [where conv = "?conv", OF _ color_patterns(2) uc, of s cs a]
    by (auto simp: or_else_def split: option.splits)
  have short: "channels_ok (map ?conv (map ?dbl cs), a)"
    if "or_else (match_color s rx_hex_short_lc) (match_color s rx_hex_short_uc) = Some (cs, a)" for cs a
  proof -
    have eq: "map ?conv (map ?dbl cs) = map ?conv2 cs" by (simp add: tok_str_def)
    have ok: "channels_ok (map ?conv2 cs, a)"
      using that match_channels_ok [where conv = "?conv2", OF _ color_patterns(3) slc, of s cs a]
        match_channels_ok [where conv = "?conv2", OF _ color_patterns(4) suc, of s cs a]
      by (auto simp: or_else_def split: option.splits)
    show ?thesis unfolding eq by (rule ok)
  qed
  assume "get_hex_data s = Some d"
  then show "channels_ok d"
    using long short
    by (auto simp: get_hex_data_def Let_def or_else_def split: option.splits)
qed

section \<open>buildColorRx patterns are anchored\<close>

lemma rx_wf_str [simp]: "rx_wf (rx_str s)"
  by (induction s rule: rx_str.induct) (simp_all add: rx_chr_def)

lemma build_color_rx_shape:
  "\<exists>a b c. build_color_rx p ch wa = RSeq RBol (rx_seq [rx_star rx_space, a, b, c, rx_star rx_space, REol])"
  by (simp add: build_color_rx_def Let_def)

lemma build_color_rx_wf: "rx_wf ch \<Longrightarrow> rx_wf (build_color_rx p ch wa)"
  by (simp add: build_color_rx_def Let_def rx_space_def rx_chr_def rx_alpha_def)


section \<open>Hexadecimal colours are matched\<close>

text \<open>The matcher run on \<open>#\<close> and hexadecimal digits, computed symbolically:
  the long form is matched by \<open>rxHexLC\<close> with the three digit pairs as groups, the
  short form is rejected by both long patterns and matched by \<open>rxHexShortLC\<close>.\<close>

lemma js_parse_int16_pair:
  "list_all is_hex_lc [x, y] \<Longrightarrow> js_parse_int16 [x, y] = Num (of_int (int_of_hex [x, y]))"
proof -
  assume lc: "list_all is_hex_lc [x, y]"
  then have "0 \<le> int_of_hex [x, y] \<and> int_of_hex [x, y] < 16 ^ 2"
    using int_of_hex_bounds [of "[x, y]"] by auto
  then have "\<bar>int_of_hex [x, y]\<bar> < 2 ^ 53" by simp
  with lc show ?thesis by (simp add: js_parse_int16_hex round_dbl_int)
qed

lemma hex_lc_match:
  assumes "list_all is_hex_lc [a, b, c, d, e, f]"
  shows "rx_exec rx_hex_lc [CHR ''#'', a, b, c, d, e, f]
         = Some (0, [CHR ''#'', a, b, c, d, e, f],
                 ((\<lambda>_. None)(1 := Some [a, b], 2 := Some [c, d], 3 := Some [e, f])))"
  using assms
  by (simp add: rx_exec_def rx_hex_lc_def build_color_rx_def rx_rgb_channel_hex_lc_def rx_space_def
                mt_rep_char_exact mt_star_char_Nil mt_star_char_Cons is_js_space_def numeral_eq_Suc rx_chr_def)

lemma hex_short_no_long_match:
  "rx_exec rx_hex_lc [CHR ''#'', a, b, c] = None" "rx_exec rx_hex_uc [CHR ''#'', a, b, c] = None"
  by (simp_all add: rx_exec_def rx_hex_lc_def rx_hex_uc_def build_color_rx_def rx_rgb_channel_hex_lc_def
      rx_rgb_channel_hex_uc_def rx_space_def mt_rep_char_exact mt_star_char_Nil mt_star_char_Cons
      is_js_space_def numeral_eq_Suc rx_chr_def)

lemma hex_short_lc_match:
  assumes "list_all is_hex_lc [a, b, c]"
  shows "rx_exec rx_hex_short_lc [CHR ''#'', a, b, c]
         = Some (0, [CHR ''#'', a, b, c], ((\<lambda>_. None)(1 := Some [a], 2 := Some [b], 3 := Some [c])))"
  using assms
  by (simp add: rx_exec_def rx_hex_short_lc_def build_color_rx_def rx_rgb_channel_short_hex_lc_def
                rx_space_def mt_star_char_Nil mt_star_char_Cons is_js_space_def rx_chr_def numeral_eq_Suc)

lemma get_hex_data_lc:
  assumes "list_all is_hex_lc [a, b, c, d, e, f]"
  shows "get_hex_data [CHR ''#'', a, b, c, d, e, f] =
           Some ([Num (of_int (int_of_hex [a, b])), Num (of_int (int_of_hex [c, d])),
                  Num (of_int (int_of_hex [e, f]))], None)"
proof -
  from assms show ?thesis
    by (simp add: get_hex_data_def match_color_def hex_lc_match or_else_def tok_str_def js_parse_int16_pair)
qed

lemma get_hex_data_short_lc:
  assumes "list_all is_hex_lc [a, b, c]"
  shows "get_hex_data [CHR ''#'', a, b, c] =
           Some ([Num (of_int (int_of_hex [a, a])), Num (of_int (int_of_hex [b, b])),
                  Num (of_int (int_of_hex [c, c]))], None)"
proof -
  from assms show ?thesis
    by (simp add: get_hex_data_def match_color_def hex_short_no_long_match hex_short_lc_match
                  or_else_def tok_str_def js_parse_int16_pair)
qed


section \<open>The colour patterns decide their languages\<close>

lemma no_anchor_str [simp]: "no_anchor (rx_str s)"
  by (induction s rule: rx_str.induct) (simp_all add: rx_chr_def)

lemma build_color_rx_parts:
  "\<exists>a b c. build_color_rx p ch wa = RSeq RBol (rx_seq ([rx_star rx_space, a, b, c, rx_star rx_space] @ [REol]))
     \<and> (no_anchor ch \<longrightarrow> list_all no_anchor [rx_star rx_space, a, b, c, rx_star rx_space])
     \<and> (rx_wf ch \<longrightarrow> list_all rx_wf [rx_star rx_space, a, b, c, rx_star rx_space])"
  by (simp add: build_color_rx_def Let_def rx_space_def rx_chr_def rx_alpha_def rx_fraction_def
                rx_digit_def)

text \<open>A match of a colour pattern starts at index 0 and spans the whole input,
  which is in the pattern's language.\<close>

lemma build_color_rx_exec:
  assumes "rx_exec (build_color_rx p ch wa) s = Some (k, m, caps)" and "rx_wf ch"
  shows "k = 0 \<and> m = s \<and> s \<in> lang (build_color_rx p ch wa)"
proof -
  let ?r = "build_color_rx p ch wa"
  from exec_at_match [of ?r 0 s k m caps] assms build_color_rx_wf [OF assms(2)]
  obtain j t where mt: "(j, t, caps) \<in> set (mt ?r 0 k (drop k s) (\<lambda>_. None))"
    and d: "drop k s = m @ t" and l: "m \<in> lang ?r"
    by (auto simp: rx_exec_def)
  from build_color_rx_shape obtain a b c where
    r: "?r = RSeq RBol (rx_seq [rx_star rx_space, a, b, c, rx_star rx_space, REol])"
    by blast
  from mt r have k: "k = 0" by (metis mt_bol_first)
  from mt_seqE [OF mt [unfolded r]] obtain j1 t1 d1 where
    "(j, t, caps) \<in> set (mt (rx_seq [rx_star rx_space, a, b, c, rx_star rx_space, REol])
                             (0 + ngroups RBol) j1 t1 d1)"
    by blast
  then have "t = []" by (rule mt_eol_last [rotated 2]) simp_all
  with d k l show ?thesis by simp
qed

text \<open>Every string of a colour pattern's language is matched.\<close>

lemma build_color_rx_complete:
  assumes "rx_wf ch" "no_anchor ch" "s \<in> lang (build_color_rx p ch wa)"
  shows "rx_exec (build_color_rx p ch wa) s \<noteq> None"
proof -
  from build_color_rx_parts [of p ch wa] assms(1,2) obtain rs where
    r: "build_color_rx p ch wa = RSeq RBol (rx_seq (rs @ [REol]))"
    and na: "list_all no_anchor rs" and wf: "list_all rx_wf rs"
    by blast
  from assms(3) have "s \<in> lang (rx_seq (rs @ [REol]))" by (simp add: r)
  from mt_complete_eol [OF na wf this, of 0 0 "\<lambda>_. None"] obtain d where
    "(length s, [], d) \<in> set (mt (rx_seq (rs @ [REol])) 0 0 s (\<lambda>_. None))" by auto
  then have "mt (build_color_rx p ch wa) 0 0 s (\<lambda>_. None) \<noteq> []" by (auto simp: r)
  then show ?thesis by (auto simp: rx_exec_def split: list.split)
qed


text \<open>Every match of \<open>rxAgColor\<close> sets the alpha group: the pattern is built with
  \<open>withAlpha\<close>.\<close>

lemma ag_color_alpha_group: "must_cap rx_ag_color 0 4"
  by (simp add: rx_ag_color_def build_color_rx_def Let_def rx_alpha_def rx_space_def rx_chr_def
                rx_fraction_def rx_digit_def)

end
