(* ===== verification/Js_Value.thy ===== *)
theory Js_Value
  imports Js_String
begin

text \<open>
  The JavaScript values that reach colorful.js from its callers (the argument of
  \<open>Color\<close>, of \<open>equals\<close> and \<open>strictlyEquals\<close>, the \<open>options\<close> objects) and the
  conversions the source applies to them: ToString (string concatenation and
  \<open>Array.prototype.join\<close>), ToNumber (unary \<open>+\<close> and arithmetic), ToBoolean
  (\<open>&&\<close>, \<open>||\<close>, \<open>if\<close>), property access, and the binary \<open>+\<close> whose result is a
  string when an operand is one.  Plain objects are association lists of their
  own enumerable properties in insertion order, without getters or own
  \<open>valueOf\<close>/\<open>toString\<close>; a Color object carries its \<open>_input\<close> and
  \<open>_rawColor\<close>.  The raw color \<open>{r, g, b, a}\<close> of a Color is the record
  \<open>raw_color\<close>.
\<close>

record raw_color =
  raw_r :: jsnum
  raw_g :: jsnum
  raw_b :: jsnum
  raw_a :: jsnum

datatype jsval =
    JUndefined
  | JNull
  | JBool bool
  | JNumber jsnum
  | JString string
  | JArray "jsval list"
  | JObject "(string \<times> jsval) list"
  | JColor jsval "raw_color option"   \<comment> \<open>a \<open>Color\<close>: \<open>_input\<close> and \<open>_rawColor\<close>\<close>

fun js_join_with :: "string \<Rightarrow> string list \<Rightarrow> string" where
  "js_join_with sep [] = []"
| "js_join_with sep [x] = x"
| "js_join_with sep (x # xs) = x @ sep @ js_join_with sep xs"

text \<open>ToString; an array is converted by \<open>join(",")\<close>, which writes
  \<open>undefined\<close> and \<open>null\<close> elements as empty strings.\<close>

fun js_to_string :: "jsval \<Rightarrow> string" where
  "js_to_string JUndefined = ''undefined''"
| "js_to_string JNull = ''null''"
| "js_to_string (JBool b) = (if b then ''true'' else ''false'')"
| "js_to_string (JNumber n) = js_num_str n"
| "js_to_string (JString s) = s"
| "js_to_string (JArray xs) =
     js_join_with '','' (map (\<lambda>x. case x of JUndefined \<Rightarrow> [] | JNull \<Rightarrow> [] | _ \<Rightarrow> js_to_string x) xs)"
| "js_to_string (JObject _) = ''[object Object]''"
| "js_to_string (JColor _ _) = ''[object Object]''"

definition js_elem_str :: "jsval \<Rightarrow> string" where
  "js_elem_str x = (case x of JUndefined \<Rightarrow> [] | JNull \<Rightarrow> [] | _ \<Rightarrow> js_to_string x)"

text \<open>\<open>Array.prototype.join(sep)\<close>\<close>

definition js_join :: "string \<Rightarrow> jsval list \<Rightarrow> string" where
  "js_join sep xs = js_join_with sep (map js_elem_str xs)"

text \<open>ToNumber; objects convert through ToPrimitive, that is through their
  string form.\<close>

fun js_to_number :: "jsval \<Rightarrow> jsnum" where
  "js_to_number JUndefined = NaN"
| "js_to_number JNull = Num 0"
| "js_to_number (JBool b) = Num (if b then 1 else 0)"
| "js_to_number (JNumber n) = n"
| "js_to_number (JString s) = js_str_to_num s"
| "js_to_number v = js_str_to_num (js_to_string v)"

text \<open>ToBoolean\<close>

fun js_truthy_val :: "jsval \<Rightarrow> bool" where
  "js_truthy_val JUndefined = False"
| "js_truthy_val JNull = False"
| "js_truthy_val (JBool b) = b"
| "js_truthy_val (JNumber n) = js_truthy n"
| "js_truthy_val (JString s) = (s \<noteq> [])"
| "js_truthy_val _ = True"

text \<open>\<open>x && y\<close> and \<open>x || y\<close> return one of their operands.\<close>

definition js_and :: "jsval \<Rightarrow> jsval \<Rightarrow> jsval" where
  "js_and x y = (if js_truthy_val x then y else x)"

definition js_or :: "jsval \<Rightarrow> jsval \<Rightarrow> jsval" where
  "js_or x y = (if js_truthy_val x then x else y)"

text \<open>\<open>o.k\<close>: an own property of a plain object; the option names the source
  reads (\<open>prefix\<close>, \<open>upperCase\<close>, \<open>lowerCase\<close>, \<open>precision\<close>, \<open>tolerance\<close>) are
  \<open>undefined\<close> on every other value.\<close>

fun get_prop :: "jsval \<Rightarrow> string \<Rightarrow> jsval" where
  "get_prop (JObject kvs) k = (case map_of kvs k of Some v \<Rightarrow> v | None \<Rightarrow> JUndefined)"
| "get_prop _ k = JUndefined"

text \<open>\<open>x + v\<close> for a number \<open>x\<close>: string concatenation when \<open>v\<close> is (or converts
  to) a string, numeric addition otherwise.\<close>

fun js_plus_num :: "jsnum \<Rightarrow> jsval \<Rightarrow> jsval" where
  "js_plus_num x (JString s) = JString (js_num_str x @ s)"
| "js_plus_num x (JArray xs) = JString (js_num_str x @ js_to_string (JArray xs))"
| "js_plus_num x (JObject kvs) = JString (js_num_str x @ js_to_string (JObject kvs))"
| "js_plus_num x (JColor i c) = JString (js_num_str x @ js_to_string (JColor i c))"
| "js_plus_num x v = JNumber (js_add x (js_to_number v))"

text \<open>\<open>x <= v\<close> and \<open>x >= v\<close> for a number \<open>x\<close>: a comparison of numbers after
  ToNumber of \<open>v\<close>, false when either is \<open>NaN\<close>.\<close>

definition js_le_val :: "jsnum \<Rightarrow> jsval \<Rightarrow> bool" where
  "js_le_val x v = js_le x (js_to_number v)"

definition js_ge_val :: "jsnum \<Rightarrow> jsval \<Rightarrow> bool" where
  "js_ge_val x v = js_le (js_to_number v) x"

lemma js_to_string_array: "js_to_string (JArray xs) = js_join '','' xs"
  by (simp add: js_join_def js_elem_str_def [abs_def])

end
