(* ===== verification/Parse.thy ===== *)
theory Parse
  imports Grammar Js_Value
begin

text \<open>
  Color parsing (src/src/colorful.js): the table \<open>CssColorNames\<close> (lines 40-189)
  and \<open>parseColor\<close> (lines 362-415).  \<open>parseColor\<close> accepts a Color (its raw
  color is copied), an array of 3 or 4 values or an object with keys \<open>r\<close>,
  \<open>g\<close>, \<open>b\<close> (and \<open>a\<close>), both written into an \<open>rgb(...)\<close>/\<open>rgba(...)\<close> string
  and parsed as one, and a string: a CSS color name, \<open>transparent\<close> in any
  case, or a string matched by the grammar (hex, base-256 \<open>rgb\<close>/\<open>rgba\<close>,
  percent \<open>rgb\<close>/\<open>rgba\<close>, \<open>AgColor\<close>, tried in that order).  The result is the
  raw color, or \<open>None\<close> for \<open>undefined\<close>.

  \<open>CssColorNames\<close> is an object literal, so the lookup \<open>CssColorNames[color]\<close>
  also finds the properties every object inherits from \<open>Object.prototype\<close>; they
  are truthy and have no elements \<open>0\<close>, \<open>1\<close>, \<open>2\<close>, so \<open>_.object\<close> makes the three
  channels \<open>undefined\<close>.  A channel that is \<open>undefined\<close> is represented by
  \<open>NaN\<close>: every use of a channel in the source converts it with ToNumber
  (arithmetic or \<open>Math.round\<close>), which maps \<open>undefined\<close> to \<open>NaN\<close>.
\<close>

section \<open>CssColorNames\<close>

definition css_color_names :: "(string \<times> int list) list" where
  "css_color_names =
    [(''aliceblue'', [240, 248, 255])
    ,(''antiquewhite'', [250, 235, 215])
    ,(''aqua'', [0, 255, 255])
    ,(''aquamarine'', [127, 255, 212])
    ,(''azure'', [240, 255, 255])
    ,(''beige'', [245, 245, 220])
    ,(''bisque'', [255, 228, 196])
    ,(''black'', [0, 0, 0])
    ,(''blanchedalmond'', [255, 235, 205])
    ,(''blue'', [0, 0, 255])
    ,(''blueviolet'', [138, 43, 226])
    ,(''brown'', [165, 42, 42])
    ,(''burlywood'', [222, 184, 135])
    ,(''cadetblue'', [95, 158, 160])
    ,(''chartreuse'', [127, 255, 0])
    ,(''chocolate'', [210, 105, 30])
    ,(''coral'', [255, 127, 80])
    ,(''cornflowerblue'', [100, 149, 237])
    ,(''cornsilk'', [255, 248, 220])
    ,(''crimson'', [220, 20, 60])
    ,(''cyan'', [0, 255, 255])
    ,(''darkblue'', [0, 0, 139])
    ,(''darkcyan'', [0, 139, 139])
    ,(''darkgoldenrod'', [184, 134, 11])
    ,(''darkgray'', [169, 169, 169])
    ,(''darkgreen'', [0, 100, 0])
    ,(''darkgrey'', [169, 169, 169])
    ,(''darkkhaki'', [189, 183, 107])
    ,(''darkmagenta'', [139, 0, 139])
    ,(''darkolivegreen'', [85, 107, 47])
    ,(''darkorange'', [255, 140, 0])
    ,(''darkorchid'', [153, 50, 204])
    ,(''darkred'', [139, 0, 0])
    ,(''darksalmon'', [233, 150, 122])
    ,(''darkseagreen'', [143, 188, 143])
    ,(''darkslateblue'', [72, 61, 139])
    ,(''darkslategray'', [47, 79, 79])
    ,(''darkslategrey'', [47, 79, 79])
    ,(''darkturquoise'', [0, 206, 209])
    ,(''darkviolet'', [148, 0, 211])
    ,(''deeppink'', [255, 20, 147])
    ,(''deepskyblue'', [0, 191, 255])
    ,(''dimgray'', [105, 105, 105])
    ,(''dimgrey'', [105, 105, 105])
    ,(''dodgerblue'', [30, 144, 255])
    ,(''firebrick'', [178, 34, 34])
    ,(''floralwhite'', [255, 250, 240])
    ,(''forestgreen'', [34, 139, 34])
    ,(''fuchsia'', [255, 0, 255])
    ,(''gainsboro'', [220, 220, 220])
    ,(''ghostwhite'', [248, 248, 255])
    ,(''gold'', [255, 215, 0])
    ,(''goldenrod'', [218, 165, 32])
    ,(''gray'', [128, 128, 128])
    ,(''green'', [0, 128, 0])
    ,(''greenyellow'', [173, 255, 47])
    ,(''grey'', [128, 128, 128])
    ,(''honeydew'', [240, 255, 240])
    ,(''hotpink'', [255, 105, 180])
    ,(''indianred'', [205, 92, 92])
    ,(''indigo'', [75, 0, 130])
    ,(''ivory'', [255, 255, 240])
    ,(''khaki'', [240, 230, 140])
    ,(''lavender'', [230, 230, 250])
    ,(''lavenderblush'', [255, 240, 245])
    ,(''lawngreen'', [124, 252, 0])
    ,(''lemonchiffon'', [255, 250, 205])
    ,(''lightblue'', [173, 216, 230])
    ,(''lightcoral'', [240, 128, 128])
    ,(''lightcyan'', [224, 255, 255])
    ,(''lightgoldenrodyellow'', [250, 250, 210])
    ,(''lightgray'', [211, 211, 211])
    ,(''lightgreen'', [144, 238, 144])
    ,(''lightgrey'', [211, 211, 211])
    ,(''lightpink'', [255, 182, 193])
    ,(''lightsalmon'', [255, 160, 122])
    ,(''lightseagreen'', [32, 178, 170])
    ,(''lightskyblue'', [135, 206, 250])
    ,(''lightslategray'', [119, 136, 153])
    ,(''lightslategrey'', [119, 136, 153])
    ,(''lightsteelblue'', [176, 196, 222])
    ,(''lightyellow'', [255, 255, 224])
    ,(''lime'', [0, 255, 0])
    ,(''limegreen'', [50, 205, 50])
    ,(''linen'', [250, 240, 230])
    ,(''magenta'', [255, 0, 255])
    ,(''maroon'', [128, 0, 0])
    ,(''mediumaquamarine'', [102, 205, 170])
    ,(''mediumblue'', [0, 0, 205])
    ,(''mediumorchid'', [186, 85, 211])
    ,(''mediumpurple'', [147, 112, 219])
    ,(''mediumseagreen'', [60, 179, 113])
    ,(''mediumslateblue'', [123, 104, 238])
    ,(''mediumspringgreen'', [0, 250, 154])
    ,(''mediumturquoise'', [72, 209, 204])
    ,(''mediumvioletred'', [199, 21, 133])
    ,(''midnightblue'', [25, 25, 112])
    ,(''mintcream'', [245, 255, 250])
    ,(''mistyrose'', [255, 228, 225])
    ,(''moccasin'', [255, 228, 181])
    ,(''navajowhite'', [255, 222, 173])
    ,(''navy'', [0, 0, 128])
    ,(''oldlace'', [253, 245, 230])
    ,(''olive'', [128, 128, 0])
    ,(''olivedrab'', [107, 142, 35])
    ,(''orange'', [255, 165, 0])
    ,(''orangered'', [255, 69, 0])
    ,(''orchid'', [218, 112, 214])
    ,(''palegoldenrod'', [238, 232, 170])
    ,(''palegreen'', [152, 251, 152])
    ,(''paleturquoise'', [175, 238, 238])
    ,(''palevioletred'', [219, 112, 147])
    ,(''papayawhip'', [255, 239, 213])
    ,(''peachpuff'', [255, 218, 185])
    ,(''peru'', [205, 133, 63])
    ,(''pink'', [255, 192, 203])
    ,(''plum'', [221, 160, 221])
    ,(''powderblue'', [176, 224, 230])
    ,(''purple'', [128, 0, 128])
    ,(''rebeccapurple'', [102, 51, 153])
    ,(''red'', [255, 0, 0])
    ,(''rosybrown'', [188, 143, 143])
    ,(''royalblue'', [65, 105, 225])
    ,(''saddlebrown'', [139, 69, 19])
    ,(''salmon'', [250, 128, 114])
    ,(''sandybrown'', [244, 164, 96])
    ,(''seagreen'', [46, 139, 87])
    ,(''seashell'', [255, 245, 238])
    ,(''sienna'', [160, 82, 45])
    ,(''silver'', [192, 192, 192])
    ,(''skyblue'', [135, 206, 235])
    ,(''slateblue'', [106, 90, 205])
    ,(''slategray'', [112, 128, 144])
    ,(''slategrey'', [112, 128, 144])
    ,(''snow'', [255, 250, 250])
    ,(''springgreen'', [0, 255, 127])
    ,(''steelblue'', [70, 130, 180])
    ,(''tan'', [210, 180, 140])
    ,(''teal'', [0, 128, 128])
    ,(''thistle'', [216, 191, 216])
    ,(''tomato'', [255, 99, 71])
    ,(''turquoise'', [64, 224, 208])
    ,(''violet'', [238, 130, 238])
    ,(''wheat'', [245, 222, 179])
    ,(''white'', [255, 255, 255])
    ,(''whitesmoke'', [245, 245, 245])
    ,(''yellow'', [255, 255, 0])
    ,(''yellowgreen'', [154, 205, 50])]"

text \<open>The names \<open>Object.prototype\<close> provides (ECMA-262 20.1.3 and B.2.2).\<close>

definition object_prototype_names :: "string list" where
  "object_prototype_names =
     [''constructor'', ''hasOwnProperty'', ''isPrototypeOf'', ''propertyIsEnumerable'',
      ''toLocaleString'', ''toString'', ''valueOf'', ''__proto__'', ''__defineGetter__'',
      ''__defineSetter__'', ''__lookupGetter__'', ''__lookupSetter__'']"

datatype css_entry = CssOwn "int list" | CssInherited

text \<open>\<open>CssColorNames[color]\<close>: an own entry, an inherited property, or \<open>undefined\<close>.\<close>

definition css_get :: "string \<Rightarrow> css_entry option" where
  "css_get k =
     (case map_of css_color_names k of
        Some v \<Rightarrow> Some (CssOwn v)
      | None \<Rightarrow> if k \<in> set object_prototype_names then Some CssInherited else None)"

section \<open>parseColor\<close>

definition nth_or_nan :: "jsnum list \<Rightarrow> nat \<Rightarrow> jsnum" where
  "nth_or_nan xs i = (if i < length xs then xs ! i else NaN)"

text \<open>\<open>parsed = _.object(["r", "g", "b"], rgb); parsed.a = a\<close>, then the final
  normalisation: an alpha that is not \<open>undefined\<close> is converted with unary \<open>+\<close>,
  an \<open>undefined\<close> one becomes 1.\<close>

definition finish_parsed :: "jsnum list \<Rightarrow> jsval \<Rightarrow> raw_color" where
  "finish_parsed rgb a =
     \<lparr>raw_r = nth_or_nan rgb 0, raw_g = nth_or_nan rgb 1, raw_b = nth_or_nan rgb 2,
      raw_a = (if a \<noteq> JUndefined then js_to_number a else Num 1)\<rparr>"

text \<open>The string branch of \<open>parseColor\<close>.\<close>

definition parse_color_string :: "string \<Rightarrow> raw_color option" where
  "parse_color_string color =
     (case css_get color of
        Some (CssOwn v) \<Rightarrow> Some (finish_parsed (map (\<lambda>n. Num (of_int n)) v) JUndefined)
      | Some CssInherited \<Rightarrow> Some (finish_parsed [] JUndefined)
      | None \<Rightarrow>
          if js_to_lower color = ''transparent''
          then Some (finish_parsed [Num 0, Num 0, Num 0] (JNumber (Num 0)))
          else
            (case or_else (or_else (or_else (get_hex_data color) (get_base256_data color))
                                   (get_percent_data color))
                          (get_ag_color_data color) of
               None \<Rightarrow> None
             | Some (rgb, a) \<Rightarrow>
                 Some (finish_parsed rgb (case a of None \<Rightarrow> JUndefined | Some s \<Rightarrow> JString s))))"

text \<open>\<open>( length === 4 ? "rgba" : "rgb" ) + "(" + values.join( ", " ) + ")"\<close>\<close>

definition rgb_call_str :: "jsval list \<Rightarrow> string" where
  "rgb_call_str xs = (if length xs = 4 then ''rgba'' else ''rgb'') @ ''('' @ js_join '', '' xs @ '')''"

text \<open>\<open>_.intersection( names, keys ).length\<close>\<close>

definition count_keys :: "string list \<Rightarrow> string list \<Rightarrow> nat" where
  "count_keys names keys = length (filter (\<lambda>k. k \<in> set keys) names)"

text \<open>\<open>parseColor\<close>.  An array whose length is not 3 or 4 is an object whose keys
  are its indices, so it has no key \<open>r\<close>; values that are neither arrays,
  objects nor strings give \<open>undefined\<close>.  The re-parse \<open>new Color( colorStr )\<close>
  of the array and object branches is the string branch.\<close>

fun parse_color :: "jsval \<Rightarrow> raw_color option" where
  "parse_color (JColor _ raw) = raw"
| "parse_color (JArray xs) =
     (if length xs = 3 \<or> length xs = 4 then parse_color_string (rgb_call_str xs) else None)"
| "parse_color (JObject kvs) =
     (let keys = map fst kvs; obj = JObject kvs
      in if count_keys [''r'', ''g'', ''b''] keys = 3 \<or> count_keys [''r'', ''g'', ''b'', ''a''] keys = 4
         then parse_color_string
                (rgb_call_str ([get_prop obj ''r'', get_prop obj ''g'', get_prop obj ''b'']
                               @ (if length keys = 4 then [get_prop obj ''a''] else [])))
         else None)"
| "parse_color (JString s) = parse_color_string s"
| "parse_color _ = None"

text \<open>The range invariant of a raw color: channels between 0 and 255, alpha
  between 0 and 1.\<close>

definition raw_ok :: "raw_color \<Rightarrow> bool" where
  "raw_ok rc \<longleftrightarrow> in_range 0 255 (raw_r rc) \<and> in_range 0 255 (raw_g rc) \<and> in_range 0 255 (raw_b rc)
     \<and> in_range 0 1 (raw_a rc)"

text \<open>An input parsed by the grammar or the table: not a Color (whose raw color
  is copied as it is) and not a name \<open>CssColorNames\<close> inherits.\<close>

fun plain_input :: "jsval \<Rightarrow> bool" where
  "plain_input (JColor _ _) = False"
| "plain_input (JString s) = (s \<notin> set object_prototype_names)"
| "plain_input _ = True"

section \<open>Parsed colors are in range\<close>

lemma css_color_names_ok:
  "list_all (\<lambda>(n, v). length v = 3 \<and> list_all (\<lambda>x. 0 \<le> x \<and> x \<le> 255) v) css_color_names"
  by (simp add: css_color_names_def)

lemma css_own_ok:
  assumes "map_of css_color_names s = Some v"
  shows "raw_ok (finish_parsed (map (\<lambda>n. Num (of_int n)) v) JUndefined)"
proof -
  from assms have "(s, v) \<in> set css_color_names" by (rule map_of_SomeD)
  with css_color_names_ok have "length v = 3" "list_all (\<lambda>x. 0 \<le> x \<and> x \<le> 255) v"
    by (auto simp: list_all_iff)
  then obtain x y z where "v = [x, y, z]" "0 \<le> x" "x \<le> 255" "0 \<le> y" "y \<le> 255" "0 \<le> z" "z \<le> 255"
    by (auto simp: numeral_3_eq_3 length_Suc_conv)
  then show ?thesis
    by (simp add: raw_ok_def finish_parsed_def nth_or_nan_def in_range_def)
qed

lemma finish_parsed_ok:
  "channels_ok (rgb, a) \<Longrightarrow> raw_ok (finish_parsed rgb (case a of None \<Rightarrow> JUndefined | Some s \<Rightarrow> JString s))"
  by (auto simp: channels_ok_def raw_ok_def finish_parsed_def nth_or_nan_def numeral_3_eq_3 in_range_def
                 length_Suc_conv split: option.splits)

lemma finish_transparent_ok: "raw_ok (finish_parsed [Num 0, Num 0, Num 0] (JNumber (Num 0)))"
  by (simp add: raw_ok_def finish_parsed_def nth_or_nan_def in_range_def)

text \<open>The string branch: outside the names inherited from \<open>Object.prototype\<close>,
  every color it returns is in range.\<close>

lemma parse_color_string_ok:
  assumes "parse_color_string s = Some rc" "s \<notin> set object_prototype_names"
  shows "raw_ok rc"
proof (cases "map_of css_color_names s")
  case (Some v)
  with assms(1) css_own_ok [OF Some] show ?thesis
    by (simp add: parse_color_string_def css_get_def)
next
  case None
  let ?d = "or_else (or_else (or_else (get_hex_data s) (get_base256_data s)) (get_percent_data s))
              (get_ag_color_data s)"
  have d: "channels_ok d" if "?d = Some d" for d
    using that get_hex_data_ok get_base256_data_ok get_percent_data_ok get_ag_color_data_ok
    by (auto simp: or_else_def split: option.splits)
  from None assms show ?thesis
    using d finish_parsed_ok finish_transparent_ok
    by (auto simp: parse_color_string_def css_get_def split: option.splits if_splits)
qed

lemma rgb_call_str_not_inherited: "rgb_call_str xs \<notin> set object_prototype_names"
  by (simp add: rgb_call_str_def object_prototype_names_def)

lemma parse_color_ok: "parse_color v = Some rc \<Longrightarrow> plain_input v \<Longrightarrow> raw_ok rc"
  by (cases v)
     (auto simp: Let_def rgb_call_str_not_inherited intro: parse_color_string_ok split: if_splits)


section \<open>Hexadecimal strings\<close>

text \<open>No colour name starts with \<open>#\<close>, so a string \<open>#...\<close> is parsed by
  \<open>getHexData\<close>.\<close>

lemma css_names_no_hash: "list_all (\<lambda>(n, v). take 1 n \<noteq> ''#'') css_color_names"
  by code_simp

lemma css_get_hash: "css_get (CHR ''#'' # w) = None"
proof -
  have "(CHR ''#'' # w, v) \<notin> set css_color_names" for v
  proof
    assume "(CHR ''#'' # w, v) \<in> set css_color_names"
    with css_names_no_hash have "case (CHR ''#'' # w, v) of (n, v) \<Rightarrow> take 1 n \<noteq> ''#''"
      unfolding list_all_iff by (rule bspec)
    then show False by simp
  qed
  then have "map_of css_color_names (CHR ''#'' # w) = None"
    by (auto simp: map_of_eq_None_iff)
  then show ?thesis by (simp add: css_get_def object_prototype_names_def)
qed

lemma parse_color_hash:
  assumes "get_hex_data (CHR ''#'' # w) = Some (rgb, None)"
  shows "parse_color (JString (CHR ''#'' # w)) = Some (finish_parsed rgb JUndefined)"
proof -
  have tr: "js_to_lower (CHR ''#'' # w) \<noteq> ''transparent''"
    by (simp add: js_to_lower_def js_lower_char_def)
  show ?thesis
    unfolding parse_color.simps parse_color_string_def css_get_hash option.case
    using tr by (simp only: if_False assms or_else_def option.case prod.case)
qed

lemma hex_color_raw:
  assumes "list_all is_hex_lc [a, b, c, d, e, f]"
  shows "parse_color (JString [CHR ''#'', a, b, c, d, e, f]) =
           Some (finish_parsed [Num (of_int (int_of_hex [a, b])), Num (of_int (int_of_hex [c, d])),
                                Num (of_int (int_of_hex [e, f]))] JUndefined)"
  using parse_color_hash get_hex_data_lc [OF assms] by simp


section \<open>Case variants and inherited names\<close>

text \<open>The names of the table are lower case and do not include \<open>transparent\<close>;
  the names \<open>Object.prototype\<close> provides are not in the table.\<close>

lemma css_names_lower:
  "list_all (\<lambda>(n, v). js_to_lower n = n \<and> n \<noteq> ''transparent'') css_color_names"
  by code_simp

lemma prototype_names_facts:
  "list_all (\<lambda>n. map_of css_color_names n = None \<and> js_to_lower n \<noteq> ''transparent'') object_prototype_names"
  by code_simp

lemma css_get_transparent:
  assumes "js_to_lower s = ''transparent''"
  shows "css_get s = None"
proof -
  have "(s, v) \<notin> set css_color_names" for v
  proof
    assume "(s, v) \<in> set css_color_names"
    with css_names_lower have "js_to_lower s = s \<and> s \<noteq> ''transparent''"
      unfolding list_all_iff by fastforce
    with assms show False by simp
  qed
  then have "map_of css_color_names s = None" by (auto simp: map_of_eq_None_iff)
  moreover have "s \<notin> set object_prototype_names"
    using prototype_names_facts assms by (auto simp: list_all_iff)
  ultimately show ?thesis by (simp add: css_get_def)
qed

lemma css_get_inherited:
  "s \<in> set object_prototype_names \<Longrightarrow> css_get s = Some CssInherited"
  using prototype_names_facts by (auto simp: css_get_def list_all_iff)

end
