(* ===== verification/Nums.thy ===== *)
theory Nums
  imports Js_Value
begin

text \<open>
  The rounding helpers of colorful.js (src/src/colorful.js, lines 232-266):
  \<open>_decimalAdjust(operation, value, precision)\<close>, which rounds to a number of
  decimal places by shifting the decimal point in the string form of the number
  (\<open>toString\<close>, \<open>split('e')\<close>, unary \<open>+\<close>) instead of multiplying, and
  \<open>Nums.round\<close>, \<open>Nums.floor\<close>, \<open>Nums.ceil\<close>.  The operation name indexes
  \<open>Math\<close>; it is the datatype \<open>math_op\<close>.  \<open>value\<close> is a number at every call
  site; \<open>precision\<close> is any value a caller passes (\<open>JUndefined\<close> when omitted).
\<close>

datatype math_op = MRound | MFloor | MCeil

text \<open>\<open>Math[operation]\<close>\<close>

fun math_apply :: "math_op \<Rightarrow> jsnum \<Rightarrow> jsnum" where
  "math_apply MRound v = js_math_round v"
| "math_apply MFloor v = js_math_floor v"
| "math_apply MCeil v = js_math_ceil v"

text \<open>\<open>+(parts[0] + 'e' + (parts[1] ? (+parts[1] OP exp) : OP' exp))\<close>: the string
  form of a number split at \<open>e\<close>, its exponent moved by \<open>shift\<close>, read back.\<close>

definition shift_exp :: "jsnum \<Rightarrow> (jsnum \<Rightarrow> jsnum) \<Rightarrow> jsnum \<Rightarrow> jsnum" where
  "shift_exp v shift dflt =
     (let parts = split_on (CHR ''e'') (js_num_str v);
          e = (if 2 \<le> length parts \<and> parts ! 1 \<noteq> [] then shift (js_str_to_num (parts ! 1)) else dflt)
      in js_str_to_num (hd parts @ ''e'' @ js_num_str e))"

definition decimal_adjust :: "math_op \<Rightarrow> jsnum \<Rightarrow> jsval \<Rightarrow> jsnum" where
  "decimal_adjust operation value precision =
     (if precision = JUndefined \<or> js_strict_eq (js_to_number precision) (Num 0)
      then math_apply operation value
      else
        let precision' = js_to_number precision
        in if is_nan value \<or> \<not> js_strict_eq (js_mod precision' (Num 1)) (Num 0) then NaN
           else
             let exp = js_neg precision';
                 shifted = math_apply operation (shift_exp value (\<lambda>e. js_sub e exp) (js_neg exp))
             in shift_exp shifted (\<lambda>e. js_add e exp) exp)"

definition nums_round :: "jsnum \<Rightarrow> jsval \<Rightarrow> jsnum" where
  "nums_round value precision = decimal_adjust MRound value precision"

definition nums_floor :: "jsnum \<Rightarrow> jsval \<Rightarrow> jsnum" where
  "nums_floor value precision = decimal_adjust MFloor value precision"

definition nums_ceil :: "jsnum \<Rightarrow> jsval \<Rightarrow> jsnum" where
  "nums_ceil value precision = decimal_adjust MCeil value precision"

end
