(* ===== verification/Convert.thy ===== *)
theory Convert
  imports Nums Grammar
begin

text \<open>
  Color conversion (src/src/colorful.js, lines 422-480): the functions that turn
  one raw channel value (a number between 0 and 255, possibly fractional) into
  the text or number of an output format.  \<open>rawToHex\<close> and \<open>rawToBase256\<close>
  round with \<open>Nums.round\<close>; \<open>rawToPercent\<close> scales to 0..100 and rounds to
  \<open>options.precision\<close> decimal places (or not at all for \<open>"max"\<close>);
  \<open>toDecimalNotation\<close> rewrites an exponential string form such as
  \<open>"1.5e-7"\<close> into plain decimals with \<open>toFixed\<close>; \<open>rawToFraction\<close> divides by 255.
\<close>

definition raw_to_hex :: "jsnum \<Rightarrow> jsval \<Rightarrow> string" where
  "raw_to_hex raw_channel options =
     (let upper_case = js_and options (js_or (get_prop options ''upperCase'')
                                             (JBool (get_prop options ''lowerCase'' = JBool False)));
          hex = js_num_str16 (nums_round raw_channel JUndefined);
          hex = (if length hex < 2 then CHR ''0'' # hex else hex)
      in if js_truthy_val upper_case then ascii_to_upper hex else js_to_lower hex)"

definition raw_to_base256 :: "jsnum \<Rightarrow> jsnum" where
  "raw_to_base256 raw_channel = nums_round raw_channel JUndefined"

text \<open>\<open>s.replace(rx, fn)\<close> for a pattern without the global flag: the first match,
  if any, is replaced by \<open>fn(match, captures)\<close>.\<close>

definition js_replace_first :: "string \<Rightarrow> rx \<Rightarrow> (string \<Rightarrow> caps \<Rightarrow> string) \<Rightarrow> string" where
  "js_replace_first s r fn =
     (case rx_exec r s of
        None \<Rightarrow> s
      | Some (k, m, caps) \<Rightarrow> take k s @ fn m caps @ drop (k + length m) s)"

text \<open>\<open>/^(\d+)(?:\.(\d+))?e-(\d+)$/i\<close>\<close>

definition rx_sci_notation :: rx where
  "rx_sci_notation =
     rx_seq [RBol, RCap (rx_plus rx_digit),
             rx_opt (RSeq (rx_chr (CHR ''.'')) (RCap (rx_plus rx_digit))),
             RChar (\<lambda>c. c = CHR ''e'' \<or> c = CHR ''E''), rx_chr (CHR ''-''),
             RCap (rx_plus rx_digit), REol]"

text \<open>The replacement callback.  \<open>digits\<close> is a small integer (the exponent of a
  double has at most three digits), so \<open>toFixed(digits)\<close> receives it unchanged.
  The statement \<open>Nums.round( number, 20 )\<close> discards its result and has no
  effect; it is omitted.\<close>

definition sci_to_fixed :: "jsnum \<Rightarrow> string \<Rightarrow> caps \<Rightarrow> string" where
  "sci_to_fixed number m caps =
     (let fractional_digits = caps 2;
          digits = js_add (js_str_to_num (tok_str (caps 3)))
                          (Num (case fractional_digits of
                                  Some fd \<Rightarrow> if fd \<noteq> [] then of_nat (length fd) else 0
                                | None \<Rightarrow> 0));
          digits = (if js_less (Num 20) digits then Num 20 else digits)
      in js_to_fixed number (case digits of Num q \<Rightarrow> nat \<lfloor>q\<rfloor> | _ \<Rightarrow> 0))"

definition to_decimal_notation :: "jsnum \<Rightarrow> string" where
  "to_decimal_notation number =
     js_replace_first (js_num_str number) rx_sci_notation (sci_to_fixed number)"

definition raw_to_percent :: "jsnum \<Rightarrow> jsval \<Rightarrow> string" where
  "raw_to_percent raw_channel options =
     (let precision = js_or (js_and options (get_prop options ''precision'')) (JNumber (Num 0));
          percentage = js_div (js_mul raw_channel (Num 100)) (Num 255);
          percentage = (if precision \<noteq> JString ''max'' then nums_round percentage precision
                        else percentage)
      in to_decimal_notation percentage @ ''%'')"

definition raw_to_fraction :: "jsnum \<Rightarrow> jsnum" where
  "raw_to_fraction raw_channel = js_div raw_channel (Num 255)"

section \<open>Channels in range\<close>

lemma nums_round_undefined: "nums_round x JUndefined = js_math_round x"
  by (simp add: nums_round_def decimal_adjust_def)

text \<open>\<open>Math.round\<close> keeps a channel between 0 and 255 and makes it an integer.\<close>

lemma math_round_in_range:
  assumes "in_range 0 255 x"
  obtains n where "js_math_round x = Num (of_int n)" "0 \<le> n" "n \<le> 255"
proof -
  from assms obtain q where q: "x = Num q" "0 \<le> q" "q \<le> 255"
    by (cases x) (auto simp: in_range_def)
  have "0 \<le> \<lfloor>q + 1/2\<rfloor>" using q by simp
  moreover have "\<lfloor>q + 1/2\<rfloor> \<le> 255"
  proof -
    have "q + 1/2 < 256" using q by simp
    then show ?thesis by (simp add: floor_less_iff)
  qed
  ultimately show ?thesis using that q by (simp add: js_math_round_def)
qed

lemma js_num_str16_int: "0 \<le> n \<Longrightarrow> js_num_str16 (Num (of_int n)) = hex_of_int n"
  by (simp add: js_num_str16_def)

text \<open>\<open>rawToHex\<close> with default options on an integer channel: two lower-case
  hexadecimal digits whose value is the channel.\<close>

lemma raw_to_hex_int:
  assumes "0 \<le> n" "n \<le> 255"
  shows "length (raw_to_hex (Num (of_int n)) JUndefined) = 2
         \<and> list_all is_hex_lc (raw_to_hex (Num (of_int n)) JUndefined)
         \<and> int_of_hex (raw_to_hex (Num (of_int n)) JUndefined) = n"
proof -
  let ?h = "hex_of_int n"
  have r: "nums_round (Num (of_int n)) JUndefined = Num (of_int n)"
    by (simp add: nums_round_undefined)
  have len: "1 \<le> length ?h" "length ?h \<le> 2" using length_hex_of_int [of n] assms by simp_all
  have lc: "list_all is_hex_lc ?h" using hex_of_int_is_hex_lc assms(1) .
  have v: "int_of_hex ?h = n" using int_of_hex_of_int assms(1) .
  have z: "is_hex_lc (CHR ''0'')" by (simp add: is_hex_lc_def is_digit_def)
  define h' where "h' = (if length ?h < 2 then CHR ''0'' # ?h else ?h)"
  have "raw_to_hex (Num (of_int n)) JUndefined = js_to_lower h'"
    by (simp add: raw_to_hex_def r js_num_str16_int assms h'_def js_and_def Let_def)
  also have "\<dots> = h'" using lc z by (intro js_to_lower_hex_lc) (simp add: h'_def)
  finally show ?thesis
    using len lc z v by (auto simp: h'_def int_of_hex_Cons_zero)
qed

lemma raw_to_hex_in_range:
  assumes "in_range 0 255 x"
  obtains n where "js_math_round x = Num (of_int n)" "0 \<le> n" "n \<le> 255"
    "raw_to_hex x JUndefined = raw_to_hex (Num (of_int n)) JUndefined"
proof -
  from math_round_in_range [OF assms] obtain n where n: "js_math_round x = Num (of_int n)" "0 \<le> n" "n \<le> 255" .
  have "nums_round (Num (of_int n)) JUndefined = Num (of_int n)"
    by (simp add: nums_round_undefined)
  with n have "raw_to_hex x JUndefined = raw_to_hex (Num (of_int n)) JUndefined"
    by (simp add: raw_to_hex_def nums_round_undefined)
  with n that show ?thesis by blast
qed

lemma raw_to_hex_ok:
  "in_range 0 255 x \<Longrightarrow> length (raw_to_hex x JUndefined) = 2 \<and> list_all is_hex_lc (raw_to_hex x JUndefined)"
  by (elim raw_to_hex_in_range) (simp add: raw_to_hex_int)

lemma raw_to_base256_ok:
  "in_range 0 255 x \<Longrightarrow> js_math_round (raw_to_base256 x) = raw_to_base256 x \<and> in_range 0 255 (raw_to_base256 x)"
  by (elim math_round_in_range) (simp add: raw_to_base256_def nums_round_undefined in_range_def)


text \<open>\<open>rawToHex\<close> writes the value of two lower-case digits back as the same digits.\<close>

lemma raw_to_hex_pair:
  assumes "list_all is_hex_lc [x, y]"
  shows "raw_to_hex (Num (of_int (int_of_hex [x, y]))) JUndefined = [x, y]"
proof -
  let ?n = "int_of_hex [x, y]"
  from assms have "0 \<le> ?n \<and> ?n < 16 ^ 2" using int_of_hex_bounds [of "[x, y]"] by auto
  then have "0 \<le> ?n" "?n \<le> 255" by simp_all
  from raw_to_hex_int [OF this] obtain u where
    u: "raw_to_hex (Num (of_int ?n)) JUndefined = u" "length u = 2" "list_all is_hex_lc u" "int_of_hex u = ?n"
    by blast
  then obtain u1 u2 where "u = [u1, u2]" by (auto simp: numeral_eq_Suc length_Suc_conv)
  with u assms hex_pair_inj [of u1 u2 x y] show ?thesis by simp
qed


text \<open>The case options of \<open>rawToHex\<close>: \<open>{lowerCase: true}\<close> is the default,
  \<open>{upperCase: true}\<close> is the default in upper case.\<close>

lemma raw_to_hex_upper:
  "raw_to_hex ch (JObject [(''upperCase'', JBool True)]) = ascii_to_upper (raw_to_hex ch JUndefined)"
proof -
  let ?h = "js_num_str16 (nums_round ch JUndefined)"
  let ?p = "if length ?h < 2 then CHR ''0'' # ?h else ?h"
  have "list_all (\<lambda>c. (of_char c :: int) < 128) ?p"
    using js_num_str16_ascii [of "nums_round ch JUndefined"] by simp
  then show ?thesis
    by (simp add: raw_to_hex_def js_and_def js_or_def Let_def ascii_to_upper_js_to_lower)
qed

lemma raw_to_hex_lower:
  "raw_to_hex ch (JObject [(''lowerCase'', JBool True)]) = raw_to_hex ch JUndefined"
  by (simp add: raw_to_hex_def js_and_def js_or_def Let_def)


text \<open>A channel in range becomes, after \<open>rawToBase256\<close>, an integer between 0 and 255.\<close>

lemma raw_to_base256_int:
  assumes "in_range 0 255 x"
  obtains k where "raw_to_base256 x = Num (of_int k)" "0 \<le> k" "k \<le> 255"
proof -
  from math_round_in_range [OF assms] obtain k where
    "js_math_round x = Num (of_int k)" "0 \<le> k" "k \<le> 255" .
  with that show ?thesis by (simp add: raw_to_base256_def nums_round_undefined)
qed

end
