(* ===== verification/Color.thy ===== *)
theory Color
  imports Parse Convert
begin

text \<open>
  The Color object (src/src/colorful.js, lines 487-640): the constructor stores
  the input value and its parse, and the prototype methods test, guard and
  format it.  A method that may throw returns \<open>color_error + 'a\<close>; the error
  records which guard threw and what its message names.  \<open>options\<close> arguments
  are JavaScript values (\<open>JUndefined\<close> when omitted), read with the source's
  \<open>&&\<close>/\<open>||\<close> defaults.
\<close>

record color =
  color_input :: jsval
  color_raw :: "raw_color option"

text \<open>\<open>new Color( value )\<close> (also \<open>Color( value )\<close> without \<open>new\<close>).\<close>

definition new_color :: "jsval \<Rightarrow> color" where
  "new_color value = \<lparr>color_input = value, color_raw = parse_color value\<rparr>"

text \<open>\<open>if ( !( other instanceof Color ) ) other = new Color( other )\<close>\<close>

fun to_color :: "jsval \<Rightarrow> color" where
  "to_color (JColor i raw) = \<lparr>color_input = i, color_raw = raw\<rparr>"
| "to_color v = new_color v"

datatype color_error =
    ErrEnsureColor jsval     \<comment> \<open>\<open>ensureColor\<close>; the input the color was created from\<close>
  | ErrEnsureOpaque jsnum    \<comment> \<open>\<open>ensureOpaque\<close>; the alpha value\<close>
  | ErrEnsureTransparent     \<comment> \<open>\<open>ensureTransparent\<close>\<close>

fun error_message :: "color_error \<Rightarrow> string" where
  "error_message (ErrEnsureColor v) =
     ''Color.ensureColor: The color object does not represent a valid color. It was created from the value ''
     @ js_to_string v"
| "error_message (ErrEnsureOpaque a) =
     ''Color.ensureOpaque: Color is required to be opaque, but it is not (a = '' @ js_num_str a @ '')''"
| "error_message ErrEnsureTransparent =
     ''Color.ensureTransparent: Color is required to be transparent, but it is not''"

section \<open>Tests and guards\<close>

definition is_color :: "color \<Rightarrow> bool" where
  "is_color c \<longleftrightarrow> color_raw c \<noteq> None"

text \<open>The alpha channel of a color (only read where \<open>isColor\<close> holds).\<close>

definition color_alpha :: "color \<Rightarrow> jsnum" where
  "color_alpha c = (case color_raw c of Some raw \<Rightarrow> raw_a raw | None \<Rightarrow> NaN)"

definition is_opaque :: "color \<Rightarrow> bool" where
  "is_opaque c \<longleftrightarrow> is_color c \<and> js_strict_eq (color_alpha c) (Num 1)"

definition is_transparent :: "color \<Rightarrow> bool" where
  "is_transparent c \<longleftrightarrow> is_color c \<and> js_less (color_alpha c) (Num 1)"

definition ensure_color :: "color \<Rightarrow> color_error + bool" where
  "ensure_color c = (if \<not> is_color c then Inl (ErrEnsureColor (color_input c)) else Inr True)"

definition ensure_opaque :: "color \<Rightarrow> color_error + bool" where
  "ensure_opaque c =
     (case ensure_color c of
        Inl e \<Rightarrow> Inl e
      | Inr _ \<Rightarrow> if \<not> is_opaque c then Inl (ErrEnsureOpaque (color_alpha c)) else Inr True)"

definition ensure_transparent :: "color \<Rightarrow> color_error + bool" where
  "ensure_transparent c =
     (case ensure_color c of
        Inl e \<Rightarrow> Inl e
      | Inr _ \<Rightarrow> if \<not> is_transparent c then Inl ErrEnsureTransparent else Inr True)"

text \<open>\<open>guard; return body\<close>\<close>

definition after :: "color_error + bool \<Rightarrow> 'a \<Rightarrow> color_error + 'a" where
  "after g x = (case g of Inl e \<Rightarrow> Inl e | Inr _ \<Rightarrow> Inr x)"

section \<open>Raw channel arrays\<close>

definition get_raw_array_rgb :: "color \<Rightarrow> jsnum list" where
  "get_raw_array_rgb c =
     (case color_raw c of Some raw \<Rightarrow> [raw_r raw, raw_g raw, raw_b raw] | None \<Rightarrow> [NaN, NaN, NaN])"

definition as_rgb_array_raw :: "color \<Rightarrow> jsnum list" where
  "as_rgb_array_raw c = map raw_to_base256 (get_raw_array_rgb c)"

definition as_ag_color_array :: "color \<Rightarrow> jsnum list" where
  "as_ag_color_array c = map raw_to_fraction (get_raw_array_rgb c) @ [color_alpha c]"

section \<open>Output formats\<close>

definition as_hex :: "color \<Rightarrow> jsval \<Rightarrow> color_error + string" where
  "as_hex c options =
     (let prefix = (if js_truthy_val options \<and> get_prop options ''prefix'' = JBool False then [] else ''#'')
      in after (ensure_opaque c) (prefix @ concat (map (\<lambda>ch. raw_to_hex ch options) (get_raw_array_rgb c))))"

definition as_hex_uc :: "color \<Rightarrow> color_error + string" where
  "as_hex_uc c = as_hex c (JObject [(''upperCase'', JBool True)])"

definition as_hex_lc :: "color \<Rightarrow> color_error + string" where
  "as_hex_lc c = as_hex c (JObject [(''lowerCase'', JBool True)])"

definition as_rgb_array :: "color \<Rightarrow> color_error + jsnum list" where
  "as_rgb_array c = after (ensure_opaque c) (as_rgb_array_raw c)"

definition as_rgba_array :: "color \<Rightarrow> color_error + jsnum list" where
  "as_rgba_array c = after (ensure_color c) (as_rgb_array_raw c @ [color_alpha c])"

definition as_rgb :: "color \<Rightarrow> color_error + string" where
  "as_rgb c =
     (case ensure_opaque c of
        Inl e \<Rightarrow> Inl e
      | Inr _ \<Rightarrow> map_sum id (\<lambda>xs. ''rgb('' @ js_join '', '' (map JNumber xs) @ '')'') (as_rgb_array c))"

definition as_percent_rgb :: "color \<Rightarrow> jsval \<Rightarrow> color_error + string" where
  "as_percent_rgb c options =
     after (ensure_opaque c)
       (''rgb('' @ js_join_with '', '' (map (\<lambda>ch. raw_to_percent ch options) (get_raw_array_rgb c)) @ '')'')"

definition as_rgba :: "color \<Rightarrow> color_error + string" where
  "as_rgba c =
     after (ensure_color c)
       (''rgba('' @ js_join '', '' (map JNumber (as_rgb_array_raw c) @ [JString (to_decimal_notation (color_alpha c))])
        @ '')'')"

definition as_percent_rgba :: "color \<Rightarrow> jsval \<Rightarrow> color_error + string" where
  "as_percent_rgba c options =
     after (ensure_color c)
       (''rgba('' @ js_join_with '', '' (map (\<lambda>ch. raw_to_percent ch options) (get_raw_array_rgb c)
                                      @ [to_decimal_notation (color_alpha c)]) @ '')'')"

definition as_ag_color :: "color \<Rightarrow> color_error + string" where
  "as_ag_color c =
     after (ensure_color c)
       (''AgColor( '' @ js_join_with '', '' (map to_decimal_notation (as_ag_color_array c)) @ '' )'')"

section \<open>Comparison\<close>

text \<open>One channel pair of \<open>equals\<close> with a tolerance:
  \<open>x <= y + tolerance && x >= y - tolerance\<close>.\<close>

definition within_tolerance :: "jsval \<Rightarrow> jsnum \<times> jsnum \<Rightarrow> bool" where
  "within_tolerance tolerance p =
     (js_le_val (fst p) (js_plus_num (snd p) tolerance)
      \<and> js_ge_val (fst p) (JNumber (js_sub (snd p) (js_to_number tolerance))))"

definition equals :: "color \<Rightarrow> jsval \<Rightarrow> jsval \<Rightarrow> bool" where
  "equals c other options =
     (let tolerance = js_or (js_and options (get_prop options ''tolerance'')) (JNumber (Num 0));
          other = to_color other;
          is_col = (is_color c \<and> is_color other);
          is_equal = (is_col \<and> as_rgba c = as_rgba other)
      in if is_col \<and> \<not> is_equal \<and> js_less (Num 0) (js_to_number tolerance)
         then (case (as_rgba_array c, as_rgba_array other) of
                 (Inr xs, Inr ys) \<Rightarrow>
                   let paired_channels = zip xs ys; paired_alpha = last paired_channels
                   in list_all (within_tolerance tolerance) (butlast paired_channels)
                      \<and> js_strict_eq (fst paired_alpha) (snd paired_alpha)
               | _ \<Rightarrow> is_equal)
         else is_equal)"

definition strictly_equals :: "color \<Rightarrow> jsval \<Rightarrow> bool" where
  "strictly_equals c other =
     (let other = to_color other
      in is_color c \<and> is_color other \<and> as_percent_rgba c JUndefined = as_percent_rgba other JUndefined)"

section \<open>Colors in range\<close>

lemma raw_ok_alpha: "raw_ok rc \<Longrightarrow> \<exists>q. raw_a rc = Num q \<and> 0 \<le> q \<and> q \<le> 1"
  by (cases "raw_a rc") (auto simp: raw_ok_def in_range_def)

lemma new_color_raw:
  "is_color (new_color v) \<Longrightarrow> plain_input v \<Longrightarrow> \<exists>rc. color_raw (new_color v) = Some rc \<and> raw_ok rc"
  by (auto simp: is_color_def new_color_def intro: parse_color_ok)

lemma opaque_iff_not_transparent:
  "color_raw c = Some rc \<Longrightarrow> raw_ok rc \<Longrightarrow> is_opaque c \<longleftrightarrow> \<not> is_transparent c"
  using raw_ok_alpha [of rc]
  by (auto simp: is_opaque_def is_transparent_def is_color_def color_alpha_def js_strict_eq_def)

lemma as_hex_default:
  "color_raw c = Some rc \<Longrightarrow> is_opaque c \<Longrightarrow>
   as_hex c JUndefined = Inr (''#'' @ raw_to_hex (raw_r rc) JUndefined @ raw_to_hex (raw_g rc) JUndefined
                             @ raw_to_hex (raw_b rc) JUndefined)"
  by (simp add: as_hex_def after_def ensure_opaque_def ensure_color_def is_opaque_def is_color_def
                get_raw_array_rgb_def)

end
