(* ===== verification/Demo_Config.thy ===== *)
theory Demo_Config
  imports Colorful_Prelude
begin

text \<open>
  The RequireJS configuration of the AMD demo (src/demo/amd/require-config.js):
  the argument of \<open>requirejs.config\<close>, a base URL and a table from module IDs to
  paths, as a record value.  It is data only; how the loader resolves module IDs
  is RequireJS's behaviour, not code of the repository, and is not modelled.
\<close>


record require_config =
  base_url :: string
  paths :: "(string \<times> string) list"

definition demo_require_config :: require_config where
  "demo_require_config =
     \<lparr>base_url = ''../../'',
      paths = [(''usertiming'', ''demo/bower_demo_components/usertiming/src/usertiming''),
               (''underscore'', ''bower_components/underscore/underscore''),
               (''jquery'', ''demo/bower_demo_components/jquery/dist/jquery''),
               (''vue'', ''demo/bower_demo_components/vue/dist/vue''),
               (''colorful'', ''dist/colorful''),
               (''local.main'', ''demo/amd/main'')]\<rparr>"

end
