(* ===== verification/Spec2Isabelle.thy ===== *)
theory Spec2Isabelle
  imports Color Demo_Config
begin

text \<open>
  \<^bold>\<open>colorful.js, a verification development.\<close>
  The library (src/src/colorful.js) parses colour values and writes them back
  in other syntaxes.  \<open>new Color(value)\<close> calls \<open>parseColor\<close>, which reads
  a Color, an array, an object \<open>{r, g, b[, a]}\<close> or a string.  Arrays and
  objects are written as an \<open>rgb(...)\<close> string and re-parsed.  A string is a
  keyword of \<open>CssColorNames\<close>, \<open>transparent\<close>, or text matched by the grammar.
  The grammar is a set of regular expressions built by \<open>buildColorRx\<close> and
  applied by \<open>matchColor\<close> in the \<open>get...Data\<close> helpers.  The resulting raw
  colour \<open>{r, g, b, a}\<close> is stored once.  The prototype methods guard it
  (\<open>ensure*\<close>) and format it through \<open>rawToHex\<close>, \<open>rawToPercent\<close>,
  \<open>toDecimalNotation\<close> and the rounding helper \<open>_decimalAdjust\<close>/\<open>Nums\<close>.

  \<^bold>\<open>Theories.\<close>
  \<^item> \<open>Colorful_Prelude\<close>: character classes, digit strings and their values,
    and Latin-1 case mapping, with the digit lemmas the other theories share.
  \<^item> \<open>Js_Double\<close>, \<open>Js_String\<close>, \<open>Js_Value\<close>: the platform operations the
    library calls, modelled from ECMA-262.  Numbers are \<open>jsnum\<close>: a finite
    double is the exact rational that \<open>round_dbl\<close> (round to nearest even,
    binary64 range) produces, plus the infinities and \<open>NaN\<close>.  Also here:
    \<open>Number::toString\<close>, \<open>toFixed\<close>, \<open>toString(16)\<close>, StringToNumber,
    \<open>parseInt(s, 16)\<close>, \<open>Math.round\<close>, \<open>+\<close>, \<open><=\<close>, \<open>||\<close> and \<open>&&\<close> on the
    values callers pass.
  \<^item> \<open>Regex\<close>: the ECMA-262 backtracking matcher \<open>mt\<close> and RegExpBuiltinExec
    \<open>rx_exec\<close>.  The matcher returns every match of a prefix, in the order
    the standard tries them.  It is proved sound for the regular language
    \<open>lang\<close> of the pattern, with the captures it must set, and complete for
    patterns without anchors (\<open>mt_complete\<close>).  Closed forms for repeated
    character classes let a run on symbolic input be computed.
  \<^item> \<open>Grammar\<close>: the pattern constants, \<open>buildColorRx\<close>, \<open>matchColor\<close> and
    \<open>getHexData\<close>/\<open>getBase256Data\<close>/\<open>getPercentData\<close>/\<open>getAgColorData\<close>
    (lines 191-359).
  \<^item> \<open>Nums\<close>: \<open>_decimalAdjust\<close> and \<open>Nums.round/floor/ceil\<close> (lines 232-266).
  \<^item> \<open>Parse\<close>: \<open>CssColorNames\<close> and \<open>parseColor\<close> (lines 40-189, 362-415).
  \<^item> \<open>Convert\<close>: \<open>rawToHex\<close>, \<open>rawToBase256\<close>, \<open>toDecimalNotation\<close>,
    \<open>rawToPercent\<close> and \<open>rawToFraction\<close> (lines 422-480).
  \<^item> \<open>Color\<close>: the Color object and its prototype methods (lines 487-640).
    State is the record \<open>color\<close> (input value, raw colour or \<open>None\<close>).  A
    throwing method returns \<open>color_error + 'a\<close>.
  \<^item> \<open>Demo_Config\<close>: the demo's RequireJS configuration
    (src/demo/amd/require-config.js) as a record value.  It is data only and
    carries no property.

  \<^bold>\<open>Results.\<close>
  \<^item> Range invariant (C1), the central result: every colour parsed from an
    input that is not a Color and not an inherited name has channels in
    [0, 255] and alpha in [0, 1].  The proof chains these facts:
    \<^item> matcher soundness;
    \<^item> the languages of the channel patterns;
    \<^item> the literal readers;
    \<^item> monotone rounding of doubles.
  \<^item> Consequences of C1 for the accessors (C2-C5) and the guard of the
    opaque-only accessors (C6).
  \<^item> The colour patterns: every match spans the whole input (C7), and the
    matcher decides each pattern's language (C8).
  \<^item> Error behaviour: accessors on an invalid colour (C9), \<open>equals\<close> on invalid
    colours (C10), \<open>_decimalAdjust\<close> with a fractional precision (C11).
  \<^item> The hexadecimal round trip and short-form equivalence (C12, C13).  These
    run the matcher on symbolic input.
  \<^item> The case options of \<open>asHex\<close> (C14) and the output format of \<open>asRGB\<close> (C15),
    which rests on \<open>Number::toString\<close> printing integers as decimal numerals.
  \<^item> Where the code departs from the specification, as general statements
    (C16-C18): \<open>transparent\<close> in any case, the inherited names of
    \<open>Object.prototype\<close>, and AgColor always requiring an alpha.
  \<^item> Further departures are recorded as findings without a theorem.  They are
    single-input behaviours that the model evaluates:
    \<^item> \<open>strictlyEquals\<close> compares at precision 0, which contradicts the test
      at src/spec/color.spec.js:908-910;
    \<^item> an object with a fifth key loses its alpha;
    \<^item> \<open>rgb(0.5%, 0%, 0%)\<close> is written back as \<open>0.49999999999999994%\<close>.

  \<^bold>\<open>Representation choices.\<close>
  \<^item> An \<open>undefined\<close> channel, as produced for inherited names, is \<open>NaN\<close>.
    Every use of a channel applies ToNumber to it.
  \<^item> Doubles are exact rationals, so results are exact and there is no fuel.
  \<^item> All recursion is structural, or \<open>function\<close> with a \<open>measure\<close>.  The
    library has no loops of its own besides \<open>_.map\<close>.

  \<^bold>\<open>Not modelled.\<close>
  \<^item> The UMD wrapper (lines 1-35, 642-647): module plumbing with no behaviour.
  \<^item> Strings are limited to code units below 256.  The pattern classes and
    \<open>toLowerCase\<close> are given on Latin-1 only.
  \<^item> Objects are plain data without getters or prototypes.
  \<^item> \<open>Number::toString\<close> is modelled for the values that occur in the
    library.  Its fallback of 17 digits is stated but never reached for a
    double.
\<close>

section \<open>The range invariant of parsed colors\<close>

text \<open>C1: every raw color \<open>parseColor\<close> produces from an input that is not a
  Color object and not a name inherited from \<open>Object.prototype\<close> has its
  channels r, g, b between 0 and 255 and its alpha between 0 and 1.\<close>

theorem parse_color_in_range:
  assumes "plain_input v" and "parse_color v = Some rc"
  shows "raw_ok rc"
  using parse_color_ok [OF assms(2,1)] .

theorem parse_color_in_range_witness:
  "raw_ok (the (parse_color (JString ''rgba(0, 153, 170, .5)'')))"
  by (rule parse_color_in_range [of "JString ''rgba(0, 153, 170, .5)''"]) code_simp+

text \<open>C2: a Color created from such an input that is a color is either opaque
  or transparent, never both and never neither: its alpha is exactly 1 or less
  than 1.\<close>

theorem opaque_xor_transparent:
  assumes "plain_input v" and "is_color (new_color v)"
  shows "is_opaque (new_color v) \<longleftrightarrow> \<not> is_transparent (new_color v)"
  using new_color_raw [OF assms(2,1)] opaque_iff_not_transparent by blast

theorem opaque_xor_transparent_witness:
  "is_opaque (new_color (JString ''#09a'')) \<longleftrightarrow> \<not> is_transparent (new_color (JString ''#09a''))"
  by (rule opaque_xor_transparent) code_simp+

text \<open>C3: \<open>asHex()\<close> of an opaque color created from such an input is \<open>#\<close>
  followed by six lower-case hexadecimal digits.\<close>

theorem as_hex_format:
  assumes "plain_input v" and "is_opaque (new_color v)"
  shows "\<exists>h. as_hex (new_color v) JUndefined = Inr (CHR ''#'' # h) \<and> length h = 6 \<and> list_all is_hex_lc h"
proof -
  have "is_color (new_color v)" using assms(2) by (simp add: is_opaque_def)
  from new_color_raw [OF this assms(1)] obtain rc where
    rc: "color_raw (new_color v) = Some rc" "raw_ok rc" by blast
  then have "in_range 0 255 (raw_r rc)" "in_range 0 255 (raw_g rc)" "in_range 0 255 (raw_b rc)"
    by (simp_all add: raw_ok_def)
  with as_hex_default [OF rc(1) assms(2)] show ?thesis
    by (auto dest!: raw_to_hex_ok)
qed

theorem as_hex_format_witness:
  "\<exists>h. as_hex (new_color (JString ''turquoise'')) JUndefined = Inr (CHR ''#'' # h) \<and> length h = 6
       \<and> list_all is_hex_lc h"
  by (rule as_hex_format) code_simp+

text \<open>C4: the hexadecimal pair \<open>rawToHex\<close> writes for an integer channel
  0..255 reads back, with the \<open>parseInt(value, 16)\<close> of \<open>getHexData\<close>, as the
  same channel.\<close>

theorem raw_to_hex_roundtrip:
  assumes "0 \<le> n" and "n \<le> 255"
  shows "js_parse_int16 (raw_to_hex (Num (of_int n)) JUndefined) = Num (of_int n)"
proof -
  have h: "length (raw_to_hex (Num (of_int n)) JUndefined) = 2"
    "list_all is_hex_lc (raw_to_hex (Num (of_int n)) JUndefined)"
    "int_of_hex (raw_to_hex (Num (of_int n)) JUndefined) = n"
    using raw_to_hex_int [OF assms] by simp_all
  have "list_all (\<lambda>c. is_hex_lc c \<or> is_hex_uc c) (raw_to_hex (Num (of_int n)) JUndefined)"
    using h(2) by (simp add: list_all_iff)
  moreover have "raw_to_hex (Num (of_int n)) JUndefined \<noteq> []" using h(1) by auto
  ultimately show ?thesis
    using h(3) assms by (simp add: js_parse_int16_hex round_dbl_int)
qed

theorem raw_to_hex_roundtrip_witness:
  "js_parse_int16 (raw_to_hex (Num 171) JUndefined) = Num 171"
  using raw_to_hex_roundtrip [of 171] by simp

text \<open>C5: \<open>asRGBArray()\<close> of an opaque color created from such an input is three
  integers between 0 and 255.\<close>

theorem as_rgb_array_bounds:
  assumes "plain_input v" and "is_opaque (new_color v)"
  shows "\<exists>xs. as_rgb_array (new_color v) = Inr xs \<and> length xs = 3
             \<and> list_all (\<lambda>x. js_math_round x = x \<and> in_range 0 255 x) xs"
proof -
  have "is_color (new_color v)" using assms(2) by (simp add: is_opaque_def)
  from new_color_raw [OF this assms(1)] obtain rc where
    rc: "color_raw (new_color v) = Some rc" "raw_ok rc" by blast
  then have "in_range 0 255 (raw_r rc)" "in_range 0 255 (raw_g rc)" "in_range 0 255 (raw_b rc)"
    by (simp_all add: raw_ok_def)
  with rc(1) assms(2) show ?thesis
    by (simp add: as_rgb_array_def after_def ensure_opaque_def ensure_color_def is_opaque_def
                  as_rgb_array_raw_def get_raw_array_rgb_def raw_to_base256_ok)
qed

theorem as_rgb_array_bounds_witness:
  "\<exists>xs. as_rgb_array (new_color (JString ''rgb(10%, 20.5%, 100%)'')) = Inr xs \<and> length xs = 3
       \<and> list_all (\<lambda>x. js_math_round x = x \<and> in_range 0 255 x) xs"
  by (rule as_rgb_array_bounds) code_simp+

section \<open>Guards of the output methods\<close>

text \<open>C6: every output method that requires an opaque color (\<open>asHex\<close>, \<open>asRGB\<close>,
  \<open>asRGBArray\<close>, \<open>asPercentRGB\<close>) throws exactly when the color is not opaque,
  whatever the options.\<close>

theorem opaque_methods_guard:
  "(\<forall>opts. (\<exists>e. as_hex c opts = Inl e) \<longleftrightarrow> \<not> is_opaque c)
   \<and> ((\<exists>e. as_rgb c = Inl e) \<longleftrightarrow> \<not> is_opaque c)
   \<and> ((\<exists>e. as_rgb_array c = Inl e) \<longleftrightarrow> \<not> is_opaque c)
   \<and> (\<forall>opts. (\<exists>e. as_percent_rgb c opts = Inl e) \<longleftrightarrow> \<not> is_opaque c)"
  by (auto simp: as_hex_def as_rgb_def as_rgb_array_def as_percent_rgb_def after_def
                 ensure_opaque_def ensure_color_def is_opaque_def Let_def split: sum.splits)

section \<open>Anchoring of the color patterns\<close>

text \<open>C7: every pattern \<open>buildColorRx\<close> builds is anchored at both ends: a match
  starts at index 0, spans the whole input, and the input is in the language
  of the pattern.\<close>

theorem color_rx_whole_match:
  assumes "rx_exec (build_color_rx p ch wa) s = Some (k, m, caps)" and "rx_wf ch"
  shows "k = 0 \<and> m = s \<and> s \<in> lang (build_color_rx p ch wa)"
  using build_color_rx_exec [OF assms] .

theorem color_rx_whole_match_witness:
  "fst (snd (the (rx_exec (build_color_rx ''rgb'' rx_rgb_channel_base256 False) ''rgb(1, 2, 3)'')))
   = ''rgb(1, 2, 3)''"
proof -
  have "rx_exec (build_color_rx ''rgb'' rx_rgb_channel_base256 False) ''rgb(1, 2, 3)'' \<noteq> None"
    by code_simp
  then obtain k m caps where
    e: "rx_exec (build_color_rx ''rgb'' rx_rgb_channel_base256 False) ''rgb(1, 2, 3)'' = Some (k, m, caps)"
    by auto
  have "rx_wf rx_rgb_channel_base256" by (simp add: rx_rgb_channel_base256_def)
  from color_rx_whole_match [OF e this] e show ?thesis by simp
qed



section \<open>Errors of the accessors\<close>

text \<open>C9: on a Color that is not a color, every accessor throws the error of
  \<open>ensureColor\<close>, which names the value the color was created from.\<close>

theorem not_color_errors:
  assumes "\<not> is_color c"
  shows "as_hex c opts = Inl (ErrEnsureColor (color_input c))
       \<and> as_rgb c = Inl (ErrEnsureColor (color_input c))
       \<and> as_rgb_array c = Inl (ErrEnsureColor (color_input c))
       \<and> as_percent_rgb c opts = Inl (ErrEnsureColor (color_input c))
       \<and> as_rgba c = Inl (ErrEnsureColor (color_input c))
       \<and> as_rgba_array c = Inl (ErrEnsureColor (color_input c))
       \<and> as_percent_rgba c opts = Inl (ErrEnsureColor (color_input c))
       \<and> as_ag_color c = Inl (ErrEnsureColor (color_input c))
       \<and> ensure_transparent c = Inl (ErrEnsureColor (color_input c))"
  using assms
  by (simp add: as_hex_def as_rgb_def as_rgb_array_def as_percent_rgb_def as_rgba_def as_rgba_array_def
                as_percent_rgba_def as_ag_color_def ensure_transparent_def ensure_opaque_def
                ensure_color_def after_def Let_def)

theorem not_color_errors_witness:
  "as_rgba (new_color (JBool True)) = Inl (ErrEnsureColor (JBool True))"
  using not_color_errors [of "new_color (JBool True)" JUndefined]
  by (simp add: is_color_def new_color_def)

section \<open>Equality\<close>

text \<open>C10: \<open>equals\<close> is false when either side is not a color, whatever the
  tolerance.\<close>

theorem equals_needs_colors:
  assumes "\<not> is_color c \<or> \<not> is_color (to_color other)"
  shows "\<not> equals c other opts"
  using assms by (auto simp: equals_def Let_def)

theorem equals_needs_colors_witness:
  "\<not> equals (new_color (JBool True)) (JBool True) (JObject [(''tolerance'', JNumber (Num 255))])"
  by (rule equals_needs_colors) code_simp

section \<open>Rounding helper errors\<close>

text \<open>C11: \<open>_decimalAdjust\<close> returns \<open>NaN\<close> for a precision that is not an
  integer, for every operation and every value.\<close>

theorem decimal_adjust_fractional_precision:
  assumes "of_int \<lfloor>q\<rfloor> \<noteq> q"
  shows "decimal_adjust op v (JNumber (Num q)) = NaN"
proof -
  have q0: "q \<noteq> 0" using assms by auto
  have "q - sgn q * of_int \<lfloor>\<bar>q\<bar>\<rfloor> \<noteq> 0"
  proof
    assume eq: "q - sgn q * of_int \<lfloor>\<bar>q\<bar>\<rfloor> = 0"
    have "q = of_int (if 0 < q then \<lfloor>\<bar>q\<bar>\<rfloor> else - \<lfloor>\<bar>q\<bar>\<rfloor>)"
      using eq q0 by (auto simp: sgn_if split: if_splits)
    then have "of_int \<lfloor>q\<rfloor> = q" by (metis floor_of_int)
    with assms show False by simp
  qed
  then show ?thesis
    using q0 by (simp add: decimal_adjust_def js_strict_eq_def)
qed

theorem decimal_adjust_fractional_precision_witness:
  "decimal_adjust MRound (Num 3) (JNumber (Num (1/2))) = NaN"
proof -
  have "\<lfloor>(1/2 :: rat)\<rfloor> = 0" by (simp add: floor_eq_iff)
  then show ?thesis using decimal_adjust_fractional_precision [of "1/2" MRound "Num 3"] by simp
qed

section \<open>Hexadecimal form\<close>

text \<open>C12: round trip of the long hexadecimal form: for every six lower-case
  hexadecimal digits \<open>h\<close>, \<open>Color("#" + h).asHex()\<close> is \<open>"#" + h\<close>.  The parse
  (\<open>getHexData\<close>, \<open>parseInt(value, 16)\<close>) and the formatter (\<open>rawToHex\<close>:
  \<open>Nums.round\<close>, \<open>toString(16)\<close>, zero padding, \<open>toLowerCase\<close>) are inverse.\<close>

theorem hex_roundtrip:
  assumes "length h = 6" and "list_all is_hex_lc h"
  shows "as_hex (new_color (JString (CHR ''#'' # h))) JUndefined = Inr (CHR ''#'' # h)"
proof -
  from assms(1) obtain a b c d e f where h: "h = [a, b, c, d, e, f]"
    by (auto simp: numeral_eq_Suc length_Suc_conv)
  with assms(2) have lc: "list_all is_hex_lc [a, b, c, d, e, f]" by simp
  let ?c = "new_color (JString (CHR ''#'' # h))"
  let ?rc = "finish_parsed [Num (of_int (int_of_hex [a, b])), Num (of_int (int_of_hex [c, d])),
                            Num (of_int (int_of_hex [e, f]))] JUndefined"
  have raw: "color_raw ?c = Some ?rc"
    unfolding new_color_def h using hex_color_raw [OF lc] by simp
  have op: "is_opaque ?c"
    using raw by (simp add: is_opaque_def is_color_def color_alpha_def js_strict_eq_def finish_parsed_def)
  have "as_hex ?c JUndefined = Inr (''#'' @ raw_to_hex (raw_r ?rc) JUndefined @ raw_to_hex (raw_g ?rc) JUndefined
                                    @ raw_to_hex (raw_b ?rc) JUndefined)"
    by (rule as_hex_default [OF raw op])
  also have "\<dots> = Inr (CHR ''#'' # h)"
    using lc by (simp add: finish_parsed_def nth_or_nan_def raw_to_hex_pair h)
  finally show ?thesis .
qed

theorem hex_roundtrip_witness:
  "as_hex (new_color (JString ''#09afc3'')) JUndefined = Inr ''#09afc3''"
  using hex_roundtrip [of "''09afc3''"] by (simp add: is_hex_lc_def is_digit_def)

text \<open>C13: the short hexadecimal form is the long form with every digit
  doubled: \<open>Color("#abc")\<close> and \<open>Color("#aabbcc")\<close> have the same raw colour,
  for all lower-case hexadecimal digits (the \<open>value + value\<close> of
  \<open>getHexData\<close>).\<close>

theorem short_hex_equiv:
  assumes "length w = 3" and "list_all is_hex_lc w"
  shows "parse_color (JString (CHR ''#'' # w)) = parse_color (JString (CHR ''#'' # concat (map (\<lambda>x. [x, x]) w)))"
proof -
  from assms(1) obtain a b c where w: "w = [a, b, c]"
    by (auto simp: numeral_eq_Suc length_Suc_conv)
  with assms(2) have lc3: "list_all is_hex_lc [a, b, c]" and lc6: "list_all is_hex_lc [a, a, b, b, c, c]"
    by simp_all
  show ?thesis
    using parse_color_hash [OF get_hex_data_short_lc [OF lc3]] hex_color_raw [OF lc6] w by simp
qed

theorem short_hex_equiv_witness:
  "parse_color (JString ''#0af'') = parse_color (JString ''#00aaff'')"
  using short_hex_equiv [of "''0af''"] by (simp add: is_hex_lc_def is_digit_def)


text \<open>C15: \<open>asRGB()\<close> of an opaque colour created from a plain input writes three
  decimal integers between 0 and 255: never a fraction, an exponent, \<open>NaN\<close> or
  a value out of range.\<close>

theorem as_rgb_format:
  assumes "plain_input v" and "is_opaque (new_color v)"
  shows "\<exists>r g b. list_all (\<lambda>k. 0 \<le> k \<and> k \<le> 255) [r, g, b]
           \<and> as_rgb (new_color v)
               = Inr (''rgb('' @ digits_of_int r @ '', '' @ digits_of_int g @ '', '' @ digits_of_int b @ '')'')"
proof -
  have "is_color (new_color v)" using assms(2) by (simp add: is_opaque_def)
  from new_color_raw [OF this assms(1)] obtain rc where
    rc: "color_raw (new_color v) = Some rc" "raw_ok rc" by blast
  then have "in_range 0 255 (raw_r rc)" "in_range 0 255 (raw_g rc)" "in_range 0 255 (raw_b rc)"
    by (simp_all add: raw_ok_def)
  then obtain r g b where
    k: "raw_to_base256 (raw_r rc) = Num (of_int r)" "raw_to_base256 (raw_g rc) = Num (of_int g)"
       "raw_to_base256 (raw_b rc) = Num (of_int b)"
    and bd: "list_all (\<lambda>k. 0 \<le> k \<and> k \<le> 255) [r, g, b]"
    by (elim raw_to_base256_int) simp
  have str: "js_num_str (Num (of_int k)) = digits_of_int k" if "0 \<le> k" "k \<le> 255" for k
    using that by (intro js_num_str_int) simp_all
  have "as_rgb (new_color v)
        = Inr (''rgb('' @ digits_of_int r @ '', '' @ digits_of_int g @ '', '' @ digits_of_int b @ '')'')"
    using rc(1) assms(2) k bd
    by (simp add: as_rgb_def as_rgb_array_def after_def ensure_opaque_def ensure_color_def is_opaque_def
                  as_rgb_array_raw_def get_raw_array_rgb_def js_join_def js_elem_str_def str)
  with bd show ?thesis by blast
qed

theorem as_rgb_format_witness:
  "\<exists>r g b. list_all (\<lambda>k. 0 \<le> k \<and> k \<le> 255) [r, g, b]
     \<and> as_rgb (new_color (JString ''turquoise''))
         = Inr (''rgb('' @ digits_of_int r @ '', '' @ digits_of_int g @ '', '' @ digits_of_int b @ '')'')"
  by (rule as_rgb_format) code_simp+

text \<open>C14: \<open>asHexLC()\<close> is \<open>asHex()\<close> and \<open>asHexUC()\<close> is \<open>asHex().toUpperCase()\<close>,
  for every Color, including the ones that throw (both throw the same error).\<close>

theorem hex_case_options:
  "as_hex_lc c = as_hex c JUndefined
   \<and> as_hex_uc c = map_sum id ascii_to_upper (as_hex c JUndefined)"
proof -
  have hash: "ascii_to_upper (CHR ''#'' # xs) = CHR ''#'' # ascii_to_upper xs" for xs
    by (simp add: ascii_to_upper_def ascii_upper_char_def)
  show ?thesis
    by (simp add: as_hex_lc_def as_hex_uc_def as_hex_def after_def raw_to_hex_lower raw_to_hex_upper
                  ascii_to_upper_concat comp_def hash split: sum.split)
qed


section \<open>Where the code and the specification differ\<close>

text \<open>C16: \<open>transparent\<close> is matched after \<open>toLowerCase\<close>: every string whose lower
  case is \<open>transparent\<close> parses to the transparent colour \<open>{0, 0, 0, 0}\<close>,
  although the specification matches keywords exactly.\<close>

theorem transparent_any_case:
  assumes "js_to_lower s = ''transparent''"
  shows "parse_color (JString s) = Some \<lparr>raw_r = Num 0, raw_g = Num 0, raw_b = Num 0, raw_a = Num 0\<rparr>"
  using assms css_get_transparent [OF assms]
  by (simp add: parse_color_string_def finish_parsed_def nth_or_nan_def)

theorem transparent_any_case_witness:
  "parse_color (JString ''TRANSPARENT'') = Some \<lparr>raw_r = Num 0, raw_g = Num 0, raw_b = Num 0, raw_a = Num 0\<rparr>"
  by (rule transparent_any_case) code_simp

text \<open>C17: every name \<open>CssColorNames\<close> inherits from \<open>Object.prototype\<close> is
  accepted: the colour is opaque, its channels are \<open>undefined\<close>, and \<open>asHex()\<close>
  returns \<open>#nannannan\<close>.\<close>

theorem inherited_name_nan:
  assumes "s \<in> set object_prototype_names"
  shows "is_opaque (new_color (JString s)) \<and> as_hex (new_color (JString s)) JUndefined = Inr ''#nannannan''"
proof -
  have raw: "color_raw (new_color (JString s)) = Some (finish_parsed [] JUndefined)"
    by (simp add: new_color_def parse_color_string_def css_get_inherited [OF assms])
  moreover have op: "is_opaque (new_color (JString s))"
    using raw by (simp add: is_opaque_def is_color_def color_alpha_def js_strict_eq_def finish_parsed_def)
  moreover have "raw_to_hex NaN JUndefined = ''nan''"
    by code_simp
  ultimately show ?thesis
    by (simp add: as_hex_default finish_parsed_def nth_or_nan_def)
qed

theorem inherited_name_nan_witness:
  "is_opaque (new_color (JString ''constructor''))
   \<and> as_hex (new_color (JString ''constructor'')) JUndefined = Inr ''#nannannan''"
  by (rule inherited_name_nan) (simp add: object_prototype_names_def)

text \<open>C18: every string \<open>getAgColorData\<close> accepts carries an alpha between 0 and 1,
  so \<open>AgColor(f, f, f)\<close> without alpha, which the specification lists, is never
  accepted.\<close>

theorem ag_color_has_alpha:
  assumes "get_ag_color_data s = Some (rgb, a)"
  shows "\<exists>w. a = Some w \<and> in_range 0 1 (js_str_to_num w)"
proof -
  from assms obtain k m caps where ex: "rx_exec rx_ag_color s = Some (k, m, caps)" and a: "a = caps 4"
    by (auto simp: get_ag_color_data_def match_color_def split: option.splits)
  have "rx_wf rx_ag_color" "cap_body rx_ag_color 0 4 = Some rx_fraction"
    using color_patterns(9) by (simp_all add: color_pattern_def)
  from rx_exec_cap_must [OF ex this(1) ag_color_alpha_group this(2)] obtain w where "caps 4 = Some w" by blast
  moreover from get_ag_color_data_ok [OF assms] have "case a of None \<Rightarrow> True | Some w \<Rightarrow> in_range 0 1 (js_str_to_num w)"
    by (simp add: channels_ok_def)
  ultimately show ?thesis using a by simp
qed

theorem ag_color_has_alpha_witness:
  "\<exists>w. snd (the (get_ag_color_data ''AgColor(0, 0.5, 1, 1)'')) = Some w
       \<and> in_range 0 1 (js_str_to_num w)"
proof -
  obtain rgb a where d: "get_ag_color_data ''AgColor(0, 0.5, 1, 1)'' = Some (rgb, a)"
  proof -
    have "get_ag_color_data ''AgColor(0, 0.5, 1, 1)'' \<noteq> None" by code_simp
    then show ?thesis using that by fastforce
  qed
  from ag_color_has_alpha [OF d] d show ?thesis by simp
qed

end
